theory Spec2Isabelle
  imports Complex_Main "HOL-Library.Word" "HOL-Library.Signed_Division"
begin

chapter \<open>The model\<close>

section \<open>Shared conventions\<close>

text \<open>
  The C++ type \<open>int\<close> is modelled by the unbounded \<open>int\<close> of HOL: every quantity below is
  a pixel coordinate, a sample of a voice waveform or an index into a short vector, far
  from the 32-bit range. Division of C++ integers truncates towards zero and is written
  \<open>sdiv\<close>; a division by zero and an out-of-range \<open>at()\<close> are results of their own.
  A \<open>float64\<close> is modelled by a \<open>real\<close>; where a division of doubles has no finite result
  the model says so. The 64-bit set identifiers are \<open>64 word\<close>.
\<close>

text \<open>\<open>QMargins\<close> and \<open>QSize\<close> of the toolkit.\<close>

record QMargins =
  mleft :: int
  mtop :: int
  mright :: int
  mbottom :: int

type_synonym QSize = "int \<times> int"

section \<open>Document and Photo elements: size for grouping\<close>

text \<open>
  A file layout of the style tables (\<open>st::msgFileLayout\<close>, \<open>st::msgFileThumbLayout\<close> and
  their grouped variants). The style tables are generated outside the given sources, so
  they are parameters of the model.
\<close>

record FileLayout =
  padding :: QMargins
  thumbSize :: int
  nameTop :: int
  linkTop :: int

record DocumentStyle =
  msgFileLayout :: FileLayout
  msgFileThumbLayout :: FileLayout
  msgFileLayoutGrouped :: FileLayout
  msgFileThumbLayoutGrouped :: FileLayout
  msgPadding :: QMargins

text \<open>
  The part of a \<open>Document\<close> element that \<open>sizeForGrouping\<close> reads: whether the
  \<open>HistoryDocumentThumbed\<close> component is present, the caption of the
  \<open>HistoryDocumentCaptioned\<close> component when it is present (the text engine's
  \<open>countHeight\<close>, a function of the available width), and the stored \<open>maxWidth()\<close>.
\<close>

record Document =
  thumbed :: bool
  captioned :: "(int \<Rightarrow> int) option"
  maxWidth :: int

text \<open>The layout and the height both functions compute, line for line the same.\<close>

definition groupedLayout :: "DocumentStyle \<Rightarrow> Document \<Rightarrow> FileLayout" where
  "groupedLayout st d =
     (if thumbed d then msgFileThumbLayoutGrouped st else msgFileLayoutGrouped st)"

definition groupedHeight :: "DocumentStyle \<Rightarrow> Document \<Rightarrow> int \<Rightarrow> int" where
  "groupedHeight st d w =
     (let l = groupedLayout st d;
          height = mtop (padding l) + thumbSize l + mbottom (padding l)
      in case captioned d of
           None \<Rightarrow> height
         | Some countHeight \<Rightarrow>
             height + countHeight (w - mleft (msgPadding st) - mright (msgPadding st)))"

definition Document_sizeForGroupingOptimal ::
  "DocumentStyle \<Rightarrow> Document \<Rightarrow> int \<Rightarrow> QSize" where
  "Document_sizeForGroupingOptimal st d maxWidth' = (maxWidth', groupedHeight st d maxWidth')"

definition Document_sizeForGrouping :: "DocumentStyle \<Rightarrow> Document \<Rightarrow> int \<Rightarrow> QSize" where
  "Document_sizeForGrouping st d width' = (maxWidth d, groupedHeight st d width')"

text \<open>The dimensions of the \<open>PhotoData\<close> behind a \<open>Photo\<close> element.\<close>

record PhotoDims =
  data_width :: int
  data_height :: int

definition Photo_sizeForGroupingOptimal :: "PhotoDims \<Rightarrow> int \<Rightarrow> QSize" where
  "Photo_sizeForGroupingOptimal d maxWidth' = (max (data_width d) 1, max (data_height d) 1)"

definition Photo_sizeForGrouping :: "PhotoDims \<Rightarrow> int \<Rightarrow> QSize" where
  "Photo_sizeForGrouping d width' = Photo_sizeForGroupingOptimal d width'"

text \<open>A style and an element to evaluate the functions on.\<close>

definition exampleLayout :: FileLayout where
  "exampleLayout = \<lparr>padding = \<lparr>mleft = 14, mtop = 10, mright = 11, mbottom = 10\<rparr>,
                     thumbSize = 44, nameTop = 14, linkTop = 40\<rparr>"

definition exampleStyle :: DocumentStyle where
  "exampleStyle = \<lparr>msgFileLayout = exampleLayout, msgFileThumbLayout = exampleLayout,
                    msgFileLayoutGrouped = exampleLayout,
                    msgFileThumbLayoutGrouped = exampleLayout,
                    msgPadding = \<lparr>mleft = 13, mtop = 7, mright = 13, mbottom = 8\<rparr>\<rparr>"

definition exampleDocument :: Document where
  "exampleDocument = \<lparr>thumbed = False, captioned = None, maxWidth = 300\<rparr>"

section \<open>Voice waveform painting\<close>

text \<open>
  \<open>PaintWaveform\<close> of \<open>history_view_document.cpp\<close>. A read of a \<open>QVector\<close> through
  \<open>at()\<close> outside \<open>[0, size)\<close> and an integer division by zero end the function; they
  are the two errors of the model.
\<close>

datatype paint_error = IndexOutOfRange | DivisionByZero

definition vector_at :: "int list \<Rightarrow> int \<Rightarrow> paint_error + int" where
  "vector_at xs i =
     (if 0 \<le> i \<and> i < int (length xs) then Inr (xs ! nat i) else Inl IndexOutOfRange)"

definition int_divide :: "int \<Rightarrow> int \<Rightarrow> paint_error + int" where
  "int_divide a b = (if b = 0 then Inl DivisionByZero else Inr (a sdiv b))"

text \<open>
  \<open>VoiceData\<close>: the samples (a vector of \<open>signed char\<close>) and \<open>wavemax\<close>. The style
  constants the function reads and \<open>Media::Player::kWaveformSamplesCount\<close> are declared
  outside the given sources and are parameters.
\<close>

record VoiceData =
  waveform :: "int list"
  wavemax :: int

record WaveformConsts =
  msgWaveformBar :: int
  msgWaveformSkip :: int
  msgWaveformMin :: int
  msgWaveformMax :: int
  kWaveformSamplesCount :: int

text \<open>
  What the loop draws for one bar: its left edge, the aggregated sample \<open>maxValue\<close>,
  \<open>barValue\<close> and \<open>barHeight\<close>. The colours of a bar (split at \<open>activeWidth\<close>) do not
  influence the loop and are left out.
\<close>

record Bar =
  bar_left :: int
  bar_max :: int
  bar_value :: int
  bar_height :: int

text \<open>\<open>wf ? wf->at(i) : 0\<close>\<close>

definition sample :: "int list option \<Rightarrow> int \<Rightarrow> paint_error + int" where
  "sample wform i = (case wform of None \<Rightarrow> Inr 0 | Some xs \<Rightarrow> vector_at xs i)"

text \<open>
  The \<open>for\<close> loop, from the state \<open>(i, barLeft, sum, maxValue)\<close>; the result lists the
  bars in the order they are drawn.
\<close>

function waveformLoop ::
  "WaveformConsts \<Rightarrow> int list option \<Rightarrow> int \<Rightarrow> int \<Rightarrow> int \<Rightarrow>
   int \<Rightarrow> int \<Rightarrow> int \<Rightarrow> int \<Rightarrow> paint_error + Bar list" where
  "waveformLoop st wform wfSize barCount barNormValue i barLeft summ maxValue =
     (if i < wfSize then
        (case sample wform i of
           Inl e \<Rightarrow> Inl e
         | Inr val \<Rightarrow>
             if summ + barCount < wfSize then
               waveformLoop st wform wfSize barCount barNormValue
                 (i + 1) barLeft (summ + barCount) (max maxValue val)
             else
               (let summ' = summ + barCount - wfSize;
                    maxValue' =
                      (if summ' < (barCount + 1) sdiv 2 then max maxValue val else maxValue);
                    maxDelta = msgWaveformMax st - msgWaveformMin st
                in case int_divide (maxValue' * maxDelta + barNormValue sdiv 2) barNormValue of
                     Inl e \<Rightarrow> Inl e
                   | Inr barValue \<Rightarrow>
                       (case waveformLoop st wform wfSize barCount barNormValue
                               (i + 1) (barLeft + (msgWaveformBar st + msgWaveformSkip st)) summ'
                               (if summ' < (barCount + 1) sdiv 2 then 0 else val) of
                          Inl e \<Rightarrow> Inl e
                        | Inr bars \<Rightarrow>
                            Inr (\<lparr>bar_left = barLeft, bar_max = maxValue',
                                  bar_value = barValue,
                                  bar_height = msgWaveformMin st + barValue\<rparr> # bars))))
      else Inr [])"
  by pat_completeness auto
termination
  by (relation "measure (\<lambda>(st, wform, wfSize, barCount, barNormValue, i, barLeft, summ, maxValue).
        nat (wfSize - i))") auto

declare waveformLoop.simps [simp del]

text \<open>
  The lambda that selects \<open>wf\<close>: no voice data, an empty waveform or a negative first
  sample give \<open>nullptr\<close>.
\<close>

definition usable_waveform :: "VoiceData option \<Rightarrow> paint_error + VoiceData option" where
  "usable_waveform voiceData =
     (case voiceData of
        None \<Rightarrow> Inr None
      | Some v \<Rightarrow>
          if waveform v = [] then Inr None
          else (case vector_at (waveform v) 0 of
                  Inl e \<Rightarrow> Inl e
                | Inr first \<Rightarrow> if first < 0 then Inr None else Inr (Some v)))"

definition PaintWaveform ::
  "WaveformConsts \<Rightarrow> VoiceData option \<Rightarrow> int \<Rightarrow> paint_error + Bar list" where
  "PaintWaveform st voiceData availableWidth =
     (case usable_waveform voiceData of
        Inl e \<Rightarrow> Inl e
      | Inr wform \<Rightarrow>
          (let wfSize = (case wform of Some v \<Rightarrow> int (length (waveform v))
                                     | None \<Rightarrow> kWaveformSamplesCount st)
           in case int_divide availableWidth (msgWaveformBar st + msgWaveformSkip st) of
                Inl e \<Rightarrow> Inl e
              | Inr perWidth \<Rightarrow>
                  (let barCount = min perWidth wfSize;
                       barNormValue = (case wform of Some v \<Rightarrow> wavemax v | None \<Rightarrow> 0) + 1
                   in waveformLoop st (map_option waveform wform) wfSize barCount
                        barNormValue 0 0 0 0)))"

text \<open>The bar drawn at index \<open>i\<close> when the loop does not \<open>continue\<close>.\<close>

definition drawnBar ::
  "WaveformConsts \<Rightarrow> int \<Rightarrow> int \<Rightarrow> int \<Rightarrow> int \<Rightarrow> int \<Rightarrow> int \<Rightarrow> int \<Rightarrow> Bar" where
  "drawnBar st wfSize barCount barNormValue barLeft summ maxValue v =
     (let maxValue' = (if summ + barCount - wfSize < (barCount + 1) sdiv 2
                       then max maxValue v else maxValue);
          barValue = (maxValue' * (msgWaveformMax st - msgWaveformMin st)
                        + barNormValue sdiv 2) sdiv barNormValue
      in \<lparr>bar_left = barLeft, bar_max = maxValue', bar_value = barValue,
           bar_height = msgWaveformMin st + barValue\<rparr>)"




text \<open>
  The placeholder: \<open>kWaveformSamplesCount\<close> samples of value zero. \<open>usesPlaceholder\<close> is
  the condition under which the loop does not read the real data; \<open>barCountOf\<close> is
  \<open>barCount\<close> for real data.
\<close>

definition placeholderVoice :: "WaveformConsts \<Rightarrow> VoiceData" where
  "placeholderVoice st = \<lparr>waveform = replicate (nat (kWaveformSamplesCount st)) 0, wavemax = 0\<rparr>"

definition usesPlaceholder :: "VoiceData option \<Rightarrow> bool" where
  "usesPlaceholder voiceData =
     (case voiceData of None \<Rightarrow> True
      | Some v \<Rightarrow> waveform v = [] \<or> hd (waveform v) < 0)"

definition barCountOf :: "WaveformConsts \<Rightarrow> VoiceData \<Rightarrow> int \<Rightarrow> int" where
  "barCountOf st v availableWidth =
     min (availableWidth sdiv (msgWaveformBar st + msgWaveformSkip st))
         (int (length (waveform v)))"

text \<open>Constants and voice data to evaluate the function on.\<close>

definition st0 :: WaveformConsts where
  "st0 = \<lparr>msgWaveformBar = 2, msgWaveformSkip = 1, msgWaveformMin = 3, msgWaveformMax = 23,
          kWaveformSamplesCount = 100\<rparr>"


definition v1 :: VoiceData where
  "v1 = \<lparr>waveform = [1, 5, 3, 7, 2, 9, 4], wavemax = 9\<rparr>"

section \<open>Sticker footer: scroll state\<close>

text \<open>
  \<open>std::clamp\<close> (defined for \<open>lo \<le> hi\<close>), Qt's \<open>qRound\<close> and \<open>base::SafeRound\<close> (both
  round to the nearest integer; \<open>qRound\<close> rounds a half upwards, \<open>SafeRound\<close> away from
  zero), and the conversion of a \<open>double\<close> to \<open>int\<close>, which truncates.
\<close>

definition std_clamp :: "int \<Rightarrow> int \<Rightarrow> int \<Rightarrow> int" where
  "std_clamp v lo hi = (if v < lo then lo else if hi < v then hi else v)"

definition qRound :: "real \<Rightarrow> int" where
  "qRound d = round d"

definition SafeRound :: "real \<Rightarrow> int" where
  "SafeRound d = (if 0 \<le> d then \<lfloor>d + 1 / 2\<rfloor> else \<lceil>d - 1 / 2\<rceil>)"

definition truncate_real :: "real \<Rightarrow> int" where
  "truncate_real d = (if 0 \<le> d then \<lfloor>d\<rfloor> else \<lceil>d\<rceil>)"

text \<open>
  Modelled from the spec: \<open>anim::value\<close> and the easing curves belong to the animation
  library, which is not among the given sources. The spec describes an interpolation
  between a start and a target with a current value: \<open>start\<close> sets a new target and
  restarts from the current value, \<open>finish\<close> sets the value to its target, and
  \<open>update\<close> moves the current value along an easing curve, linear or ease-out-cubic.
\<close>

record anim_value =
  a_from :: real
  a_to :: real
  a_current :: real

datatype transition = linear | easeOutCubic

definition transition_apply :: "transition \<Rightarrow> real \<Rightarrow> real \<Rightarrow> real" where
  "transition_apply tr delta dt =
     (case tr of linear \<Rightarrow> delta * dt
      | easeOutCubic \<Rightarrow> delta * ((dt - 1) ^ 3 + 1))"

definition anim_value_of :: "real \<Rightarrow> real \<Rightarrow> anim_value" where
  "anim_value_of f t = \<lparr>a_from = f, a_to = t, a_current = f\<rparr>"

definition anim_start :: "real \<Rightarrow> anim_value \<Rightarrow> anim_value" where
  "anim_start t v = \<lparr>a_from = a_current v, a_to = t, a_current = a_current v\<rparr>"

definition anim_finish :: "anim_value \<Rightarrow> anim_value" where
  "anim_finish v = \<lparr>a_from = a_to v, a_to = a_to v, a_current = a_to v\<rparr>"

definition anim_update :: "real \<Rightarrow> transition \<Rightarrow> anim_value \<Rightarrow> anim_value" where
  "anim_update dt tr v =
     v\<lparr>a_current := a_from v + transition_apply tr (a_to v - a_from v) dt\<rparr>"

text \<open>
  \<open>StickersListFooter::ScrollState\<close>. The fields are named as in the source, except
  \<open>x\<close> (\<open>x_value\<close>) and \<open>max\<close> (\<open>max_value\<close>); \<open>animating\<close> stands for the
  \<open>animation\<close> object, which the footer only starts and stops.
\<close>

record ScrollState =
  x_value :: anim_value
  selectionX :: anim_value
  selectionWidth :: anim_value
  animationStart :: int
  animating :: bool
  selected :: int
  max_value :: int
  draggingStartX :: int
  dragging :: bool

text \<open>
  \<open>ScrollState::animationCallback\<close>. \<open>animDisabled\<close> is \<open>anim::Disabled()\<close> and
  \<open>stickerIconMove\<close> the style constant \<open>st::stickerIconMove\<close>. The result is the
  returned flag and the new state; with a duration of zero the quotient of doubles is not
  a finite number, and the model gives no result.
\<close>

definition animationCallback ::
  "bool \<Rightarrow> int \<Rightarrow> int \<Rightarrow> ScrollState \<Rightarrow> (bool \<times> ScrollState) option" where
  "animationCallback animDisabled stickerIconMove now s =
     (let now' = (if animDisabled then now + stickerIconMove else now)
      in if animationStart s = 0 then Some (False, s)
         else if stickerIconMove = 0 then None
         else
           (let dt = real_of_int (now' - animationStart s) / real_of_int stickerIconMove
            in if dt \<ge> 1 then
                 Some (False, s\<lparr>animationStart := 0,
                                 x_value := anim_finish (x_value s),
                                 selectionX := anim_finish (selectionX s),
                                 selectionWidth := anim_finish (selectionWidth s)\<rparr>)
               else
                 Some (True, s\<lparr>x_value := anim_update dt linear (x_value s),
                                selectionX := anim_update dt easeOutCubic (selectionX s),
                                selectionWidth :=
                                  anim_update dt easeOutCubic (selectionWidth s)\<rparr>)))"

text \<open>
  The assignment that ends \<open>checkDragging\<close>, \<open>finishDragging\<close> and the lambda of
  \<open>scrollByWheelEvent\<close> alike: when the new offset differs from the rounded current one,
  store it and stop the animation.
\<close>

definition setScrollX :: "int \<Rightarrow> ScrollState \<Rightarrow> ScrollState" where
  "setScrollX newX s =
     (if newX \<noteq> qRound (a_current (x_value s)) then
        s\<lparr>x_value := anim_value_of (real_of_int newX) (real_of_int newX),
          animationStart := 0, animating := False\<rparr>
      else s)"

text \<open>
  \<open>checkDragging\<close> and \<open>finishDragging(ScrollState&)\<close>, with the \<open>x\<close> coordinates of
  \<open>_iconsMouseDown\<close> and \<open>_iconsMousePos\<close>, and the lambda \<open>use\<close> of
  \<open>scrollByWheelEvent\<close>, which returns the \<open>delta\<close> it leaves.
\<close>

definition checkDragging :: "bool \<Rightarrow> int \<Rightarrow> int \<Rightarrow> ScrollState \<Rightarrow> ScrollState" where
  "checkDragging rtl mouseDownX mousePosX s =
     (if dragging s then
        setScrollX
          (std_clamp ((if rtl then - 1 else 1) * (mouseDownX - mousePosX) + draggingStartX s)
             0 (max_value s)) s
      else s)"

definition finishDragging_state :: "int \<Rightarrow> int \<Rightarrow> ScrollState \<Rightarrow> bool \<times> ScrollState" where
  "finishDragging_state mouseDownX mousePosX s =
     (if \<not> dragging s then (False, s)
      else
        (True,
         (setScrollX (std_clamp (draggingStartX s + mouseDownX - mousePosX) 0 (max_value s)) s)
           \<lparr>dragging := False\<rparr>))"

definition wheel_use :: "int \<Rightarrow> ScrollState \<Rightarrow> int \<times> ScrollState" where
  "wheel_use delta s =
     (let now = qRound (a_current (x_value s));
          used = now - delta;
          next = std_clamp used 0 (max_value s)
      in (next - used, setScrollX next s))"

text \<open>
  The integer offset the footer paints and hit-tests with, and the two bounds on a scroll
  state: on the rounded offset and on the current value itself. \<open>elapsed\<close> is the
  \<open>dt\<close> of \<open>animationCallback\<close>; \<open>centred\<close> says that the target of the position is
  within the bounds.
\<close>

definition scrollOffset :: "ScrollState \<Rightarrow> int" where
  "scrollOffset s = qRound (a_current (x_value s))"

definition offset_bounded :: "ScrollState \<Rightarrow> bool" where
  "offset_bounded s \<longleftrightarrow> 0 \<le> scrollOffset s \<and> scrollOffset s \<le> max_value s"

definition in_bounds :: "ScrollState \<Rightarrow> bool" where
  "in_bounds s \<longleftrightarrow>
     0 \<le> a_current (x_value s) \<and> a_current (x_value s) \<le> real_of_int (max_value s)"

definition elapsed :: "bool \<Rightarrow> int \<Rightarrow> int \<Rightarrow> ScrollState \<Rightarrow> real" where
  "elapsed animDisabled stickerIconMove now s =
     real_of_int ((if animDisabled then now + stickerIconMove else now) - animationStart s)
       / real_of_int stickerIconMove"

definition centred :: "ScrollState \<Rightarrow> int \<Rightarrow> bool" where
  "centred s bound \<longleftrightarrow>
     max_value s = bound \<and> 0 \<le> a_to (x_value s) \<and> a_to (x_value s) \<le> real_of_int bound"

section \<open>Sticker footer: icons and selection\<close>

text \<open>
  The set identifiers of the emoji sections. The enum \<open>Ui::Emoji::Section\<close> is declared
  outside the given sources; the footer casts \<open>id - RecentEmojiSectionSetId()\<close> to a
  section, so \<open>Recent\<close> is its first member, and it lays out the sub-icons \<open>People\<close> to
  \<open>Symbols\<close>, \<open>Symbols - Recent\<close> of them, so \<open>People\<close> follows \<open>Recent\<close>; the members are
  numbered accordingly. The \<open>Expects\<close> of \<open>EmojiSectionSetId\<close> holds at its calls below.
\<close>

type_synonym uint64 = "64 word"

definition kEmojiSectionSetIdBase :: uint64 where
  "kEmojiSectionSetIdBase = 0x77FFFFFFFFFFFFF0"

type_synonym EmojiSection = nat

definition Section_Recent :: EmojiSection where "Section_Recent = 0"
definition Section_People :: EmojiSection where "Section_People = 1"
definition Section_Symbols :: EmojiSection where "Section_Symbols = 7"

definition EmojiSectionSetId :: "EmojiSection \<Rightarrow> uint64" where
  "EmojiSectionSetId section = kEmojiSectionSetIdBase + of_nat section + 1"

definition RecentEmojiSectionSetId :: uint64 where
  "RecentEmojiSectionSetId = EmojiSectionSetId Section_Recent"

definition AllEmojiSectionSetId :: uint64 where
  "AllEmojiSectionSetId = kEmojiSectionSetIdBase"

definition SetIdEmojiSection :: "uint64 \<Rightarrow> EmojiSection option" where
  "SetIdEmojiSection id' =
     (let base = RecentEmojiSectionSetId
      in if id' < base then None
         else (let index = id' - base
               in if index \<le> of_nat Section_Symbols then Some (unat index) else None))"

text \<open>
  \<open>Data::Stickers::FavedSetId\<close> and \<open>RecentSetId\<close>, constants declared outside the given
  sources, are parameters; so is the enum \<open>ValidateIconAnimations\<close>, of which the footer
  tests \<open>Full\<close> and \<open>None\<close>.
\<close>

record StickersSetIds =
  FavedSetId :: uint64
  RecentSetId :: uint64

datatype ValidateIconAnimations = Animations_Full | Animations_Scroll | Animations_None

text \<open>
  \<open>IconInfo\<close>, and the fields of the footer the modelled functions read or write. An icon
  is its \<open>setId\<close>. \<open>subiconsWidthAnimation\<close> is the current value of the width animation
  while it runs.
\<close>

record IconInfo =
  info_index :: int
  info_left :: int
  adjustedLeft :: int
  info_width :: int
  visible :: bool

record Footer =
  icons :: "uint64 list"
  iconState :: ScrollState
  subiconState :: ScrollState
  iconsLeft :: int
  iconsRight :: int
  footer_width :: int
  singleWidth :: int
  subiconsWidth :: int
  subiconsExpanded :: bool
  subiconsWidthAnimation :: "real option"
  iconsMouseDownX :: int
  iconsMousePosX :: int
  activeByScrollId :: uint64
  horizontal :: bool

text \<open>
  Modelled from the spec: \<open>Ui::Animations::Simple\<close> is outside the given sources. Its
  \<open>value(final)\<close> is the animated width while the animation runs and \<open>final\<close> otherwise,
  and an animation started from a width has that width.
\<close>

definition animation_value :: "real option \<Rightarrow> real \<Rightarrow> real" where
  "animation_value a final = (case a of Some v \<Rightarrow> v | None \<Rightarrow> final)"

text \<open>
  \<open>enumerateIcons\<close> and \<open>enumerateSubicons\<close>, as the list of the \<open>IconInfo\<close> values passed
  to the callback when it never stops the enumeration; \<open>iconInfo\<close> and \<open>subiconInfo\<close>
  take the first entry with the index, or a value-initialised \<open>IconInfo\<close>.
\<close>

fun enumerateIcons_from :: "Footer \<Rightarrow> uint64 list \<Rightarrow> int \<Rightarrow> int \<Rightarrow> IconInfo list" where
  "enumerateIcons_from f [] i left = []"
| "enumerateIcons_from f (icon # rest) i left =
     (let iconsX = SafeRound (a_current (x_value (iconState f)));
          shift = iconsLeft f - iconsX;
          width = (if icon = AllEmojiSectionSetId
                   then animation_value (subiconsWidthAnimation f)
                          (real_of_int (if subiconsExpanded f then subiconsWidth f
                                        else singleWidth f))
                   else real_of_int (singleWidth f));
          shifted = shift + left;
          visible' = (real_of_int shifted + width > 0 \<and> shifted < footer_width f)
      in \<lparr>info_index = i, info_left = left, adjustedLeft = shifted,
           info_width = SafeRound width, visible = visible'\<rparr>
         # enumerateIcons_from f rest (i + 1) (truncate_real (real_of_int left + width)))"

definition enumerateIcons :: "Footer \<Rightarrow> IconInfo list" where
  "enumerateIcons f = enumerateIcons_from f (icons f) 0 0"

fun enumerateSubicons_from :: "Footer \<Rightarrow> nat \<Rightarrow> int \<Rightarrow> int \<Rightarrow> IconInfo list" where
  "enumerateSubicons_from f 0 i left = []"
| "enumerateSubicons_from f (Suc n) i left =
     (let iconsX = SafeRound (a_current (x_value (subiconState f)));
          shift = - iconsX;
          shifted = shift + left;
          visible' = (shifted + singleWidth f > 0 \<and> shifted < subiconsWidth f)
      in \<lparr>info_index = i - int Section_People, info_left = left, adjustedLeft = shifted,
           info_width = singleWidth f, visible = visible'\<rparr>
         # enumerateSubicons_from f n (i + 1) (left + singleWidth f))"

definition enumerateSubicons :: "Footer \<Rightarrow> IconInfo list" where
  "enumerateSubicons f =
     enumerateSubicons_from f (Suc Section_Symbols - Section_People) (int Section_People) 0"

definition defaultIconInfo :: IconInfo where
  "defaultIconInfo =
     \<lparr>info_index = 0, info_left = 0, adjustedLeft = 0, info_width = 0, visible = False\<rparr>"

definition firstInfo :: "IconInfo list \<Rightarrow> int \<Rightarrow> IconInfo" where
  "firstInfo infos index =
     (case find (\<lambda>info. info_index info = index) infos of
        Some info \<Rightarrow> info | None \<Rightarrow> defaultIconInfo)"

definition iconInfo :: "Footer \<Rightarrow> int \<Rightarrow> IconInfo" where
  "iconInfo f index = firstInfo (enumerateIcons f) index"

definition subiconInfo :: "Footer \<Rightarrow> int \<Rightarrow> IconInfo" where
  "subiconInfo f index = firstInfo (enumerateSubicons f) index"

text \<open>
  \<open>UpdateAnimated\<close> with three arguments, \<open>updateEmojiSectionWidth\<close>, and the end of
  \<open>setSelectedIcon\<close> and \<open>setSelectedSubicon\<close>, which either jumps to the final offset
  or starts the animation; \<open>now\<close> is \<open>crl::now()\<close>. Repainting and the update of the
  hovered icon are left out.
\<close>

definition UpdateAnimated :: "anim_value \<Rightarrow> int \<Rightarrow> ValidateIconAnimations \<Rightarrow> anim_value" where
  "UpdateAnimated v to animations =
     (if animations = Animations_Full then anim_start (real_of_int to) v
      else anim_value_of (real_of_int to) (real_of_int to))"

definition updateEmojiSectionWidth :: "Footer \<Rightarrow> Footer" where
  "updateEmojiSectionWidth f =
     (let sel = selected (iconState f);
          expanded = (sel \<ge> 0 \<and> sel < int (length (icons f))
                      \<and> icons f ! nat sel = AllEmojiSectionSetId)
      in if subiconsExpanded f = expanded then f
         else f\<lparr>subiconsExpanded := expanded,
                subiconsWidthAnimation :=
                  Some (real_of_int (if expanded then singleWidth f else subiconsWidth f))\<rparr>)"

definition startScroll :: "int \<Rightarrow> int \<Rightarrow> ValidateIconAnimations \<Rightarrow> ScrollState \<Rightarrow> ScrollState" where
  "startScroll now xFinal animations s =
     (if animations = Animations_None then
        s\<lparr>x_value := anim_value_of (real_of_int xFinal) (real_of_int xFinal),
          animating := False\<rparr>
      else
        s\<lparr>x_value := anim_start (real_of_int xFinal) (x_value s),
          animationStart := now, animating := True\<rparr>)"

definition setSelectedIcon :: "int \<Rightarrow> int \<Rightarrow> ValidateIconAnimations \<Rightarrow> Footer \<Rightarrow> Footer" where
  "setSelectedIcon now newSelected animations f =
     (if selected (iconState f) = newSelected then f
      else
        (let f1 = updateEmojiSectionWidth (f\<lparr>iconState := (iconState f)\<lparr>selected := newSelected\<rparr>\<rparr>);
             info = iconInfo f1 (selected (iconState f1));
             s1 = (iconState f1)
                    \<lparr>selectionX := UpdateAnimated (selectionX (iconState f1)) (info_left info)
                                     animations,
                     selectionWidth := UpdateAnimated (selectionWidth (iconState f1))
                                         (info_width info) animations\<rparr>;
             relativeLeft = info_left info - iconsLeft f1;
             iconsWidthForCentering = 2 * relativeLeft + info_width info;
             iconsXFinal = std_clamp
               ((iconsLeft f1 + iconsWidthForCentering + iconsRight f1 - footer_width f1) sdiv 2)
               0 (max_value s1)
         in f1\<lparr>iconState := startScroll now iconsXFinal animations s1\<rparr>))"

definition setSelectedSubicon :: "int \<Rightarrow> int \<Rightarrow> ValidateIconAnimations \<Rightarrow> Footer \<Rightarrow> Footer" where
  "setSelectedSubicon now newSelected animations f =
     (if selected (subiconState f) = newSelected then f
      else
        (let s1 = (subiconState f)\<lparr>selected := newSelected\<rparr>;
             f1 = f\<lparr>subiconState := s1\<rparr>;
             info = subiconInfo f1 (selected s1);
             relativeLeft = info_left info;
             subiconsWidthForCentering = 2 * relativeLeft + info_width info;
             subiconsXFinal = std_clamp
               ((subiconsWidthForCentering - subiconsWidth f1) sdiv 2) 0 (max_value s1)
         in f1\<lparr>subiconState := startScroll now subiconsXFinal animations s1\<rparr>))"

text \<open>
  \<open>validateSelectedIcon\<close>. The difference of two \<open>uint64\<close> is stored in an \<open>int\<close>
  (\<open>narrow_to_int\<close>). \<open>validateLoop\<close> is the \<open>for\<close> loop over the icons from index \<open>i\<close>,
  on \<open>(favedIconIndex, newSelected, newSubSelected)\<close>; \<open>validateChoice\<close> gives the two
  indices passed to \<open>setSelectedIcon\<close> and \<open>setSelectedSubicon\<close>.
\<close>

definition narrow_to_int :: "uint64 \<Rightarrow> int" where
  "narrow_to_int w = sint (ucast w :: 32 word)"

fun validateLoop ::
  "StickersSetIds \<Rightarrow> uint64 \<Rightarrow> bool \<Rightarrow> uint64 list \<Rightarrow> int \<Rightarrow> int \<times> int \<times> int
   \<Rightarrow> int \<times> int \<times> int" where
  "validateLoop ids setId isEmojiSection [] i acc = acc"
| "validateLoop ids setId isEmojiSection (icon # rest) i (favedIconIndex, newSelected, newSubSelected) =
     (if icon = setId \<or> (icon = FavedSetId ids \<and> setId = RecentSetId ids) then
        (favedIconIndex, i, newSubSelected)
      else if icon = FavedSetId ids then
        validateLoop ids setId isEmojiSection rest (i + 1) (i, newSelected, newSubSelected)
      else if isEmojiSection \<and> icon = AllEmojiSectionSetId then
        validateLoop ids setId isEmojiSection rest (i + 1)
          (favedIconIndex, i, narrow_to_int (setId - EmojiSectionSetId Section_People))
      else
        validateLoop ids setId isEmojiSection rest (i + 1)
          (favedIconIndex, newSelected, newSubSelected))"

definition isEmojiSectionId :: "uint64 \<Rightarrow> bool" where
  "isEmojiSectionId setId =
     (case SetIdEmojiSection setId of None \<Rightarrow> False
      | Some section \<Rightarrow> section \<noteq> Section_Recent)"

definition validateChoice :: "StickersSetIds \<Rightarrow> uint64 list \<Rightarrow> uint64 \<Rightarrow> int \<times> int" where
  "validateChoice ids icons' setId =
     (case validateLoop ids setId (isEmojiSectionId setId) icons' 0 (- 1, - 1, - 1) of
        (favedIconIndex, newSelected, newSubSelected) \<Rightarrow>
          ((if newSelected \<ge> 0 then newSelected
            else if favedIconIndex \<ge> 0 then favedIconIndex else 0),
           (if newSubSelected \<ge> 0 then newSubSelected else 0)))"

definition validateSelectedIcon ::
  "StickersSetIds \<Rightarrow> int \<Rightarrow> uint64 \<Rightarrow> ValidateIconAnimations \<Rightarrow> Footer \<Rightarrow> Footer" where
  "validateSelectedIcon ids now setId animations f =
     (let f1 = f\<lparr>activeByScrollId := setId\<rparr>;
          choice = validateChoice ids (icons f1) setId
      in setSelectedSubicon now (snd choice) animations
           (setSelectedIcon now (fst choice) animations f1))"

text \<open>When an icon stops the loop: its id is the target, or it is the Faved icon and the
  target is the Recent set.\<close>

definition iconMatches :: "StickersSetIds \<Rightarrow> uint64 \<Rightarrow> uint64 \<Rightarrow> bool" where
  "iconMatches ids setId icon \<longleftrightarrow>
     icon = setId \<or> (icon = FavedSetId ids \<and> setId = RecentSetId ids)"

text \<open>
  \<open>refreshScrollableDimensions\<close>, \<open>finishDragging()\<close> on both axes and
  \<open>scrollByWheelEvent\<close>; \<open>index\<close> is the index of the hovered icon, and reading
  \<open>_icons[index]\<close> outside the vector gives no result.
\<close>

definition refreshScrollableDimensions :: "Footer \<Rightarrow> Footer" where
  "refreshScrollableDimensions f =
     (let last' = iconInfo f (int (length (icons f)) - 1);
          m = max (info_left last' + info_width last' + iconsLeft f + iconsRight f
                     - footer_width f) 0;
          s = (iconState f)\<lparr>max_value := m\<rparr>
      in f\<lparr>iconState :=
             (if a_current (x_value s) > real_of_int m
              then s\<lparr>x_value := anim_value_of (real_of_int m) (real_of_int m)\<rparr> else s)\<rparr>)"

definition finishDragging :: "Footer \<Rightarrow> bool \<times> Footer" where
  "finishDragging f =
     (let (icon, s1) = finishDragging_state (iconsMouseDownX f) (iconsMousePosX f) (iconState f);
          (subicon, s2) = finishDragging_state (iconsMouseDownX f) (iconsMousePosX f)
                            (subiconState f)
      in (icon \<or> subicon, f\<lparr>iconState := s1, subiconState := s2\<rparr>))"

record WheelEvent =
  angleDeltaX :: int
  angleDeltaY :: int
  pixelDeltaX :: int
  pixelDeltaY :: int

definition scrollByWheelEvent :: "bool \<Rightarrow> WheelEvent \<Rightarrow> nat \<Rightarrow> Footer \<Rightarrow> Footer option" where
  "scrollByWheelEvent rtl e index f =
     (let horizontal' = (angleDeltaX e \<noteq> 0);
          vertical = (angleDeltaY e \<noteq> 0)
      in if \<not> horizontal' \<and> \<not> vertical then Some f
         else
           (let f1 = (if horizontal' then f\<lparr>horizontal := True\<rparr> else f);
                delta = (if horizontal'
                         then (if rtl then - 1 else 1)
                                * (if pixelDeltaX e \<noteq> 0 then pixelDeltaX e else angleDeltaX e)
                         else (if pixelDeltaY e \<noteq> 0 then pixelDeltaY e else angleDeltaY e))
            in if subiconsExpanded f1 then
                 (if index < length (icons f1) then
                    (if icons f1 ! index = AllEmojiSectionSetId
                     then Some (f1\<lparr>subiconState := snd (wheel_use delta (subiconState f1))\<rparr>)
                     else Some (f1\<lparr>iconState := snd (wheel_use delta (iconState f1))\<rparr>))
                  else None)
               else Some (f1\<lparr>iconState := snd (wheel_use delta (iconState f1))\<rparr>)))"

text \<open>
  \<open>UpdateAnimated\<close> with two arguments and \<open>updateEmojiWidthCallback\<close>, the callback of
  the width animation of the emoji section: it refreshes \<open>max\<close>, retargets the selection
  frame and, when the scroll animation of the icon strip runs, calls its
  \<open>animationCallback\<close> at \<open>crl::now()\<close>, whose flag it drops.
\<close>

definition UpdateAnimated_to :: "anim_value \<Rightarrow> int \<Rightarrow> anim_value" where
  "UpdateAnimated_to v to =
     (if SafeRound (a_to v) = to then v
      else anim_value_of (if a_from v \<noteq> a_to v then a_from v else real_of_int to)
             (real_of_int to))"

definition updateEmojiWidthCallback :: "bool \<Rightarrow> int \<Rightarrow> int \<Rightarrow> Footer \<Rightarrow> Footer option" where
  "updateEmojiWidthCallback animDisabled stickerIconMove now f =
     (let f1 = refreshScrollableDimensions f;
          info = iconInfo f1 (selected (iconState f1));
          s1 = (iconState f1)
                 \<lparr>selectionX := UpdateAnimated_to (selectionX (iconState f1)) (info_left info),
                  selectionWidth := UpdateAnimated_to (selectionWidth (iconState f1))
                                      (info_width info)\<rparr>
      in if animating s1 then
           (case animationCallback animDisabled stickerIconMove now s1 of
              None \<Rightarrow> None
            | Some (again, s2) \<Rightarrow> Some (f1\<lparr>iconState := s2\<rparr>))
         else Some (f1\<lparr>iconState := s1\<rparr>))"

text \<open>
  Modelled from the spec: a step of \<open>_subiconsWidthAnimation\<close>, an
  \<open>Ui::Animations::Simple\<close>, which is outside the given sources. The animation takes its
  next width, or has ended (\<open>None\<close>), and invokes the callback it was started with.
\<close>

definition widthAnimationStep ::
  "real option \<Rightarrow> bool \<Rightarrow> int \<Rightarrow> int \<Rightarrow> Footer \<Rightarrow> Footer option" where
  "widthAnimationStep animated animDisabled stickerIconMove now f =
     updateEmojiWidthCallback animDisabled stickerIconMove now
       (f\<lparr>subiconsWidthAnimation := animated\<rparr>)"

text \<open>States and icon lists to evaluate the functions on.\<close>

definition scrollExample :: ScrollState where
  "scrollExample =
     \<lparr>x_value = \<lparr>a_from = 0, a_to = 100, a_current = 0\<rparr>,
      selectionX = \<lparr>a_from = 0, a_to = 10, a_current = 4\<rparr>,
      selectionWidth = \<lparr>a_from = 40, a_to = 40, a_current = 40\<rparr>,
      animationStart = 1000, animating = True, selected = 2, max_value = 300,
      draggingStartX = 0, dragging = False\<rparr>"

definition dragExample :: ScrollState where
  "dragExample = scrollExample\<lparr>animationStart := 0, animating := False,
                     x_value := \<lparr>a_from = 20, a_to = 20, a_current = 20\<rparr>,
                     draggingStartX := 20, dragging := True\<rparr>"

definition footerExample :: Footer where
  "footerExample =
     \<lparr>icons = [5, AllEmojiSectionSetId, 6, 7, 8, 9, 10, 11, 12, 13, 14, 15],
      iconState = scrollExample\<lparr>animationStart := 0, animating := False,
                     x_value := \<lparr>a_from = 20, a_to = 20, a_current = 20\<rparr>,
                     draggingStartX := 20, dragging := True\<rparr>,
      subiconState = scrollExample\<lparr>animationStart := 0, animating := False,
                     x_value := \<lparr>a_from = 0, a_to = 0, a_current = 0\<rparr>,
                     max_value := 80, selected := 0\<rparr>,
      iconsLeft = 40, iconsRight = 40, footer_width = 260, singleWidth = 40,
      subiconsWidth = 200, subiconsExpanded = False, subiconsWidthAnimation = None,
      iconsMouseDownX = 100, iconsMousePosX = 600, activeByScrollId = 5,
      horizontal = False\<rparr>"

text \<open>
  A footer of width 260 with twelve icons of width 40, the All Emoji icon selected and
  its section expanded to 180; \<open>max\<close> is 440 on the icon strip and 100 on the sub-icon
  strip, as \<open>refreshScrollableDimensions\<close> and \<open>refreshSubiconsGeometry\<close> compute them.
\<close>

definition expandedFooter :: Footer where
  "expandedFooter =
     \<lparr>icons = [5, AllEmojiSectionSetId, 6, 7, 8, 9, 10, 11, 12, 13, 14, 15],
      iconState =
        \<lparr>x_value = \<lparr>a_from = 0, a_to = 0, a_current = 0\<rparr>,
         selectionX = \<lparr>a_from = 40, a_to = 40, a_current = 40\<rparr>,
         selectionWidth = \<lparr>a_from = 180, a_to = 180, a_current = 180\<rparr>,
         animationStart = 0, animating = False, selected = 1, max_value = 440,
         draggingStartX = 0, dragging = False\<rparr>,
      subiconState =
        \<lparr>x_value = \<lparr>a_from = 0, a_to = 0, a_current = 0\<rparr>,
         selectionX = \<lparr>a_from = 0, a_to = 0, a_current = 0\<rparr>,
         selectionWidth = \<lparr>a_from = 40, a_to = 40, a_current = 40\<rparr>,
         animationStart = 0, animating = False, selected = 0, max_value = 100,
         draggingStartX = 0, dragging = False\<rparr>,
      iconsLeft = 40, iconsRight = 40, footer_width = 260, singleWidth = 40,
      subiconsWidth = 180, subiconsExpanded = True, subiconsWidthAnimation = None,
      iconsMouseDownX = 0, iconsMousePosX = 0, activeByScrollId = AllEmojiSectionSetId,
      horizontal = False\<rparr>"

definition realIds :: StickersSetIds where
  "realIds = \<lparr>FavedSetId = 0xFFFFFFFFFFFFFFFA, RecentSetId = 0xFFFFFFFFFFFFFFFE\<rparr>"

definition iconsFavedRecent :: "uint64 list" where
  "iconsFavedRecent = [FavedSetId realIds, RecentSetId realIds, 5]"

definition iconsWithEmoji :: "uint64 list" where
  "iconsWithEmoji = [FavedSetId realIds, AllEmojiSectionSetId, 5]"

section \<open>Photo element: the bitmap chosen for display\<close>

text \<open>
  The media view of a photo (\<open>Data::PhotoMedia\<close>, outside the given sources) as the Photo
  element reads it: \<open>image(size)\<close> for the three sizes, \<open>thumbnailInline()\<close> and
  \<open>loaded()\<close>; each image is a pointer that may be null. An image is identified by a
  number.
\<close>

type_synonym Image = nat

datatype PhotoSize = Small | Thumbnail | Large

record PhotoMedia =
  image_at :: "PhotoSize \<Rightarrow> Image option"
  thumbnailInline :: "Image option"
  loaded :: bool











definition mediaInlineAndThumbnail :: PhotoMedia where
  "mediaInlineAndThumbnail =
     \<lparr>image_at = (\<lambda>size'. if size' = Thumbnail then Some 2 else None),
      thumbnailInline = Some 1, loaded = False\<rparr>"

section \<open>Photo element: the image cache\<close>

text \<open>
  A \<open>QImage\<close> by its size and an identifier of its pixels, and the four members of the
  Photo element that \<open>validateImageCache\<close> compares and writes. \<open>prepareCalls\<close> counts
  the calls of \<open>prepareImageCache\<close>. The function \<open>prepareImageCache(outer, radius,
  corners)\<close> ends in \<open>Images::Round\<close> and \<open>PrepareWithBlurredBackground\<close>, both outside
  the given sources: it is a parameter. \<open>ratio\<close> is \<open>style::DevicePixelRatio()\<close>; the
  enums \<open>ImageRoundRadius\<close> and \<open>RectParts\<close> are passed as the integers they are cast to.
\<close>

record QImage =
  q_size :: QSize
  q_pixels :: nat

record ImageCache =
  imageCache :: QImage
  imageCacheRoundRadius :: int
  imageCacheRoundCorners :: int
  imageCacheBlurred :: int
  prepareCalls :: nat

definition scaled :: "QSize \<Rightarrow> int \<Rightarrow> QSize" where
  "scaled outer ratio = (fst outer * ratio, snd outer * ratio)"

definition validateImageCache ::
  "(QSize \<Rightarrow> int \<Rightarrow> int \<Rightarrow> PhotoMedia \<Rightarrow> QImage) \<Rightarrow> int \<Rightarrow> PhotoMedia
   \<Rightarrow> QSize \<Rightarrow> int \<Rightarrow> int \<Rightarrow> ImageCache \<Rightarrow> ImageCache" where
  "validateImageCache prepareImageCache ratio m outer radius corners c =
     (let intRadius = radius;
          intCorners = corners;
          large = image_at m Large;
          shouldBeBlurred = (if large \<noteq> None then 0 else 1)
      in if q_size (imageCache c) = scaled outer ratio
            \<and> imageCacheRoundRadius c = intRadius
            \<and> imageCacheRoundCorners c = intCorners
            \<and> imageCacheBlurred c = shouldBeBlurred
         then c
         else c\<lparr>imageCache := prepareImageCache outer radius corners m,
                imageCacheRoundRadius := intRadius,
                imageCacheRoundCorners := intCorners,
                imageCacheBlurred := shouldBeBlurred,
                prepareCalls := Suc (prepareCalls c)\<rparr>)"

text \<open>
  The four values recorded in the cache, and the four values a call asks for.
\<close>

definition recordedKey :: "ImageCache \<Rightarrow> QSize \<times> int \<times> int \<times> int" where
  "recordedKey c =
     (q_size (imageCache c), imageCacheRoundRadius c, imageCacheRoundCorners c,
      imageCacheBlurred c)"

definition wantedKey :: "int \<Rightarrow> PhotoMedia \<Rightarrow> QSize \<Rightarrow> int \<Rightarrow> int \<Rightarrow> QSize \<times> int \<times> int \<times> int" where
  "wantedKey ratio m outer radius corners =
     (scaled outer ratio, radius, corners, if image_at m Large \<noteq> None then 0 else 1)"

definition examplePrepare :: "QSize \<Rightarrow> int \<Rightarrow> int \<Rightarrow> PhotoMedia \<Rightarrow> QImage" where
  "examplePrepare outer radius corners m =
     \<lparr>q_size = scaled outer 2, q_pixels = (if image_at m Large \<noteq> None then 1 else 0)\<rparr>"

definition emptyCache :: ImageCache where
  "emptyCache = \<lparr>imageCache = \<lparr>q_size = (0, 0), q_pixels = 0\<rparr>, imageCacheRoundRadius = 0,
                  imageCacheRoundCorners = 0, imageCacheBlurred = 0, prepareCalls = 0\<rparr>"

section \<open>Photo element: streaming\<close>

text \<open>
  Modelled from the spec: \<open>PhotoData\<close> is outside the given sources. The spec says that a
  streaming error marks the asset playback-failed so that it is not retried: entering
  playback requires \<open>videoCanBePlayed\<close>, which holds for an asset with a video that is
  not marked failed, and \<open>setVideoPlaybackFailed\<close> sets the mark.
\<close>

record PhotoData =
  hasVideo :: bool
  videoPlaybackFailed :: bool

definition videoCanBePlayed :: "PhotoData \<Rightarrow> bool" where
  "videoCanBePlayed d \<longleftrightarrow> hasVideo d \<and> \<not> videoPlaybackFailed d"

definition setVideoPlaybackFailed :: "PhotoData \<Rightarrow> PhotoData" where
  "setVideoPlaybackFailed d = d\<lparr>videoPlaybackFailed := True\<rparr>"

text \<open>
  Modelled from the spec: the streaming instance is outside the given sources; the Photo
  element reads its flags \<open>valid\<close>, \<open>ready\<close>, \<open>paused\<close>, \<open>active\<close> and \<open>failed\<close>, resumes
  a paused instance and plays an instance that is neither active nor failed.
\<close>

record StreamingInstance =
  valid :: bool
  ready :: bool
  paused :: bool
  active :: bool
  failed :: bool

record Streamed =
  instance_of :: StreamingInstance
  frozenFrame :: "Image option"

text \<open>
  The Photo element: its asset, \<open>_streamed\<close>, \<open>_dataMedia\<close>, whether the element is
  registered as holding a heavy part, and whether \<open>showPhoto\<close> was called.
\<close>

record Photo =
  photo_data :: PhotoData
  streamed :: "Streamed option"
  dataMedia :: "PhotoMedia option"
  heavyRegistered :: bool
  shownPhoto :: bool

definition hasHeavyPart :: "Photo \<Rightarrow> bool" where
  "hasHeavyPart p \<longleftrightarrow> streamed p \<noteq> None \<or> dataMedia p \<noteq> None"

definition setStreamed :: "Streamed option \<Rightarrow> Photo \<Rightarrow> Photo" where
  "setStreamed value' p =
     (let removed = (streamed p \<noteq> None \<and> value' = None);
          set' = (streamed p = None \<and> value' \<noteq> None);
          p1 = p\<lparr>streamed := value'\<rparr>
      in if set' then p1\<lparr>heavyRegistered := True\<rparr>
         else if removed then p1\<lparr>heavyRegistered := hasHeavyPart p1\<rparr>
         else p1)"

definition stopAnimation :: "Photo \<Rightarrow> Photo" where
  "stopAnimation p = setStreamed None p"

definition handleStreamingError :: "Photo \<Rightarrow> Photo" where
  "handleStreamingError p =
     stopAnimation (p\<lparr>photo_data := setVideoPlaybackFailed (photo_data p)\<rparr>)"

text \<open>
  \<open>checkStreamedIsStarted\<close>, \<open>createStreamingObjects\<close> (\<open>shared\<close> is the instance made for
  the shared streaming document; repainting is left out), \<open>ensureDataMediaCreated\<close>
  (\<open>created\<close> is the media view it creates), \<open>playAnimation\<close>, and the start of
  \<open>paintUserpicFrame\<close>, the autoplay check made on every paint.
\<close>

definition checkStreamedIsStarted :: "Photo \<Rightarrow> Photo" where
  "checkStreamedIsStarted p =
     (case streamed p of
        None \<Rightarrow> p
      | Some s \<Rightarrow>
          (let i1 = (if paused (instance_of s) then (instance_of s)\<lparr>paused := False\<rparr>
                     else instance_of s);
               i2 = (if \<not> active i1 \<and> \<not> failed i1 then i1\<lparr>active := True\<rparr> else i1)
           in p\<lparr>streamed := Some (s\<lparr>instance_of := i2\<rparr>)\<rparr>))"

definition createStreamingObjects :: "StreamingInstance \<Rightarrow> Photo \<Rightarrow> bool \<times> Photo" where
  "createStreamingObjects shared p =
     (let p1 = setStreamed (Some \<lparr>instance_of = shared, frozenFrame = None\<rparr>) p
      in if \<not> valid shared then (False, stopAnimation p1)
         else (True, checkStreamedIsStarted p1))"

definition ensureDataMediaCreated :: "PhotoMedia \<Rightarrow> Photo \<Rightarrow> Photo" where
  "ensureDataMediaCreated created p =
     (if dataMedia p \<noteq> None then p
      else p\<lparr>dataMedia := Some created, heavyRegistered := True\<rparr>)"

definition playAnimation ::
  "PhotoMedia \<Rightarrow> StreamingInstance \<Rightarrow> bool \<Rightarrow> bool \<Rightarrow> Photo \<Rightarrow> Photo" where
  "playAnimation created shared videoAutoplayEnabled autoplay p0 =
     (let p = ensureDataMediaCreated created p0
      in if streamed p \<noteq> None \<and> autoplay then p
         else if streamed p \<noteq> None \<and> videoAutoplayEnabled then p\<lparr>shownPhoto := True\<rparr>
         else if streamed p \<noteq> None then stopAnimation p
         else if videoCanBePlayed (photo_data p) then
           (case createStreamingObjects shared p of
              (False, p1) \<Rightarrow> p1\<lparr>photo_data := setVideoPlaybackFailed (photo_data p1)\<rparr>
            | (True, p1) \<Rightarrow> p1)
         else p)"

definition paintUserpicFrame_start ::
  "PhotoMedia \<Rightarrow> StreamingInstance \<Rightarrow> bool \<Rightarrow> Photo \<Rightarrow> Photo" where
  "paintUserpicFrame_start created shared videoAutoplayEnabled p =
     (let autoplay = (videoCanBePlayed (photo_data p) \<and> videoAutoplayEnabled);
          startPlay = (autoplay \<and> streamed p = None)
      in if startPlay then playAnimation created shared videoAutoplayEnabled True p
         else checkStreamedIsStarted p)"

definition brokenStream :: StreamingInstance where
  "brokenStream = \<lparr>valid = False, ready = False, paused = False, active = False, failed = True\<rparr>"

definition goodStream :: StreamingInstance where
  "goodStream = \<lparr>valid = True, ready = True, paused = False, active = False, failed = False\<rparr>"

definition videoPhoto :: Photo where
  "videoPhoto = \<lparr>photo_data = \<lparr>hasVideo = True, videoPlaybackFailed = False\<rparr>,
                  streamed = None, dataMedia = None, heavyRegistered = False,
                  shownPhoto = False\<rparr>"

section \<open>Voice message: seeking by the waveform\<close>

text \<open>
  The seek of a voice message in \<open>history_view_document.cpp\<close>: \<open>Document::textState\<close>
  records where the seek would start, \<open>Document::clickHandlerPressedChanged\<close> starts and
  stops it, \<open>Document::updatePressed\<close> follows the pointer.

  The two quotients are computed in \<open>float64\<close>. The model keeps the finite values as
  reals and gives the three results of a division by zero a constructor each. For integers
  \<open>0 \<le> a < b\<close> the rounded quotient lies between \<open>0\<close> and \<open>1\<close> as the exact one does,
  since rounding is monotone and both bounds are representable.
\<close>

type_synonym QPoint = "int \<times> int"

datatype float64 = Finite real | PosInf | NegInf | NaN

text \<open>\<open>a / float64(b)\<close> for integers \<open>a\<close> and \<open>b\<close>.\<close>

definition divide_double :: "int \<Rightarrow> int \<Rightarrow> float64" where
  "divide_double a b =
     (if b \<noteq> 0 then Finite (real_of_int a / real_of_int b)
      else if 0 < a then PosInf else if a < 0 then NegInf else NaN)"

text \<open>\<open>std::clamp(v, 0., 1.)\<close>, that is \<open>(v < 0.) ? 0. : (1. < v) ? 1. : v\<close>: both
  comparisons are false on a NaN, which is returned as it is.\<close>

definition clamp_unit :: "float64 \<Rightarrow> float64" where
  "clamp_unit v =
     (case v of
        Finite r \<Rightarrow> Finite (if r < 0 then 0 else if 1 < r then 1 else r)
      | PosInf \<Rightarrow> Finite 1
      | NegInf \<Rightarrow> Finite 0
      | NaN \<Rightarrow> NaN)"

text \<open>\<open>QRect(x, y, w, h).contains(p)\<close> of Qt: the rectangle spans \<open>x .. x + w - 1\<close> and
  \<open>y .. y + h - 1\<close>, and a side of negative length is read from its other end.\<close>

definition QRect_contains :: "int \<times> int \<times> int \<times> int \<Rightarrow> QPoint \<Rightarrow> bool" where
  "QRect_contains r p =
     (case r of (x, y, w, h) \<Rightarrow>
        (let x1 = x; x2 = x + w - 1; y1 = y; y2 = y + h - 1;
             l = (if x2 < x1 - 1 then x2 else x1);
             r' = (if x2 < x1 - 1 then x1 else x2);
             t = (if y2 < y1 - 1 then y2 else y1);
             b = (if y2 < y1 - 1 then y1 else y2)
         in \<not> (fst p < l \<or> r' < fst p) \<and> \<not> (snd p < t \<or> b < snd p)))"

text \<open>
  Modelled from the spec: the component \<open>HistoryDocumentVoice\<close>, declared in
  \<open>history_item_components.h\<close>, is not among the sources. The spec says that pressing
  inside the waveform starts a seek sub-state holding a locally computed proportion until
  the release. The record keeps the flag of that sub-state, the proportion recorded by
  \<open>textState\<close>, the proportion followed while seeking, and the size of the transcribe
  button when there is one.
\<close>

record HistoryDocumentVoice =
  seeking :: bool
  seekingStart :: float64
  seekingCurrent :: float64
  transcribe :: "QSize option"

text \<open>Modelled from the spec: \<open>HistoryDocumentVoice::startSeeking\<close>, absent from the
  sources; the seek starts at the recorded proportion.\<close>

definition startSeeking :: "HistoryDocumentVoice \<Rightarrow> HistoryDocumentVoice" where
  "startSeeking v = v\<lparr>seeking := True, seekingCurrent := seekingStart v\<rparr>"

text \<open>Modelled from the spec: \<open>HistoryDocumentVoice::stopSeeking\<close>, absent from the
  sources.\<close>

definition stopSeeking :: "HistoryDocumentVoice \<Rightarrow> HistoryDocumentVoice" where
  "stopSeeking v = v\<lparr>seeking := False\<rparr>"

text \<open>Modelled from the spec: the two setters of \<open>HistoryDocumentVoice\<close>, absent from the
  sources.\<close>

definition setSeekingStart :: "float64 \<Rightarrow> HistoryDocumentVoice \<Rightarrow> HistoryDocumentVoice" where
  "setSeekingStart x v = v\<lparr>seekingStart := x\<rparr>"

definition setSeekingCurrent :: "float64 \<Rightarrow> HistoryDocumentVoice \<Rightarrow> HistoryDocumentVoice" where
  "setSeekingCurrent x v = v\<lparr>seekingCurrent := x\<rparr>"

datatype LayoutMode = Full | Grouped

text \<open>The layout \<open>st\<close> of \<open>textState\<close> and the one of \<open>updatePressed\<close>, which takes the
  full layouts whatever the mode.\<close>

definition textStateLayout :: "DocumentStyle \<Rightarrow> LayoutMode \<Rightarrow> bool \<Rightarrow> FileLayout" where
  "textStateLayout st mode isThumbed =
     (if mode = Full then (if isThumbed then msgFileThumbLayout st else msgFileLayout st)
      else (if isThumbed then msgFileThumbLayoutGrouped st else msgFileLayoutGrouped st))"

definition updatePressedLayout :: "DocumentStyle \<Rightarrow> bool \<Rightarrow> FileLayout" where
  "updatePressedLayout st isThumbed =
     (if isThumbed then msgFileThumbLayout st else msgFileLayout st)"

definition nameLeft :: "FileLayout \<Rightarrow> int" where
  "nameLeft l = mleft (padding l) + thumbSize l + mright (padding l)"

definition nameRight :: "FileLayout \<Rightarrow> int" where
  "nameRight l = mleft (padding l)"

text \<open>\<open>namewidth\<close> of \<open>textState\<close> where the waveform is tested: the transcribe button,
  when there is one, takes its width and \<open>st::historyTranscribeSkip\<close>.\<close>

definition seekWidth :: "int \<Rightarrow> FileLayout \<Rightarrow> int \<Rightarrow> HistoryDocumentVoice \<Rightarrow> int" where
  "seekWidth historyTranscribeSkip l layoutWidth v =
     (let namewidth = layoutWidth - nameLeft l - nameRight l
      in case transcribe v of
           None \<Rightarrow> namewidth
         | Some buttonSize \<Rightarrow> namewidth - (historyTranscribeSkip + fst buttonSize))"

datatype VoiceHit = TranscribeLink | SeekLink | NoVoiceLink

text \<open>
  The voice branch of \<open>Document::textState\<close>, for an element with a voice component. The
  layout \<open>l\<close> is \<open>textStateLayout\<close> of the mode; \<open>playing\<close> says that the player's state is
  for this very message and is neither stopped nor stopping. The result is the link found
  and the component, whose start proportion is written when no seek is in progress.
  \<open>NoVoiceLink\<close> stands for the rest of the function.
\<close>

definition textState_voice ::
  "WaveformConsts \<Rightarrow> int \<Rightarrow> FileLayout \<Rightarrow> int \<Rightarrow> int \<Rightarrow> QPoint \<Rightarrow> bool
   \<Rightarrow> HistoryDocumentVoice \<Rightarrow> VoiceHit \<times> HistoryDocumentVoice" where
  "textState_voice wst historyTranscribeSkip l topMinus layoutWidth point playing v =
     (let nameleft = nameLeft l;
          nametop = nameTop l - topMinus;
          namewidth = seekWidth historyTranscribeSkip l layoutWidth v;
          waveformbottom = mtop (padding l) - topMinus + msgWaveformMax wst + msgWaveformMin wst;
          onTranscribe =
            (case transcribe v of
               None \<Rightarrow> False
             | Some buttonSize \<Rightarrow>
                 QRect_contains (nameleft + namewidth + historyTranscribeSkip,
                                 mtop (padding l) - topMinus,
                                 fst buttonSize, snd buttonSize) point)
      in if onTranscribe then (TranscribeLink, v)
         else if QRect_contains (nameleft, nametop, namewidth, waveformbottom - nametop) point
                 \<and> playing
         then (SeekLink,
               if \<not> seeking v
               then setSeekingStart (divide_double (fst point - nameleft) namewidth) v
               else v)
         else (NoVoiceLink, v))"

text \<open>The guard that opens \<open>Document::textState\<close>: below this width the function returns
  before it tests anything.\<close>

definition textState_tooNarrow :: "DocumentStyle \<Rightarrow> int \<Rightarrow> bool" where
  "textState_tooNarrow st layoutWidth \<longleftrightarrow>
     layoutWidth < mleft (msgPadding st) + mright (msgPadding st) + 1"

text \<open>\<open>Document::updatePressed\<close> on the voice component; \<open>elementWidth\<close> is \<open>width()\<close>.\<close>

definition updatePressed ::
  "DocumentStyle \<Rightarrow> bool \<Rightarrow> int \<Rightarrow> QPoint \<Rightarrow> HistoryDocumentVoice \<Rightarrow> HistoryDocumentVoice" where
  "updatePressed st isThumbed elementWidth point v =
     (if seeking v then
        (let l = updatePressedLayout st isThumbed;
             nameleft = nameLeft l;
             nameright = nameRight l
         in setSeekingCurrent
              (clamp_unit
                 (divide_double (fst point - nameleft) (elementWidth - nameleft - nameright)))
              v)
      else v)"

text \<open>The voice branch of \<open>Document::clickHandlerPressedChanged\<close>; \<open>isSeekLink\<close> is
  \<open>p == voice->_seekl\<close>. On release the proportion goes to the player, which is outside
  the model, and the seek stops.\<close>

definition clickHandlerPressedChanged ::
  "bool \<Rightarrow> bool \<Rightarrow> HistoryDocumentVoice \<Rightarrow> HistoryDocumentVoice" where
  "clickHandlerPressedChanged isSeekLink pressed v =
     (if pressed \<and> isSeekLink \<and> \<not> seeking v then startSeeking v
      else if \<not> pressed \<and> seeking v then stopSeeking v
      else v)"

text \<open>A proportion is a number of \<open>[0, 1]\<close>.\<close>

definition unit_interval :: "float64 \<Rightarrow> bool" where
  "unit_interval x = (case x of Finite r \<Rightarrow> 0 \<le> r \<and> r \<le> 1 | _ \<Rightarrow> False)"

text \<open>The invariant of the component: the recorded start is a proportion, and so is the
  current value while a seek is in progress.\<close>

definition voice_inv :: "HistoryDocumentVoice \<Rightarrow> bool" where
  "voice_inv v \<longleftrightarrow>
     unit_interval (seekingStart v) \<and> (seeking v \<longrightarrow> unit_interval (seekingCurrent v))"

definition voiceExample :: HistoryDocumentVoice where
  "voiceExample = \<lparr>seeking = False, seekingStart = Finite 0, seekingCurrent = Finite 0,
                    transcribe = None\<rparr>"

definition seekingExample :: HistoryDocumentVoice where
  "seekingExample = \<lparr>seeking = True, seekingStart = Finite (1 / 4),
                      seekingCurrent = Finite (1 / 4), transcribe = None\<rparr>"

chapter \<open>Properties\<close>

section \<open>Size for grouping\<close>

text \<open>
  C8, as stated, fails for the Document element: \<open>sizeForGrouping\<close> returns the element's
  own \<open>maxWidth()\<close> as the width, \<open>sizeForGroupingOptimal\<close> returns its argument. For an
  element whose \<open>maxWidth()\<close> is 300 and the width 200 the two pairs differ.
\<close>

theorem C8_document_sizes_differ:
  "Document_sizeForGrouping exampleStyle exampleDocument 200
     \<noteq> Document_sizeForGroupingOptimal exampleStyle exampleDocument 200"
  by (simp add: Document_sizeForGrouping_def Document_sizeForGroupingOptimal_def
      exampleDocument_def)

text \<open>
  C8, amended: for every Document element and every width \<open>w\<close> the two functions return the
  same height; the width of \<open>sizeForGroupingOptimal\<close> is \<open>w\<close> and the width of
  \<open>sizeForGrouping\<close> is the element's \<open>maxWidth()\<close>, so the two pairs are equal exactly
  when \<open>w = maxWidth()\<close>. For every Photo element the two functions return the same pair
  for every width.
\<close>

theorem C8_sizeForGrouping_amended:
  "snd (Document_sizeForGrouping st d w) = snd (Document_sizeForGroupingOptimal st d w)
   \<and> fst (Document_sizeForGroupingOptimal st d w) = w
   \<and> fst (Document_sizeForGrouping st d w) = maxWidth d
   \<and> (Document_sizeForGrouping st d w = Document_sizeForGroupingOptimal st d w
        \<longleftrightarrow> w = maxWidth d)
   \<and> Photo_sizeForGrouping p w = Photo_sizeForGroupingOptimal p w"
  by (auto simp: Document_sizeForGrouping_def Document_sizeForGroupingOptimal_def
      Photo_sizeForGrouping_def)

section \<open>Voice waveform painting\<close>

subsection \<open>The loop, one step at a time\<close>

lemma sample_in_range:
  assumes "case wform of None \<Rightarrow> True | Some xs \<Rightarrow> wfSize = int (length xs)"
    and "0 \<le> i" and "i < wfSize"
  shows "\<exists>v. sample wform i = Inr v"
  using assms by (auto simp: sample_def vector_at_def split: option.splits)

lemma waveformLoop_returns:
  assumes "case wform of None \<Rightarrow> True | Some xs \<Rightarrow> wfSize = int (length xs)"
    and "barNormValue \<noteq> 0" and "0 \<le> i"
  shows "\<exists>bars. waveformLoop st wform wfSize barCount barNormValue i barLeft summ maxValue
           = Inr bars"
  using assms
proof (induction st wform wfSize barCount barNormValue i barLeft summ maxValue
    rule: waveformLoop.induct)
  case (1 st wform wfSize barCount barNormValue i barLeft summ maxValue)
  show ?case
  proof (cases "i < wfSize")
    case False
    then show ?thesis by (simp add: waveformLoop.simps)
  next
    case True
    from sample_in_range [OF "1.prems"(1) "1.prems"(3) True]
    obtain v where v: "sample wform i = Inr v" by blast
    show ?thesis
    proof (cases "summ + barCount < wfSize")
      case less: True
      have "\<exists>bars. waveformLoop st wform wfSize barCount barNormValue (i + 1) barLeft
                (summ + barCount) (max maxValue v) = Inr bars"
        using "1.IH"(1) [OF True v less] "1.prems" by simp
      then show ?thesis
        using True v less by (subst waveformLoop.simps) simp
    next
      case geq: False
      define summ' where "summ' = summ + barCount - wfSize"
      define maxValue' where
        "maxValue' = (if summ' < (barCount + 1) sdiv 2 then max maxValue v else maxValue)"
      define maxDelta where "maxDelta = msgWaveformMax st - msgWaveformMin st"
      define barValue where
        "barValue = (maxValue' * maxDelta + barNormValue sdiv 2) sdiv barNormValue"
      have d: "int_divide (maxValue' * maxDelta + barNormValue sdiv 2) barNormValue
                 = Inr barValue"
        using "1.prems"(2) by (simp add: int_divide_def barValue_def)
      have "\<exists>bars. waveformLoop st wform wfSize barCount barNormValue (i + 1)
                (barLeft + (msgWaveformBar st + msgWaveformSkip st)) summ'
                (if summ' < (barCount + 1) sdiv 2 then 0 else v) = Inr bars"
        using "1.IH"(2) [OF True v geq summ'_def maxValue'_def maxDelta_def d] "1.prems"
        by simp
      then show ?thesis
        using True v geq d
        by (subst waveformLoop.simps)
          (auto simp: Let_def summ'_def maxValue'_def maxDelta_def)
    qed
  qed
qed


lemma waveformLoop_done:
  "\<not> i < wfSize \<Longrightarrow>
   waveformLoop st wform wfSize barCount barNormValue i barLeft summ maxValue = Inr []"
  by (simp add: waveformLoop.simps)

lemma waveformLoop_skip:
  "i < wfSize \<Longrightarrow> sample wform i = Inr v \<Longrightarrow> summ + barCount < wfSize \<Longrightarrow>
   waveformLoop st wform wfSize barCount barNormValue i barLeft summ maxValue
     = waveformLoop st wform wfSize barCount barNormValue (i + 1) barLeft (summ + barCount)
         (max maxValue v)"
  by (subst waveformLoop.simps) simp
lemma waveformLoop_draw:
  assumes "i < wfSize" and "sample wform i = Inr v" and "\<not> summ + barCount < wfSize"
    and "barNormValue \<noteq> 0"
    and "waveformLoop st wform wfSize barCount barNormValue (i + 1)
           (barLeft + (msgWaveformBar st + msgWaveformSkip st)) (summ + barCount - wfSize)
           (if summ + barCount - wfSize < (barCount + 1) sdiv 2 then 0 else v) = Inr bars"
  shows "waveformLoop st wform wfSize barCount barNormValue i barLeft summ maxValue
     = Inr (drawnBar st wfSize barCount barNormValue barLeft summ maxValue v # bars)"
  using assms by (subst waveformLoop.simps) (simp add: Let_def int_divide_def drawnBar_def)

lemma waveformLoop_count:
  assumes "case wform of None \<Rightarrow> True | Some xs \<Rightarrow> wfSize = int (length xs)"
    and "barNormValue \<noteq> 0" and "0 \<le> i" and "i \<le> wfSize"
    and "0 \<le> summ" and "summ < wfSize" and "0 \<le> barCount" and "barCount \<le> wfSize"
    and "waveformLoop st wform wfSize barCount barNormValue i barLeft summ maxValue = Inr bars"
  shows "int (length bars) = (summ + (wfSize - i) * barCount) div wfSize"
  using assms(3-6,9)
proof (induction "nat (wfSize - i)" arbitrary: i barLeft summ maxValue bars)
  case 0
  then have "i = wfSize" by simp
  with 0 show ?case by (simp add: waveformLoop_done)
next
  case (Suc n)
  then have lt: "i < wfSize" by simp
  from sample_in_range [OF assms(1) Suc.prems(1) lt]
  obtain v where v: "sample wform i = Inr v" by blast
  have n: "n = nat (wfSize - (i + 1))" using Suc.hyps(2) by simp
  show ?case
  proof (cases "summ + barCount < wfSize")
    case True
    have "int (length bars) = (summ + barCount + (wfSize - (i + 1)) * barCount) div wfSize"
      using Suc.hyps(1) [OF n, of "summ + barCount" barLeft "max maxValue v" bars]
        Suc.prems lt True assms(7) waveformLoop_skip [OF lt v True]
      by simp
    then show ?thesis by (simp add: algebra_simps)
  next
    case False
    obtain rest where rest: "waveformLoop st wform wfSize barCount barNormValue (i + 1)
           (barLeft + (msgWaveformBar st + msgWaveformSkip st)) (summ + barCount - wfSize)
           (if summ + barCount - wfSize < (barCount + 1) sdiv 2 then 0 else v) = Inr rest"
      using waveformLoop_returns [OF assms(1,2), of "i + 1"] Suc.prems(1) by force
    have "bars = drawnBar st wfSize barCount barNormValue barLeft summ maxValue v # rest"
      using waveformLoop_draw [OF lt v False assms(2) rest, of maxValue] Suc.prems(5)
      by simp
    then have len: "length bars = Suc (length rest)" by simp
    have "int (length rest)
            = (summ + barCount - wfSize + (wfSize - (i + 1)) * barCount) div wfSize"
      using Suc.hyps(1) [OF n _ _ _ _ rest] Suc.prems lt False assms(8) by simp
    also have "summ + barCount - wfSize + (wfSize - (i + 1)) * barCount
                 = (summ + (wfSize - i) * barCount) - wfSize"
      by (simp add: algebra_simps)
    also have "\<dots> div wfSize = (summ + (wfSize - i) * barCount) div wfSize - 1"
      using div_mult_self1 [of wfSize "summ + (wfSize - i) * barCount" "- 1"] lt Suc.prems(1)
      by simp
    finally show ?thesis using len by simp
  qed
qed

lemma waveformLoop_no_bars:
  assumes "case wform of None \<Rightarrow> True | Some xs \<Rightarrow> wfSize = int (length xs)"
    and "0 \<le> i" and "summ \<le> 0" and "barCount \<le> 0"
  shows "waveformLoop st wform wfSize barCount barNormValue i barLeft summ maxValue = Inr []"
  using assms(2,3)
proof (induction "nat (wfSize - i)" arbitrary: i summ maxValue)
  case 0
  then show ?case by (simp add: waveformLoop_done)
next
  case (Suc n)
  then have lt: "i < wfSize" by simp
  from sample_in_range [OF assms(1) Suc.prems(1) lt]
  obtain v where v: "sample wform i = Inr v" by blast
  have n: "n = nat (wfSize - (i + 1))" using Suc.hyps(2) by simp
  have less: "summ + barCount < wfSize" using lt Suc.prems assms(4) by simp
  show ?case
    using Suc.hyps(1) [OF n, of "summ + barCount" "max maxValue v"] Suc.prems assms(4)
    by (simp add: waveformLoop_skip [OF lt v less])
qed

subsection \<open>Buckets\<close>







lemma next_sum:
  fixes barCount wfSize summ i :: int
  assumes "0 \<le> barCount" and "barCount \<le> wfSize" and "0 < wfSize"
    and "summ = (i * barCount) mod wfSize"
  shows "(if summ + barCount < wfSize then summ + barCount else summ + barCount - wfSize)
           = ((i + 1) * barCount) mod wfSize"
proof -
  have range: "0 \<le> summ" "summ < wfSize" using assms by simp_all
  have "(i + 1) * barCount = i * barCount + barCount"
    by (simp add: algebra_simps)
  then have "((i + 1) * barCount) mod wfSize = (i * barCount + barCount) mod wfSize"
    by simp
  also have "\<dots> = (summ + barCount) mod wfSize"
    unfolding assms(4) by (simp only: mod_add_left_eq)
  also have "\<dots> = (if summ + barCount < wfSize then summ + barCount
                    else summ + barCount - wfSize)"
  proof (cases "summ + barCount < wfSize")
    case True
    then show ?thesis using range assms(1) by simp
  next
    case False
    have "(summ + barCount) mod wfSize = (summ + barCount - wfSize) mod wfSize"
      by simp
    also have "\<dots> = summ + barCount - wfSize"
      using False range assms(2) by (intro mod_pos_pos_trivial) linarith+
    finally show ?thesis using False by simp
  qed
  finally show ?thesis by simp
qed

lemma last_sum:
  fixes barCount wfSize summ :: int
  assumes "1 \<le> barCount" and "barCount \<le> wfSize"
    and "summ = ((wfSize - 1) * barCount) mod wfSize"
  shows "summ + barCount = wfSize"
proof -
  have "(wfSize - 1) * barCount = (barCount - 1) * wfSize + (wfSize - barCount)"
    by (simp add: algebra_simps)
  then have "((wfSize - 1) * barCount) mod wfSize
               = ((barCount - 1) * wfSize + (wfSize - barCount)) mod wfSize"
    by simp
  also have "\<dots> = (wfSize - barCount) mod wfSize"
    by (simp only: mod_mult_self3)
  also have "(wfSize - barCount) mod wfSize = wfSize - barCount"
    using assms(1,2) by (intro mod_pos_pos_trivial) linarith+
  finally show ?thesis using assms(3) by simp
qed






subsection \<open>The function\<close>

lemma usable_waveform_real:
  "waveform v \<noteq> [] \<Longrightarrow> 0 \<le> hd (waveform v) \<Longrightarrow> usable_waveform (Some v) = Inr (Some v)"
  by (cases "waveform v") (simp_all add: usable_waveform_def vector_at_def)

lemma usable_waveform_placeholder:
  "usesPlaceholder voiceData \<Longrightarrow> usable_waveform voiceData = Inr None"
  by (cases voiceData; cases "waveform (the voiceData)")
    (auto simp: usable_waveform_def usesPlaceholder_def vector_at_def)

lemma usable_waveform_cases:
  "usable_waveform voiceData = Inr (if usesPlaceholder voiceData then None else voiceData)"
  by (cases voiceData; cases "waveform (the voiceData)")
    (auto simp: usable_waveform_def usesPlaceholder_def vector_at_def)

lemma waveformLoop_zeros:
  assumes "0 \<le> i"
  shows "waveformLoop st (Some (replicate n 0)) (int n) barCount barNormValue i barLeft summ
           maxValue
         = waveformLoop st None (int n) barCount barNormValue i barLeft summ maxValue"
  using assms
proof (induction "nat (int n - i)" arbitrary: i barLeft summ maxValue)
  case 0
  then show ?case by (simp add: waveformLoop_done)
next
  case (Suc m)
  then have lt: "i < int n" by simp
  have m: "m = nat (int n - (i + 1))" using Suc.hyps(2) by simp
  have nonneg: "0 \<le> i + 1" using Suc.prems by simp
  have s1: "sample (Some (replicate n 0)) i = Inr 0"
    using lt Suc.prems by (simp add: sample_def vector_at_def)
  have s2: "sample None i = Inr 0" by (simp add: sample_def)
  show ?case
    using Suc.hyps(1) [OF m nonneg] s1 s2 lt
    by (subst (1 2) waveformLoop.simps) (simp add: Let_def cong: sum.case_cong)
qed


lemma PaintWaveform_real:
  assumes "msgWaveformBar st + msgWaveformSkip st \<noteq> 0"
    and "waveform v \<noteq> []" and "0 \<le> hd (waveform v)"
  shows "PaintWaveform st (Some v) availableWidth
           = waveformLoop st (Some (waveform v)) (int (length (waveform v)))
               (barCountOf st v availableWidth) (wavemax v + 1) 0 0 0 0"
  using assms
  by (simp add: PaintWaveform_def usable_waveform_real int_divide_def barCountOf_def Let_def)

lemma PaintWaveform_placeholder:
  assumes "msgWaveformBar st + msgWaveformSkip st \<noteq> 0" and "usesPlaceholder voiceData"
  shows "PaintWaveform st voiceData availableWidth
           = waveformLoop st None (kWaveformSamplesCount st)
               (min (availableWidth sdiv (msgWaveformBar st + msgWaveformSkip st))
                    (kWaveformSamplesCount st)) 1 0 0 0 0"
  using assms
  by (simp add: PaintWaveform_def usable_waveform_placeholder int_divide_def Let_def)

lemma PaintWaveform_of_placeholderVoice:
  assumes "msgWaveformBar st + msgWaveformSkip st \<noteq> 0"
  shows "PaintWaveform st (Some (placeholderVoice st)) availableWidth
           = waveformLoop st None (kWaveformSamplesCount st)
               (min (availableWidth sdiv (msgWaveformBar st + msgWaveformSkip st))
                    (kWaveformSamplesCount st)) 1 0 0 0 0"
proof (cases "0 < kWaveformSamplesCount st")
  case False
  then have "usesPlaceholder (Some (placeholderVoice st))"
    by (simp add: usesPlaceholder_def placeholderVoice_def)
  from PaintWaveform_placeholder [OF assms this] show ?thesis .
next
  case True
  define n where "n = nat (kWaveformSamplesCount st)"
  have k: "kWaveformSamplesCount st = int n" and n: "n \<noteq> 0" using True by (simp_all add: n_def)
  have wf: "waveform (placeholderVoice st) = replicate n 0"
    by (simp add: placeholderVoice_def n_def)
  have "waveform (placeholderVoice st) \<noteq> []" "0 \<le> hd (waveform (placeholderVoice st))"
    using n by (simp_all add: wf)
  from PaintWaveform_real [OF assms this]
  show ?thesis
    using waveformLoop_zeros [of 0 st n]
    by (simp add: wf k barCountOf_def placeholderVoice_def)
qed

lemma waveformLoop_in_range:
  assumes "case wform of None \<Rightarrow> True | Some xs \<Rightarrow> wfSize = int (length xs)"
    and "0 \<le> i"
  shows "waveformLoop st wform wfSize barCount barNormValue i barLeft summ maxValue
           \<noteq> Inl IndexOutOfRange"
  using assms
proof (induction st wform wfSize barCount barNormValue i barLeft summ maxValue
    rule: waveformLoop.induct)
  case (1 st wform wfSize barCount barNormValue i barLeft summ maxValue)
  show ?case
  proof (cases "i < wfSize")
    case False
    then show ?thesis by (simp add: waveformLoop.simps)
  next
    case True
    from sample_in_range [OF "1.prems"(1) "1.prems"(2) True]
    obtain v where v: "sample wform i = Inr v" by blast
    show ?thesis
    proof (cases "summ + barCount < wfSize")
      case less: True
      have "waveformLoop st wform wfSize barCount barNormValue (i + 1) barLeft
                (summ + barCount) (max maxValue v) \<noteq> Inl IndexOutOfRange"
        using "1.IH"(1) [OF True v less] "1.prems" by simp
      then show ?thesis
        by (simp add: waveformLoop_skip [OF True v less])
    next
      case geq: False
      define summ' where "summ' = summ + barCount - wfSize"
      define maxValue' where
        "maxValue' = (if summ' < (barCount + 1) sdiv 2 then max maxValue v else maxValue)"
      define maxDelta where "maxDelta = msgWaveformMax st - msgWaveformMin st"
      show ?thesis
      proof (cases "barNormValue = 0")
        case True
        then show ?thesis
          using \<open>i < wfSize\<close> v geq
          by (subst waveformLoop.simps) (simp add: Let_def int_divide_def)
      next
        case False
        define barValue where
          "barValue = (maxValue' * maxDelta + barNormValue sdiv 2) sdiv barNormValue"
        have d: "int_divide (maxValue' * maxDelta + barNormValue sdiv 2) barNormValue
                   = Inr barValue"
          using False by (simp add: int_divide_def barValue_def)
        have "waveformLoop st wform wfSize barCount barNormValue (i + 1)
                  (barLeft + (msgWaveformBar st + msgWaveformSkip st)) summ'
                  (if summ' < (barCount + 1) sdiv 2 then 0 else v) \<noteq> Inl IndexOutOfRange"
          using "1.IH"(2) [OF True v geq summ'_def maxValue'_def maxDelta_def d] "1.prems"
          by simp
        then show ?thesis
          using True v geq d
          by (subst waveformLoop.simps)
            (auto simp: Let_def summ'_def maxValue'_def maxDelta_def split: sum.splits)
      qed
    qed
  qed
qed

lemma waveformLoop_divides_by_zero:
  assumes "case wform of None \<Rightarrow> True | Some xs \<Rightarrow> wfSize = int (length xs)"
    and "1 \<le> barCount" and "barCount \<le> wfSize"
    and "0 \<le> i" and "i < wfSize" and "summ = (i * barCount) mod wfSize"
  shows "waveformLoop st wform wfSize barCount 0 i barLeft summ maxValue = Inl DivisionByZero"
  using assms(4-6)
proof (induction "nat (wfSize - i)" arbitrary: i summ maxValue)
  case 0
  then show ?case by simp
next
  case (Suc n)
  from sample_in_range [OF assms(1) Suc.prems(1,2)]
  obtain v where v: "sample wform i = Inr v" by blast
  have n: "n = nat (wfSize - (i + 1))" using Suc.hyps(2) by simp
  have pos: "0 < wfSize" using Suc.prems by simp
  show ?case
  proof (cases "summ + barCount < wfSize")
    case True
    have "i \<noteq> wfSize - 1"
      using last_sum [OF assms(2,3), of summ] Suc.prems(3) True by auto
    then have lt: "i + 1 < wfSize" using Suc.prems(2) by simp
    have "summ + barCount = ((i + 1) * barCount) mod wfSize"
      using next_sum [OF _ assms(3) pos Suc.prems(3)] assms(2) True by simp
    from Suc.hyps(1) [OF n _ lt this] Suc.prems(1)
    show ?thesis by (simp add: waveformLoop_skip [OF Suc.prems(2) v True])
  next
    case False
    then show ?thesis
      using Suc.prems(2) v
      by (subst waveformLoop.simps) (simp add: Let_def int_divide_def)
  qed
qed

lemma waveformLoop_placeholder_shape:
  assumes "waveformLoop st None wfSize barCount 1 i barLeft summ 0 = Inr bars"
  shows "bars = map (\<lambda>k. \<lparr>bar_left = barLeft
                                + int k * (msgWaveformBar st + msgWaveformSkip st),
                            bar_max = 0, bar_value = 0, bar_height = msgWaveformMin st\<rparr>)
                  [0..<length bars]"
  using assms
proof (induction "nat (wfSize - i)" arbitrary: i barLeft summ bars)
  case 0
  then show ?case by (simp add: waveformLoop_done)
next
  case (Suc n)
  then have lt: "i < wfSize" by simp
  have v: "sample None i = Inr 0" by (simp add: sample_def)
  have n: "n = nat (wfSize - (i + 1))" using Suc.hyps(2) by simp
  let ?step = "msgWaveformBar st + msgWaveformSkip st"
  show ?case
  proof (cases "summ + barCount < wfSize")
    case True
    from Suc.prems have "waveformLoop st None wfSize barCount 1 (i + 1) barLeft
        (summ + barCount) 0 = Inr bars"
      by (simp add: waveformLoop_skip [OF lt v True])
    from Suc.hyps(1) [OF n this] show ?thesis .
  next
    case False
    obtain rest where rest: "waveformLoop st None wfSize barCount 1 (i + 1)
        (barLeft + ?step) (summ + barCount - wfSize) 0 = Inr rest"
      and bars: "bars = \<lparr>bar_left = barLeft, bar_max = 0, bar_value = 0,
                         bar_height = msgWaveformMin st\<rparr> # rest"
      using Suc.prems lt v False
      by (subst (asm) waveformLoop.simps)
        (auto simp: Let_def int_divide_def signed_divide_int_def split: sum.splits)
    have r: "rest = map (\<lambda>k. \<lparr>bar_left = barLeft + ?step + int k * ?step,
                            bar_max = 0, bar_value = 0, bar_height = msgWaveformMin st\<rparr>)
                  [0..<length rest]"
      using Suc.hyps(1) [OF n rest] .
    have "map (\<lambda>k. \<lparr>bar_left = barLeft + int k * ?step, bar_max = 0, bar_value = 0,
                     bar_height = msgWaveformMin st\<rparr>) [0..<Suc (length rest)]
          = \<lparr>bar_left = barLeft, bar_max = 0, bar_value = 0,
               bar_height = msgWaveformMin st\<rparr>
            # map (\<lambda>k. \<lparr>bar_left = barLeft + ?step + int k * ?step,
                            bar_max = 0, bar_value = 0, bar_height = msgWaveformMin st\<rparr>)
                  [0..<length rest]"
      by (simp add: upt_conv_Cons map_Suc_upt [symmetric] algebra_simps del: upt_Suc)
    then show ?thesis using r bars by simp
  qed
qed

lemma PaintWaveform_zero_step:
  "msgWaveformBar st + msgWaveformSkip st = 0 \<Longrightarrow>
   PaintWaveform st voiceData availableWidth = Inl DivisionByZero"
  by (simp add: PaintWaveform_def usable_waveform_cases int_divide_def)

lemma waveformLoop_placeholder_bars:
  "waveformLoop st None wfSize (min perWidth wfSize) 1 0 0 0 0
     = Inr (map (\<lambda>k. \<lparr>bar_left = int k * (msgWaveformBar st + msgWaveformSkip st),
                         bar_max = 0, bar_value = 0, bar_height = msgWaveformMin st\<rparr>)
              [0..<nat (min perWidth wfSize)])"
proof (cases "1 \<le> min perWidth wfSize")
  case False
  then have le: "min perWidth wfSize \<le> 0" by linarith
  have "waveformLoop st None wfSize (min perWidth wfSize) 1 0 0 0 0 = Inr []"
    using le by (intro waveformLoop_no_bars) simp_all
  then show ?thesis using le by simp
next
  case True
  obtain bars where bars: "waveformLoop st None wfSize (min perWidth wfSize) 1 0 0 0 0
      = Inr bars"
    using waveformLoop_returns [where wform = None and wfSize = wfSize and barNormValue = 1
        and i = 0 and st = st and barCount = "min perWidth wfSize" and barLeft = 0
        and summ = 0 and maxValue = 0]
    by auto
  have "int (length bars) = (0 + (wfSize - 0) * min perWidth wfSize) div wfSize"
    using True by (intro waveformLoop_count [OF _ _ _ _ _ _ _ _ bars]) simp_all
  then have "length bars = nat (min perWidth wfSize)"
    using True by simp
  then show ?thesis
    using waveformLoop_placeholder_shape [OF bars] bars by simp
qed

text \<open>
  C10, as stated, fails: the function is not total over its inputs. For voice data with
  the one-sample waveform \<open>[5]\<close> and \<open>wavemax = -1\<close>, \<open>barNormValue\<close> is zero and the
  first bar drawn divides by it. The function also divides by
  \<open>msgWaveformBar + msgWaveformSkip\<close> before the loop, whatever the voice data.
\<close>

theorem C10_PaintWaveform_counterexample:
  "PaintWaveform st0 (Some \<lparr>waveform = [5], wavemax = - 1\<rparr>) 9 = Inl DivisionByZero
   \<and> PaintWaveform (st0\<lparr>msgWaveformBar := 0, msgWaveformSkip := 0\<rparr>) None 9
       = Inl DivisionByZero"
  by code_simp

text \<open>
  C10, amended. For every input, \<open>PaintWaveform\<close> reads no sample outside the waveform.
  It returns, with the bars drawn, exactly when \<open>msgWaveformBar + msgWaveformSkip\<close> is
  not zero and the voice data is not a usable waveform that has room for a bar and
  \<open>wavemax = -1\<close>; in the remaining cases it divides by zero. When the voice data is
  absent, the waveform is empty or its first sample is negative, it draws the
  placeholder, whatever the data hold: \<open>min (availableWidth / (bar + skip))
  kWaveformSamplesCount\<close> bars of value zero and height \<open>msgWaveformMin\<close>, one every
  \<open>bar + skip\<close>, which is what it draws for a waveform of \<open>kWaveformSamplesCount\<close>
  samples of value zero.
\<close>

theorem C10_PaintWaveform_amended:
  "PaintWaveform st voiceData availableWidth \<noteq> Inl IndexOutOfRange
   \<and> ((\<exists>bars. PaintWaveform st voiceData availableWidth = Inr bars)
        \<longleftrightarrow> msgWaveformBar st + msgWaveformSkip st \<noteq> 0
             \<and> (case voiceData of
                   None \<Rightarrow> True
                 | Some v \<Rightarrow> usesPlaceholder voiceData \<or> barCountOf st v availableWidth < 1
                              \<or> wavemax v \<noteq> - 1))
   \<and> (usesPlaceholder voiceData \<and> msgWaveformBar st + msgWaveformSkip st \<noteq> 0 \<longrightarrow>
        PaintWaveform st voiceData availableWidth
          = Inr (map (\<lambda>k. \<lparr>bar_left = int k * (msgWaveformBar st + msgWaveformSkip st),
                              bar_max = 0, bar_value = 0, bar_height = msgWaveformMin st\<rparr>)
                   [0..<nat (min (availableWidth sdiv (msgWaveformBar st + msgWaveformSkip st))
                                 (kWaveformSamplesCount st))])
        \<and> PaintWaveform st voiceData availableWidth
            = PaintWaveform st (Some (placeholderVoice st)) availableWidth)"
proof (cases "msgWaveformBar st + msgWaveformSkip st = 0")
  case True
  then show ?thesis by (simp add: PaintWaveform_zero_step)
next
  case step: False
  show ?thesis
  proof (cases "usesPlaceholder voiceData")
    case True
    have "case voiceData of None \<Rightarrow> True
          | Some v \<Rightarrow> usesPlaceholder voiceData \<or> barCountOf st v availableWidth < 1
                       \<or> wavemax v \<noteq> - 1"
      using True by (auto split: option.splits)
    then show ?thesis
      using True step
      by (simp add: PaintWaveform_placeholder [OF step True]
          PaintWaveform_of_placeholderVoice [OF step] waveformLoop_placeholder_bars)
  next
    case False
    then obtain v where v: "voiceData = Some v" "waveform v \<noteq> []" "0 \<le> hd (waveform v)"
      by (auto simp: usesPlaceholder_def split: option.splits)
    let ?n = "int (length (waveform v))"
    let ?loop = "waveformLoop st (Some (waveform v)) ?n (barCountOf st v availableWidth)
                   (wavemax v + 1) 0 0 0 0"
    have eq: "PaintWaveform st voiceData availableWidth = ?loop"
      using PaintWaveform_real [OF step v(2,3)] v(1) by simp
    have range: "?loop \<noteq> Inl IndexOutOfRange"
      by (rule waveformLoop_in_range) simp_all
    have total: "(\<exists>bars. ?loop = Inr bars)
                  \<longleftrightarrow> barCountOf st v availableWidth < 1 \<or> wavemax v \<noteq> - 1"
    proof (cases "barCountOf st v availableWidth < 1")
      case True
      then have "?loop = Inr []" by (intro waveformLoop_no_bars) simp_all
      then show ?thesis using True by simp
    next
      case many: False
      show ?thesis
      proof (cases "wavemax v = - 1")
        case True
        have "waveformLoop st (Some (waveform v)) ?n (barCountOf st v availableWidth) 0
                0 0 0 0 = Inl DivisionByZero"
        proof (intro waveformLoop_divides_by_zero)
          show "1 \<le> barCountOf st v availableWidth" using many by simp
          show "barCountOf st v availableWidth \<le> ?n" by (simp add: barCountOf_def)
          show "0 < ?n" using v(2) by simp
        qed simp_all
        then show ?thesis using True many by simp
      next
        case False
        then have "\<exists>bars. ?loop = Inr bars"
          by (intro waveformLoop_returns) simp_all
        then show ?thesis using False by simp
      qed
    qed
    show ?thesis
      using False step range total unfolding eq by (simp add: v(1))
  qed
qed

text \<open>The theorem at a waveform whose first sample is negative, with room for three
  bars, and at a waveform of seven samples.\<close>

theorem C10_PaintWaveform_witness:
  "usesPlaceholder (Some \<lparr>waveform = [- 1, 3], wavemax = 3\<rparr>)
   \<and> msgWaveformBar st0 + msgWaveformSkip st0 \<noteq> 0
   \<and> PaintWaveform st0 (Some \<lparr>waveform = [- 1, 3], wavemax = 3\<rparr>) 9
       = Inr [\<lparr>bar_left = 0, bar_max = 0, bar_value = 0, bar_height = 3\<rparr>,
              \<lparr>bar_left = 3, bar_max = 0, bar_value = 0, bar_height = 3\<rparr>,
              \<lparr>bar_left = 6, bar_max = 0, bar_value = 0, bar_height = 3\<rparr>]
   \<and> PaintWaveform st0 (Some \<lparr>waveform = [- 1, 3], wavemax = 3\<rparr>) 9
       = PaintWaveform st0 (Some (placeholderVoice st0)) 9
   \<and> barCountOf st0 v1 10 = 3
   \<and> (\<exists>bars. PaintWaveform st0 (Some v1) 10 = Inr bars)"
proof -
  have h1: "msgWaveformBar st0 + msgWaveformSkip st0 \<noteq> 0" by (simp add: st0_def)
  have h2: "usesPlaceholder (Some \<lparr>waveform = [- 1, 3], wavemax = 3\<rparr>)"
    by (simp add: usesPlaceholder_def)
  have n: "nat (min (9 sdiv (msgWaveformBar st0 + msgWaveformSkip st0))
                    (kWaveformSamplesCount st0)) = 3"
    by code_simp
  have u: "[0..<3] = [0, 1, 2]" by (simp add: upt_conv_Cons)
  have m: "msgWaveformBar st0 + msgWaveformSkip st0 = 3" "msgWaveformMin st0 = 3"
    by (simp_all add: st0_def)
  note t = C10_PaintWaveform_amended [of st0 "Some \<lparr>waveform = [- 1, 3], wavemax = 3\<rparr>" 9]
  have 1: "PaintWaveform st0 (Some \<lparr>waveform = [- 1, 3], wavemax = 3\<rparr>) 9
       = Inr [\<lparr>bar_left = 0, bar_max = 0, bar_value = 0, bar_height = 3\<rparr>,
              \<lparr>bar_left = 3, bar_max = 0, bar_value = 0, bar_height = 3\<rparr>,
              \<lparr>bar_left = 6, bar_max = 0, bar_value = 0, bar_height = 3\<rparr>]"
    using t h1 h2 unfolding n u by (simp add: m)
  have 2: "PaintWaveform st0 (Some \<lparr>waveform = [- 1, 3], wavemax = 3\<rparr>) 9
       = PaintWaveform st0 (Some (placeholderVoice st0)) 9"
    using t h1 h2 by blast
  have bc: "barCountOf st0 v1 10 = 3" by code_simp
  have w: "wavemax v1 \<noteq> - 1" by (simp add: v1_def)
  have 3: "\<exists>bars. PaintWaveform st0 (Some v1) 10 = Inr bars"
    using C10_PaintWaveform_amended [of st0 "Some v1" 10] h1 w by simp
  show ?thesis using h1 h2 1 2 bc 3 by simp
qed




section \<open>Sticker footer: scroll offsets\<close>

lemma qRound_of_int [simp]: "qRound (real_of_int n) = n"
  by (simp add: qRound_def)

lemma std_clamp_bounds:
  "0 \<le> hi \<Longrightarrow> 0 \<le> std_clamp v 0 hi \<and> std_clamp v 0 hi \<le> hi"
  by (simp add: std_clamp_def)

lemma std_clamp_above: "0 \<le> hi \<Longrightarrow> hi < v \<Longrightarrow> std_clamp v 0 hi = hi"
  by (simp add: std_clamp_def)

lemma std_clamp_below: "v < 0 \<Longrightarrow> std_clamp v 0 hi = 0"
  by (simp add: std_clamp_def)

lemma scrollOffset_setScrollX [simp]: "scrollOffset (setScrollX newX s) = newX"
  by (simp add: setScrollX_def scrollOffset_def anim_value_of_def)

lemma max_value_setScrollX [simp]: "max_value (setScrollX newX s) = max_value s"
  by (simp add: setScrollX_def)

lemma in_bounds_setScrollX:
  "0 \<le> newX \<Longrightarrow> newX \<le> max_value s \<Longrightarrow> in_bounds s \<Longrightarrow> in_bounds (setScrollX newX s)"
  by (simp add: setScrollX_def in_bounds_def anim_value_of_def)

lemma finishDragging_state_props:
  assumes "0 \<le> max_value s" and "dragging s"
  shows "fst (finishDragging_state down pos s)"
    and "max_value (snd (finishDragging_state down pos s)) = max_value s"
    and "scrollOffset (snd (finishDragging_state down pos s))
           = std_clamp (draggingStartX s + down - pos) 0 (max_value s)"
    and "offset_bounded (snd (finishDragging_state down pos s))"
    and "in_bounds s \<Longrightarrow> in_bounds (snd (finishDragging_state down pos s))"
    and "\<not> dragging (snd (finishDragging_state down pos s))"
proof -
  let ?n = "std_clamp (draggingStartX s + down - pos) 0 (max_value s)"
  have eq: "snd (finishDragging_state down pos s) = (setScrollX ?n s)\<lparr>dragging := False\<rparr>"
    using assms(2) by (simp add: finishDragging_state_def)
  have off: "scrollOffset ((setScrollX ?n s)\<lparr>dragging := False\<rparr>) = ?n"
    using scrollOffset_setScrollX [of ?n s] by (simp add: scrollOffset_def)
  show "fst (finishDragging_state down pos s)"
    using assms(2) by (simp add: finishDragging_state_def)
  show "max_value (snd (finishDragging_state down pos s)) = max_value s"
    by (simp add: eq)
  show "scrollOffset (snd (finishDragging_state down pos s)) = ?n"
    by (simp only: eq off)
  show "offset_bounded (snd (finishDragging_state down pos s))"
    using std_clamp_bounds [OF assms(1)] off by (simp add: eq offset_bounded_def)
  show "in_bounds (snd (finishDragging_state down pos s))" if "in_bounds s"
    using in_bounds_setScrollX [of ?n s] std_clamp_bounds [OF assms(1)] that
    by (simp add: eq in_bounds_def)
  show "\<not> dragging (snd (finishDragging_state down pos s))"
    by (simp add: eq)
qed

lemma checkDragging_props:
  assumes "0 \<le> max_value s" and "dragging s"
  shows "max_value (checkDragging rtl down pos s) = max_value s"
    and "scrollOffset (checkDragging rtl down pos s)
           = std_clamp ((if rtl then - 1 else 1) * (down - pos) + draggingStartX s) 0
               (max_value s)"
    and "offset_bounded (checkDragging rtl down pos s)"
    and "in_bounds s \<Longrightarrow> in_bounds (checkDragging rtl down pos s)"
proof -
  let ?n = "std_clamp ((if rtl then - 1 else 1) * (down - pos) + draggingStartX s) 0
              (max_value s)"
  have eq: "checkDragging rtl down pos s = setScrollX ?n s"
    using assms(2) by (simp add: checkDragging_def)
  show "max_value (checkDragging rtl down pos s) = max_value s"
    by (simp add: eq)
  show "scrollOffset (checkDragging rtl down pos s) = ?n"
    by (simp only: eq scrollOffset_setScrollX)
  show "offset_bounded (checkDragging rtl down pos s)"
    using std_clamp_bounds [OF assms(1)] by (simp add: eq offset_bounded_def)
  show "in_bounds (checkDragging rtl down pos s)" if "in_bounds s"
    using in_bounds_setScrollX [of ?n s] std_clamp_bounds [OF assms(1)] that
    by (simp add: eq)
qed

lemma wheel_use_props:
  assumes "0 \<le> max_value s"
  shows "max_value (snd (wheel_use delta s)) = max_value s"
    and "scrollOffset (snd (wheel_use delta s))
           = std_clamp (scrollOffset s - delta) 0 (max_value s)"
    and "offset_bounded (snd (wheel_use delta s))"
    and "in_bounds s \<Longrightarrow> in_bounds (snd (wheel_use delta s))"
    and "fst (wheel_use delta s)
           = scrollOffset (snd (wheel_use delta s)) - (scrollOffset s - delta)"
proof -
  let ?n = "std_clamp (scrollOffset s - delta) 0 (max_value s)"
  have eq: "snd (wheel_use delta s) = setScrollX ?n s"
    by (simp add: wheel_use_def Let_def scrollOffset_def)
  show "max_value (snd (wheel_use delta s)) = max_value s"
    by (simp add: eq)
  show off: "scrollOffset (snd (wheel_use delta s)) = ?n"
    by (simp only: eq scrollOffset_setScrollX)
  show "offset_bounded (snd (wheel_use delta s))"
    using std_clamp_bounds [OF assms(1)] by (simp add: eq offset_bounded_def)
  show "in_bounds (snd (wheel_use delta s))" if "in_bounds s"
    using in_bounds_setScrollX [of ?n s] std_clamp_bounds [OF assms(1)] that
    by (simp add: eq)
  show "fst (wheel_use delta s)
          = scrollOffset (snd (wheel_use delta s)) - (scrollOffset s - delta)"
    unfolding off by (simp add: wheel_use_def Let_def scrollOffset_def)
qed

lemma animationCallback_idle:
  "animationStart s = 0 \<Longrightarrow> animationCallback d m now s = Some (False, s)"
  by (simp add: animationCallback_def)

lemma animationCallback_finish:
  assumes "animationStart s \<noteq> 0" and "m \<noteq> 0" and "1 \<le> elapsed d m now s"
  shows "animationCallback d m now s
           = Some (False, s\<lparr>animationStart := 0,
                            x_value := anim_finish (x_value s),
                            selectionX := anim_finish (selectionX s),
                            selectionWidth := anim_finish (selectionWidth s)\<rparr>)"
  using assms by (simp add: animationCallback_def elapsed_def Let_def)

lemma animationCallback_update:
  assumes "animationStart s \<noteq> 0" and "m \<noteq> 0" and "elapsed d m now s < 1"
  shows "animationCallback d m now s
           = Some (True, s\<lparr>x_value := anim_update (elapsed d m now s) linear (x_value s),
                           selectionX :=
                             anim_update (elapsed d m now s) easeOutCubic (selectionX s),
                           selectionWidth :=
                             anim_update (elapsed d m now s) easeOutCubic (selectionWidth s)\<rparr>)"
  using assms by (simp add: animationCallback_def elapsed_def Let_def)

lemma current_anim_finish [simp]: "a_current (anim_finish v) = a_to v"
  by (simp add: anim_finish_def)

lemma to_anim_finish [simp]: "a_to (anim_finish v) = a_to v"
  by (simp add: anim_finish_def)

lemma current_anim_update_linear:
  "a_current (anim_update dt linear v) = a_from v + (a_to v - a_from v) * dt"
  by (simp add: anim_update_def transition_apply_def)

lemma current_anim_update_cubic:
  "a_current (anim_update dt easeOutCubic v)
     = a_from v + (a_to v - a_from v) * (1 - (1 - dt) ^ 3)"
  by (simp add: anim_update_def transition_apply_def power3_eq_cube algebra_simps)

lemma to_anim_update [simp]: "a_to (anim_update dt tr v) = a_to v"
  by (simp add: anim_update_def)

text \<open>
  C7, as stated, fails in two cases. With animations disabled the callback first adds the
  duration to \<open>now\<close>: at \<open>now = 1050\<close>, \<open>animationStart = 1000\<close> and a duration of \<open>200\<close>
  the quotient of the claim is \<open>1/4\<close>, yet the callback finishes the three values and
  returns false. With \<open>animationStart = 0\<close> the callback returns false and changes
  nothing: at \<open>now = 5000\<close> the quotient of the claim is at least \<open>1\<close>, yet the selection
  offset stays at \<open>4\<close>, not at its target \<open>10\<close>.
\<close>

theorem C7_animationCallback_counterexample:
  "real_of_int (1050 - animationStart scrollExample) / real_of_int 200 < 1
   \<and> animationCallback True 200 1050 scrollExample
       = Some (False, scrollExample
            \<lparr>animationStart := 0,
             x_value := \<lparr>a_from = 100, a_to = 100, a_current = 100\<rparr>,
             selectionX := \<lparr>a_from = 10, a_to = 10, a_current = 10\<rparr>,
             selectionWidth := \<lparr>a_from = 40, a_to = 40, a_current = 40\<rparr>\<rparr>)
   \<and> real_of_int (5000 - animationStart (scrollExample\<lparr>animationStart := 0\<rparr>))
         / real_of_int 200 \<ge> 1
   \<and> animationCallback False 200 5000 (scrollExample\<lparr>animationStart := 0\<rparr>)
       = Some (False, scrollExample\<lparr>animationStart := 0\<rparr>)
   \<and> a_current (selectionX (scrollExample\<lparr>animationStart := 0\<rparr>))
       \<noteq> a_to (selectionX (scrollExample\<lparr>animationStart := 0\<rparr>))"
  by (simp add: scrollExample_def animationCallback_def anim_finish_def)

text \<open>
  C7, amended: on each tick at time \<open>now\<close>, the callback adds the duration to \<open>now\<close> when
  animations are disabled; if \<open>animationStart\<close> is zero it returns false and changes
  nothing; otherwise it computes \<open>dt = (now - animationStart) / duration\<close>, and if
  \<open>dt \<ge> 1\<close> it resets \<open>animationStart\<close>, sets the position, the selection offset and
  the selection width to their targets and returns false, else it updates the position
  with linear easing and the selection offset and width with ease-out-cubic easing,
  keeps the targets and returns true. (The duration is not zero.)
\<close>

theorem C7_animationCallback_amended:
  assumes "stickerIconMove \<noteq> 0"
  shows "(animationStart s = 0 \<longrightarrow>
            animationCallback animDisabled stickerIconMove now s = Some (False, s))
       \<and> (animationStart s \<noteq> 0 \<and> 1 \<le> elapsed animDisabled stickerIconMove now s \<longrightarrow>
            (\<exists>s'. animationCallback animDisabled stickerIconMove now s = Some (False, s')
                \<and> animationStart s' = 0
                \<and> a_current (x_value s') = a_to (x_value s)
                \<and> a_current (selectionX s') = a_to (selectionX s)
                \<and> a_current (selectionWidth s') = a_to (selectionWidth s)))
       \<and> (animationStart s \<noteq> 0 \<and> elapsed animDisabled stickerIconMove now s < 1 \<longrightarrow>
            (\<exists>s'. animationCallback animDisabled stickerIconMove now s = Some (True, s')
                \<and> animationStart s' = animationStart s
                \<and> a_current (x_value s')
                    = a_from (x_value s) + (a_to (x_value s) - a_from (x_value s))
                        * elapsed animDisabled stickerIconMove now s
                \<and> a_current (selectionX s')
                    = a_from (selectionX s) + (a_to (selectionX s) - a_from (selectionX s))
                        * (1 - (1 - elapsed animDisabled stickerIconMove now s) ^ 3)
                \<and> a_current (selectionWidth s')
                    = a_from (selectionWidth s)
                        + (a_to (selectionWidth s) - a_from (selectionWidth s))
                            * (1 - (1 - elapsed animDisabled stickerIconMove now s) ^ 3)
                \<and> a_to (x_value s') = a_to (x_value s)
                \<and> a_to (selectionX s') = a_to (selectionX s)
                \<and> a_to (selectionWidth s') = a_to (selectionWidth s)))"
proof (intro conjI impI)
  show "animationCallback animDisabled stickerIconMove now s = Some (False, s)"
    if "animationStart s = 0"
    using that by (rule animationCallback_idle)
next
  assume a: "animationStart s \<noteq> 0 \<and> 1 \<le> elapsed animDisabled stickerIconMove now s"
  show "\<exists>s'. animationCallback animDisabled stickerIconMove now s = Some (False, s')
          \<and> animationStart s' = 0
          \<and> a_current (x_value s') = a_to (x_value s)
          \<and> a_current (selectionX s') = a_to (selectionX s)
          \<and> a_current (selectionWidth s') = a_to (selectionWidth s)"
    using a assms by (simp add: animationCallback_finish)
next
  assume a: "animationStart s \<noteq> 0 \<and> elapsed animDisabled stickerIconMove now s < 1"
  then have "animationCallback animDisabled stickerIconMove now s
      = Some (True, s\<lparr>x_value :=
                        anim_update (elapsed animDisabled stickerIconMove now s) linear
                          (x_value s),
                      selectionX :=
                        anim_update (elapsed animDisabled stickerIconMove now s) easeOutCubic
                          (selectionX s),
                      selectionWidth :=
                        anim_update (elapsed animDisabled stickerIconMove now s) easeOutCubic
                          (selectionWidth s)\<rparr>)"
    using assms by (intro animationCallback_update) simp_all
  then show "\<exists>s'. animationCallback animDisabled stickerIconMove now s = Some (True, s')
      \<and> animationStart s' = animationStart s
      \<and> a_current (x_value s')
          = a_from (x_value s) + (a_to (x_value s) - a_from (x_value s))
              * elapsed animDisabled stickerIconMove now s
      \<and> a_current (selectionX s')
          = a_from (selectionX s) + (a_to (selectionX s) - a_from (selectionX s))
              * (1 - (1 - elapsed animDisabled stickerIconMove now s) ^ 3)
      \<and> a_current (selectionWidth s')
          = a_from (selectionWidth s)
              + (a_to (selectionWidth s) - a_from (selectionWidth s))
                  * (1 - (1 - elapsed animDisabled stickerIconMove now s) ^ 3)
      \<and> a_to (x_value s') = a_to (x_value s)
      \<and> a_to (selectionX s') = a_to (selectionX s)
      \<and> a_to (selectionWidth s') = a_to (selectionWidth s)"
    by (simp add: current_anim_update_linear current_anim_update_cubic)
qed

text \<open>The theorem a quarter into an animation and after its end.\<close>

theorem C7_animationCallback_witness:
  "(200 :: int) \<noteq> 0
   \<and> animationStart scrollExample \<noteq> 0
   \<and> elapsed False 200 1050 scrollExample = 1 / 4
   \<and> 1 \<le> elapsed False 200 1300 scrollExample
   \<and> (\<exists>s'. animationCallback False 200 1050 scrollExample = Some (True, s')
         \<and> a_current (x_value s') = 25
         \<and> a_current (selectionX s') = 10 * (1 - (3 / 4) ^ 3))
   \<and> (\<exists>s'. animationCallback False 200 1300 scrollExample = Some (False, s')
         \<and> animationStart s' = 0
         \<and> a_current (x_value s') = 100
         \<and> a_current (selectionX s') = 10)"
proof -
  have m: "(200 :: int) \<noteq> 0" by simp
  have st: "animationStart scrollExample \<noteq> 0" by (simp add: scrollExample_def)
  have e1: "elapsed False 200 1050 scrollExample = 1 / 4"
    by (simp add: elapsed_def scrollExample_def)
  have e2: "1 \<le> elapsed False 200 1300 scrollExample"
    by (simp add: elapsed_def scrollExample_def)
  have vals: "a_from (x_value scrollExample) = 0" "a_to (x_value scrollExample) = 100"
    "a_from (selectionX scrollExample) = 0" "a_to (selectionX scrollExample) = 10"
    by (simp_all add: scrollExample_def)
  from C7_animationCallback_amended [OF m, of scrollExample False 1050] st e1
  obtain s1 where "animationCallback False 200 1050 scrollExample = Some (True, s1)"
    and "a_current (x_value s1) = 25"
    and "a_current (selectionX s1) = 10 * (1 - (3 / 4) ^ 3)"
    by (auto simp: vals)
  moreover
  from C7_animationCallback_amended [OF m, of scrollExample False 1300] st e2
  obtain s2 where "animationCallback False 200 1300 scrollExample = Some (False, s2)"
    and "animationStart s2 = 0"
    and "a_current (x_value s2) = 100" and "a_current (selectionX s2) = 10"
    by (auto simp: vals)
  ultimately show ?thesis using m st e1 e2 by blast
qed

lemma iconState_updateEmojiSectionWidth [simp]:
  "iconState (updateEmojiSectionWidth f) = iconState f"
  by (simp add: updateEmojiSectionWidth_def Let_def)

lemma max_value_startScroll [simp]:
  "max_value (startScroll now xFinal animations s) = max_value s"
  by (simp add: startScroll_def)

lemma to_startScroll [simp]:
  "a_to (x_value (startScroll now xFinal animations s)) = real_of_int xFinal"
  by (simp add: startScroll_def anim_value_of_def anim_start_def)

lemma startScroll_jump:
  "a_current (x_value (startScroll now xFinal Animations_None s)) = real_of_int xFinal"
  by (simp add: startScroll_def anim_value_of_def)

lemma startScroll_animated:
  "animations \<noteq> Animations_None \<Longrightarrow>
   animationStart (startScroll now xFinal animations s) = now"
  by (simp add: startScroll_def)

lemma animationCallback_max:
  "animationCallback d m now s = Some (r, s') \<Longrightarrow> max_value s' = max_value s"
  by (auto simp: animationCallback_def Let_def split: if_splits)

lemma animationCallback_completed:
  assumes "animationStart s \<noteq> 0" and "animationCallback d m now s = Some (False, s')"
  shows "a_current (x_value s') = a_to (x_value s)"
  using assms by (auto simp: animationCallback_def Let_def split: if_splits)

lemma animationCallback_completes:
  assumes "animationStart s \<noteq> 0" and "0 < m" and "animationStart s + m \<le> now"
  shows "\<exists>s'. animationCallback d m now s = Some (False, s')"
proof -
  have "real_of_int m \<le> real_of_int ((if d then now + m else now) - animationStart s)"
    using assms(2,3) by (simp only: of_int_le_iff split: if_splits) auto
  then have "1 \<le> elapsed d m now s"
    using assms(2) by (simp add: elapsed_def pos_le_divide_eq)
  from animationCallback_finish [OF assms(1) _ this] assms(2) show ?thesis by simp
qed

lemma to_in_range:
  assumes "0 \<le> max_value s"
  shows "centred (startScroll now (std_clamp c 0 (max_value s)) animations s) (max_value s)"
  using std_clamp_bounds [OF assms, of c] by (simp add: centred_def)

lemma setSelectedIcon_centred:
  assumes "0 \<le> max_value (iconState f)" and "selected (iconState f) \<noteq> newSelected"
  shows "centred (iconState (setSelectedIcon now newSelected animations f))
           (max_value (iconState f))"
    and "animations = Animations_None \<Longrightarrow>
           a_current (x_value (iconState (setSelectedIcon now newSelected animations f)))
             = a_to (x_value (iconState (setSelectedIcon now newSelected animations f)))"
    and "animations \<noteq> Animations_None \<Longrightarrow>
           animationStart (iconState (setSelectedIcon now newSelected animations f)) = now"
    and "selected (iconState (setSelectedIcon now newSelected animations f)) = newSelected"
proof -
  define f1 where
    "f1 = updateEmojiSectionWidth (f\<lparr>iconState := (iconState f)\<lparr>selected := newSelected\<rparr>\<rparr>)"
  define info where "info = iconInfo f1 (selected (iconState f1))"
  define s1 where "s1 = (iconState f1)
       \<lparr>selectionX := UpdateAnimated (selectionX (iconState f1)) (info_left info) animations,
        selectionWidth := UpdateAnimated (selectionWidth (iconState f1)) (info_width info)
                            animations\<rparr>"
  define c where "c = (iconsLeft f1 + (2 * (info_left info - iconsLeft f1) + info_width info)
                         + iconsRight f1 - footer_width f1) sdiv 2"
  have m: "max_value s1 = max_value (iconState f)" and sel: "selected s1 = newSelected"
    by (simp_all add: s1_def f1_def)
  have m1: "max_value s1 = max_value (iconState f1)"
    by (simp add: s1_def)
  have eq: "iconState (setSelectedIcon now newSelected animations f)
              = startScroll now (std_clamp c 0 (max_value s1)) animations s1"
    using assms(2)
    by (simp add: setSelectedIcon_def Let_def f1_def [symmetric] info_def [symmetric]
        s1_def [symmetric] c_def m1)
  show "centred (iconState (setSelectedIcon now newSelected animations f))
          (max_value (iconState f))"
    using to_in_range [of s1 now c animations] assms(1) by (simp add: eq m)
  show "a_current (x_value (iconState (setSelectedIcon now newSelected animations f)))
          = a_to (x_value (iconState (setSelectedIcon now newSelected animations f)))"
    if "animations = Animations_None"
    unfolding eq using that by (simp add: startScroll_jump)
  show "animationStart (iconState (setSelectedIcon now newSelected animations f)) = now"
    if "animations \<noteq> Animations_None"
    using that by (simp add: eq startScroll_animated)
  show "selected (iconState (setSelectedIcon now newSelected animations f)) = newSelected"
    by (simp add: eq startScroll_def sel)
qed

lemma setSelectedSubicon_centred:
  assumes "0 \<le> max_value (subiconState f)" and "selected (subiconState f) \<noteq> newSelected"
  shows "centred (subiconState (setSelectedSubicon now newSelected animations f))
           (max_value (subiconState f))"
    and "animations = Animations_None \<Longrightarrow>
           a_current (x_value (subiconState (setSelectedSubicon now newSelected animations f)))
             = a_to (x_value (subiconState (setSelectedSubicon now newSelected animations f)))"
    and "animations \<noteq> Animations_None \<Longrightarrow>
           animationStart (subiconState (setSelectedSubicon now newSelected animations f)) = now"
    and "selected (subiconState (setSelectedSubicon now newSelected animations f)) = newSelected"
proof -
  define s1 where "s1 = (subiconState f)\<lparr>selected := newSelected\<rparr>"
  define f1 where "f1 = f\<lparr>subiconState := s1\<rparr>"
  define info where "info = subiconInfo f1 (selected s1)"
  define c where "c = (2 * info_left info + info_width info - subiconsWidth f1) sdiv 2"
  have m: "max_value s1 = max_value (subiconState f)" and sel: "selected s1 = newSelected"
    by (simp_all add: s1_def)
  have w: "subiconsWidth f1 = subiconsWidth f"
    by (simp add: f1_def)
  have eq: "subiconState (setSelectedSubicon now newSelected animations f)
              = startScroll now (std_clamp c 0 (max_value s1)) animations s1"
    using assms(2)
    by (simp add: setSelectedSubicon_def Let_def s1_def [symmetric] f1_def [symmetric]
        info_def [symmetric] c_def w)
  show "centred (subiconState (setSelectedSubicon now newSelected animations f))
          (max_value (subiconState f))"
    using to_in_range [of s1 now c animations] assms(1) by (simp add: eq m)
  show "a_current (x_value (subiconState (setSelectedSubicon now newSelected animations f)))
          = a_to (x_value (subiconState (setSelectedSubicon now newSelected animations f)))"
    if "animations = Animations_None"
    unfolding eq using that by (simp add: startScroll_jump)
  show "animationStart (subiconState (setSelectedSubicon now newSelected animations f)) = now"
    if "animations \<noteq> Animations_None"
    using that by (simp add: eq startScroll_animated)
  show "selected (subiconState (setSelectedSubicon now newSelected animations f)) = newSelected"
    by (simp add: eq startScroll_def sel)
qed

lemma centred_at_target:
  assumes "centred s bound" and "a_current (x_value s') = a_to (x_value s)"
    and "max_value s' = max_value s"
  shows "in_bounds s' \<and> offset_bounded s'"
proof -
  have r: "0 \<le> a_current (x_value s')" "a_current (x_value s') \<le> real_of_int (max_value s')"
    using assms by (simp_all add: centred_def)
  have "0 \<le> round (a_current (x_value s'))"
    using r(1) by (simp add: round_def)
  moreover have "round (a_current (x_value s')) \<le> round (real_of_int (max_value s'))"
    using r(2) by (rule round_mono)
  ultimately show ?thesis
    using r by (simp add: in_bounds_def offset_bounded_def scrollOffset_def qRound_def)
qed

lemma centred_completed:
  assumes "centred s bound" and "animationStart s \<noteq> 0"
    and "animationCallback d m now s = Some (False, s')"
  shows "in_bounds s' \<and> offset_bounded s'"
  using centred_at_target [OF assms(1) animationCallback_completed [OF assms(2,3)]
      animationCallback_max [OF assms(3)]] .

lemma finishDragging_iconState:
  "iconState (snd (finishDragging f))
     = snd (finishDragging_state (iconsMouseDownX f) (iconsMousePosX f) (iconState f))"
  by (simp add: finishDragging_def split_beta)

lemma finishDragging_subiconState:
  "subiconState (snd (finishDragging f))
     = snd (finishDragging_state (iconsMouseDownX f) (iconsMousePosX f) (subiconState f))"
  by (simp add: finishDragging_def split_beta)

lemma scrollByWheelEvent_one_axis:
  fixes e :: WheelEvent and rtl :: bool
  defines "delta \<equiv> (if angleDeltaX e \<noteq> 0
                         then (if rtl then - 1 else 1)
                                * (if pixelDeltaX e \<noteq> 0 then pixelDeltaX e else angleDeltaX e)
                         else (if pixelDeltaY e \<noteq> 0 then pixelDeltaY e else angleDeltaY e))"
  assumes "0 \<le> max_value (iconState f)" and "0 \<le> max_value (subiconState f)"
    and "scrollByWheelEvent rtl e index f = Some f'"
  shows "(angleDeltaX e = 0 \<and> angleDeltaY e = 0 \<and> f' = f)
         \<or> (subiconState f' = snd (wheel_use delta (subiconState f))
              \<and> iconState f' = iconState f \<and> offset_bounded (subiconState f'))
         \<or> (iconState f' = snd (wheel_use delta (iconState f))
              \<and> subiconState f' = subiconState f \<and> offset_bounded (iconState f'))"
proof -
  have a: "offset_bounded (snd (wheel_use delta (iconState f)))"
    by (rule wheel_use_props(3) [OF assms(2)])
  have b: "offset_bounded (snd (wheel_use delta (subiconState f)))"
    by (rule wheel_use_props(3) [OF assms(3)])
  show ?thesis
  proof (cases "angleDeltaX e = 0 \<and> angleDeltaY e = 0")
    case True
    then have "f' = f" using assms(4) by (simp add: scrollByWheelEvent_def)
    then show ?thesis using True by simp
  next
    case False
    define f1 where "f1 = (if angleDeltaX e \<noteq> 0 then f\<lparr>horizontal := True\<rparr> else f)"
    have f1: "iconState f1 = iconState f" "subiconState f1 = subiconState f"
      by (simp_all add: f1_def)
    have "f' = f1\<lparr>subiconState := snd (wheel_use delta (subiconState f1))\<rparr>
          \<or> f' = f1\<lparr>iconState := snd (wheel_use delta (iconState f1))\<rparr>"
      using assms(4) False unfolding scrollByWheelEvent_def Let_def f1_def [symmetric]
        delta_def [symmetric]
      by (simp split: if_splits)
    then show ?thesis
    proof
      assume "f' = f1\<lparr>subiconState := snd (wheel_use delta (subiconState f1))\<rparr>"
      then show ?thesis using b f1 by simp
    next
      assume "f' = f1\<lparr>iconState := snd (wheel_use delta (iconState f1))\<rparr>"
      then show ?thesis using a f1 by simp
    qed
  qed
qed

lemma scrollByWheelEvent_returns:
  "index < length (icons f) \<Longrightarrow> \<exists>f'. scrollByWheelEvent rtl e index f = Some f'"
  by (simp add: scrollByWheelEvent_def Let_def)

lemma refreshScrollableDimensions_bounds:
  "0 \<le> max_value (iconState (refreshScrollableDimensions f))
   \<and> a_current (x_value (iconState (refreshScrollableDimensions f)))
       \<le> real_of_int (max_value (iconState (refreshScrollableDimensions f)))"
  by (simp add: refreshScrollableDimensions_def Let_def anim_value_of_def)

text \<open>
  The bounds while \<open>max\<close> stays as it is. For a scroll state \<open>s\<close> of either axis and a
  footer \<open>f\<close> whose bounds \<open>max\<close> are not negative (\<open>refreshScrollableDimensions\<close> sets
  them with \<open>std::max(\<dots>, 0)\<close>): after a drag release the offset is the clamped drag
  position and lies in \<open>[0, max]\<close>, on both axes of the footer; after a wheel scroll the
  offset is the clamped \<open>offset - delta\<close>, it is \<open>max\<close> when the delta exceeds the room
  above and \<open>0\<close> when it exceeds the room below; after a selection that jumps, and after
  an animated selection completes that nothing has come between (the callback returns
  false, which it does once the duration has passed), the position is in \<open>[0, max]\<close> for
  the \<open>max\<close> the target was clamped to. The offset is the rounded current value, which the
  footer paints with; where the current value was within the bounds before, it is so
  after.
\<close>

lemma scroll_offset_within_fixed_max:
  assumes "0 \<le> max_value s"
    and "0 \<le> max_value (iconState f)" and "0 \<le> max_value (subiconState f)"
  shows
    "(dragging s \<longrightarrow>
        offset_bounded (snd (finishDragging_state down pos s))
        \<and> scrollOffset (snd (finishDragging_state down pos s))
            = std_clamp (draggingStartX s + down - pos) 0 (max_value s)
        \<and> max_value (snd (finishDragging_state down pos s)) = max_value s
        \<and> (in_bounds s \<longrightarrow> in_bounds (snd (finishDragging_state down pos s))))
     \<and> (dragging (iconState f) \<longrightarrow> offset_bounded (iconState (snd (finishDragging f))))
     \<and> (dragging (subiconState f) \<longrightarrow> offset_bounded (subiconState (snd (finishDragging f))))
     \<and> offset_bounded (snd (wheel_use delta s))
     \<and> scrollOffset (snd (wheel_use delta s))
         = std_clamp (scrollOffset s - delta) 0 (max_value s)
     \<and> max_value (snd (wheel_use delta s)) = max_value s
     \<and> (in_bounds s \<longrightarrow> in_bounds (snd (wheel_use delta s)))
     \<and> (max_value s < scrollOffset s - delta \<longrightarrow>
          scrollOffset (snd (wheel_use delta s)) = max_value s)
     \<and> (scrollOffset s - delta < 0 \<longrightarrow> scrollOffset (snd (wheel_use delta s)) = 0)
     \<and> (selected (iconState f) \<noteq> newSelected \<longrightarrow>
          (animations = Animations_None \<longrightarrow>
             in_bounds (iconState (setSelectedIcon t0 newSelected animations f))
             \<and> offset_bounded (iconState (setSelectedIcon t0 newSelected animations f)))
          \<and> (animations \<noteq> Animations_None \<and> t0 \<noteq> 0 \<longrightarrow>
               (\<forall>now s'. animationCallback d m now
                             (iconState (setSelectedIcon t0 newSelected animations f))
                           = Some (False, s')
                    \<longrightarrow> in_bounds s' \<and> offset_bounded s')
               \<and> (\<forall>now. 0 < m \<and> t0 + m \<le> now \<longrightarrow>
                    (\<exists>s'. animationCallback d m now
                             (iconState (setSelectedIcon t0 newSelected animations f))
                           = Some (False, s')))))
     \<and> (selected (subiconState f) \<noteq> newSelected \<longrightarrow>
          (animations = Animations_None \<longrightarrow>
             in_bounds (subiconState (setSelectedSubicon t0 newSelected animations f))
             \<and> offset_bounded (subiconState (setSelectedSubicon t0 newSelected animations f)))
          \<and> (animations \<noteq> Animations_None \<and> t0 \<noteq> 0 \<longrightarrow>
               (\<forall>now s'. animationCallback d m now
                             (subiconState (setSelectedSubicon t0 newSelected animations f))
                           = Some (False, s')
                    \<longrightarrow> in_bounds s' \<and> offset_bounded s')
               \<and> (\<forall>now. 0 < m \<and> t0 + m \<le> now \<longrightarrow>
                    (\<exists>s'. animationCallback d m now
                             (subiconState (setSelectedSubicon t0 newSelected animations f))
                           = Some (False, s')))))"
proof -
  have drag: "offset_bounded (snd (finishDragging_state down pos s))
        \<and> scrollOffset (snd (finishDragging_state down pos s))
            = std_clamp (draggingStartX s + down - pos) 0 (max_value s)
        \<and> max_value (snd (finishDragging_state down pos s)) = max_value s
        \<and> (in_bounds s \<longrightarrow> in_bounds (snd (finishDragging_state down pos s)))"
    if "dragging s"
    using finishDragging_state_props [OF assms(1) that] by simp
  have dragIcon: "offset_bounded (iconState (snd (finishDragging f)))"
    if "dragging (iconState f)"
    using finishDragging_state_props(4) [OF assms(2) that]
    by (simp add: finishDragging_iconState)
  have dragSub: "offset_bounded (subiconState (snd (finishDragging f)))"
    if "dragging (subiconState f)"
    using finishDragging_state_props(4) [OF assms(3) that]
    by (simp add: finishDragging_subiconState)
  note wheel = wheel_use_props [OF assms(1), of delta]
  have over: "scrollOffset (snd (wheel_use delta s)) = max_value s"
    if "max_value s < scrollOffset s - delta"
    using wheel(2) std_clamp_above [OF assms(1) that] by simp
  have under: "scrollOffset (snd (wheel_use delta s)) = 0"
    if "scrollOffset s - delta < 0"
    using wheel(2) std_clamp_below [OF that] by simp
  have icon: "(animations = Animations_None \<longrightarrow>
             in_bounds (iconState (setSelectedIcon t0 newSelected animations f))
             \<and> offset_bounded (iconState (setSelectedIcon t0 newSelected animations f)))
          \<and> (animations \<noteq> Animations_None \<and> t0 \<noteq> 0 \<longrightarrow>
               (\<forall>now s'. animationCallback d m now
                             (iconState (setSelectedIcon t0 newSelected animations f))
                           = Some (False, s')
                    \<longrightarrow> in_bounds s' \<and> offset_bounded s')
               \<and> (\<forall>now. 0 < m \<and> t0 + m \<le> now \<longrightarrow>
                    (\<exists>s'. animationCallback d m now
                             (iconState (setSelectedIcon t0 newSelected animations f))
                           = Some (False, s'))))"
    if ne: "selected (iconState f) \<noteq> newSelected"
  proof -
    let ?s = "iconState (setSelectedIcon t0 newSelected animations f)"
    note c = setSelectedIcon_centred [OF assms(2) ne, where now = t0 and animations = animations]
    have jump: "in_bounds ?s \<and> offset_bounded ?s" if "animations = Animations_None"
      using centred_at_target [OF c(1) c(2) [OF that]] by simp
    have fin: "in_bounds s' \<and> offset_bounded s'"
      if "animations \<noteq> Animations_None" "t0 \<noteq> 0"
        "animationCallback d m now ?s = Some (False, s')" for now s'
      using centred_completed [OF c(1) _ that(3)] c(3) [OF that(1)] that(2) by simp
    have ends: "\<exists>s'. animationCallback d m now ?s = Some (False, s')"
      if "animations \<noteq> Animations_None" "t0 \<noteq> 0" "0 < m" "t0 + m \<le> now" for now
      using animationCallback_completes [of ?s m now d] c(3) [OF that(1)] that by simp
    show ?thesis using jump fin ends by blast
  qed
  have sub: "(animations = Animations_None \<longrightarrow>
             in_bounds (subiconState (setSelectedSubicon t0 newSelected animations f))
             \<and> offset_bounded (subiconState (setSelectedSubicon t0 newSelected animations f)))
          \<and> (animations \<noteq> Animations_None \<and> t0 \<noteq> 0 \<longrightarrow>
               (\<forall>now s'. animationCallback d m now
                             (subiconState (setSelectedSubicon t0 newSelected animations f))
                           = Some (False, s')
                    \<longrightarrow> in_bounds s' \<and> offset_bounded s')
               \<and> (\<forall>now. 0 < m \<and> t0 + m \<le> now \<longrightarrow>
                    (\<exists>s'. animationCallback d m now
                             (subiconState (setSelectedSubicon t0 newSelected animations f))
                           = Some (False, s'))))"
    if ne: "selected (subiconState f) \<noteq> newSelected"
  proof -
    let ?s = "subiconState (setSelectedSubicon t0 newSelected animations f)"
    note c = setSelectedSubicon_centred [OF assms(3) ne, where now = t0 and animations = animations]
    have jump: "in_bounds ?s \<and> offset_bounded ?s" if "animations = Animations_None"
      using centred_at_target [OF c(1) c(2) [OF that]] by simp
    have fin: "in_bounds s' \<and> offset_bounded s'"
      if "animations \<noteq> Animations_None" "t0 \<noteq> 0"
        "animationCallback d m now ?s = Some (False, s')" for now s'
      using centred_completed [OF c(1) _ that(3)] c(3) [OF that(1)] that(2) by simp
    have ends: "\<exists>s'. animationCallback d m now ?s = Some (False, s')"
      if "animations \<noteq> Animations_None" "t0 \<noteq> 0" "0 < m" "t0 + m \<le> now" for now
      using animationCallback_completes [of ?s m now d] c(3) [OF that(1)] that by simp
    show ?thesis using jump fin ends by blast
  qed
  show ?thesis
    using drag dragIcon dragSub wheel(1-4) over under icon sub
    by (intro conjI impI) blast+
qed

text \<open>The lemma at a drag far to the left, a wheel delta beyond the bound and a
  selection of the second icon.\<close>

lemma scroll_offset_within_fixed_max_example:
  "0 \<le> max_value dragExample
   \<and> 0 \<le> max_value (iconState footerExample)
   \<and> 0 \<le> max_value (subiconState footerExample)
   \<and> dragging dragExample
   \<and> offset_bounded (snd (finishDragging_state 100 600 dragExample))
   \<and> scrollOffset (snd (finishDragging_state 100 600 dragExample)) = 0
   \<and> max_value dragExample < scrollOffset dragExample - (- 500)
   \<and> scrollOffset (snd (wheel_use (- 500) dragExample)) = max_value dragExample
   \<and> offset_bounded (snd (wheel_use (- 500) dragExample))
   \<and> selected (iconState footerExample) \<noteq> 1
   \<and> (\<exists>s'. animationCallback False 200 1300
                (iconState (setSelectedIcon 1000 1 Animations_Full footerExample))
              = Some (False, s')
           \<and> in_bounds s' \<and> offset_bounded s')"
proof -
  have h: "0 \<le> max_value dragExample" "0 \<le> max_value (iconState footerExample)"
    "0 \<le> max_value (subiconState footerExample)"
    by (simp_all add: dragExample_def footerExample_def scrollExample_def)
  have d: "dragging dragExample" by (simp add: dragExample_def)
  have far: "max_value dragExample < scrollOffset dragExample - (- 500)"
    by (simp add: dragExample_def scrollExample_def scrollOffset_def qRound_def)
  have ne: "selected (iconState footerExample) \<noteq> 1"
    by (simp add: footerExample_def scrollExample_def)
  have cl: "std_clamp (draggingStartX dragExample + 100 - 600) 0 (max_value dragExample) = 0"
    by (simp add: dragExample_def scrollExample_def std_clamp_def)
  note t = scroll_offset_within_fixed_max [OF h, where down = 100 and pos = 600
      and delta = "- 500" and newSelected = 1 and animations = Animations_Full
      and ?t0.0 = 1000 and d = False and m = 200]
  have 1: "offset_bounded (snd (finishDragging_state 100 600 dragExample))"
    and 2: "scrollOffset (snd (finishDragging_state 100 600 dragExample)) = 0"
    using t d cl by simp_all
  have 3: "scrollOffset (snd (wheel_use (- 500) dragExample)) = max_value dragExample"
    and 4: "offset_bounded (snd (wheel_use (- 500) dragExample))"
    using t far by blast+
  have "\<exists>s'. animationCallback False 200 1300
                (iconState (setSelectedIcon 1000 1 Animations_Full footerExample))
              = Some (False, s')"
    using t ne by simp
  then obtain s' where s': "animationCallback False 200 1300
                (iconState (setSelectedIcon 1000 1 Animations_Full footerExample))
              = Some (False, s')" by blast
  then have "in_bounds s' \<and> offset_bounded s'"
    using t ne by simp
  with s' have 5: "\<exists>s'. animationCallback False 200 1300
                (iconState (setSelectedIcon 1000 1 Animations_Full footerExample))
              = Some (False, s')
           \<and> in_bounds s' \<and> offset_bounded s'" by blast
  show ?thesis using h d far ne 1 2 3 4 5 by blast
qed

text \<open>
  C3 is not met by the icon strip when the emoji section collapses during an animated
  selection. In \<open>expandedFooter\<close> the offset is \<open>0\<close> and \<open>max\<close> is \<open>440\<close>, the value
  \<open>refreshScrollableDimensions\<close> computes. \<open>setSelectedIcon\<close> of the last icon, animated,
  at time \<open>1000\<close>, clamps the target of the centring, \<open>470\<close>, to that \<open>max\<close> and starts
  the width animation of the section, from \<open>180\<close> to \<open>40\<close>. Each callback of the width
  animation, \<open>updateEmojiWidthCallback\<close>, lowers \<open>max\<close> through
  \<open>refreshScrollableDimensions\<close>, which resets the position only when the current value
  is above the new \<open>max\<close>, and the target \<open>440\<close> stays: half way, at \<open>1120\<close>, the offset
  is \<open>132\<close> and \<open>max\<close> is \<open>370\<close>; at its end, at \<open>1240\<close>, the offset is \<open>264\<close> and
  \<open>max\<close> is \<open>300\<close>. With \<open>st::stickerIconMove = 400\<close> the centring completes at
  \<open>1400\<close>: the callback returns false and the offset is \<open>440\<close>, above \<open>max = 300\<close>.
\<close>

theorem C3_selection_overshoots_max:
  "refreshScrollableDimensions expandedFooter = expandedFooter
   \<and> offset_bounded (iconState expandedFooter)
   \<and> a_to (x_value (iconState (setSelectedIcon 1000 11 Animations_Full expandedFooter)))
       = 440
   \<and> max_value (iconState (setSelectedIcon 1000 11 Animations_Full expandedFooter)) = 440
   \<and> map_option (\<lambda>f. (scrollOffset (iconState f), max_value (iconState f)))
        (widthAnimationStep (Some 110) False 400 1120
           (setSelectedIcon 1000 11 Animations_Full expandedFooter))
       = Some (132, 370)
   \<and> map_option (\<lambda>f. (scrollOffset (iconState f), max_value (iconState f)))
        (Option.bind
           (widthAnimationStep (Some 110) False 400 1120
              (setSelectedIcon 1000 11 Animations_Full expandedFooter))
           (widthAnimationStep None False 400 1240))
       = Some (264, 300)
   \<and> map_option (\<lambda>(again, s). (again, scrollOffset s, max_value s, offset_bounded s))
        (Option.bind
           (Option.bind
              (widthAnimationStep (Some 110) False 400 1120
                 (setSelectedIcon 1000 11 Animations_Full expandedFooter))
              (widthAnimationStep None False 400 1240))
           (\<lambda>f. animationCallback False 400 1400 (iconState f)))
       = Some (False, 440, 300, False)"
  by code_simp

section \<open>Sticker footer: selected icon\<close>

lemma validateLoop_step:
  assumes "\<not> iconMatches ids setId icon"
  shows "validateLoop ids setId e (icon # rest) i (fv, sl, sb)
           = validateLoop ids setId e rest (i + 1)
               (if icon = FavedSetId ids then i else fv,
                if icon \<noteq> FavedSetId ids \<and> e \<and> icon = AllEmojiSectionSetId then i else sl,
                if icon \<noteq> FavedSetId ids \<and> e \<and> icon = AllEmojiSectionSetId
                then narrow_to_int (setId - EmojiSectionSetId Section_People) else sb)"
  using assms by (simp add: iconMatches_def)

lemma validateLoop_match:
  assumes "\<exists>x \<in> set rest. iconMatches ids setId x"
  shows "\<exists>k < length rest. iconMatches ids setId (rest ! k)
           \<and> (\<forall>j < k. \<not> iconMatches ids setId (rest ! j))
           \<and> fst (snd (validateLoop ids setId e rest i acc)) = i + int k"
  using assms
proof (induction rest arbitrary: i acc)
  case Nil
  then show ?case by simp
next
  case (Cons icon rest)
  obtain fv sl sb where acc: "acc = (fv, sl, sb)" by (cases acc) auto
  show ?case
  proof (cases "iconMatches ids setId icon")
    case True
    then have "fst (snd (validateLoop ids setId e (icon # rest) i acc)) = i + int 0"
      by (simp add: acc iconMatches_def)
    with True show ?thesis by (intro exI [of _ 0]) simp
  next
    case False
    then have ex: "\<exists>x \<in> set rest. iconMatches ids setId x"
      using Cons.prems by auto
    obtain acc' where step: "validateLoop ids setId e (icon # rest) i acc
                               = validateLoop ids setId e rest (i + 1) acc'"
      unfolding acc using validateLoop_step [OF False] by blast
    from Cons.IH [OF ex, of "i + 1" acc']
    obtain k where k: "k < length rest" "iconMatches ids setId (rest ! k)"
      "\<forall>j < k. \<not> iconMatches ids setId (rest ! j)"
      "fst (snd (validateLoop ids setId e rest (i + 1) acc')) = i + 1 + int k"
      by blast
    have "\<forall>j < Suc k. \<not> iconMatches ids setId ((icon # rest) ! j)"
      using k(3) False by (auto simp: less_Suc_eq_0_disj)
    then show ?thesis
      unfolding step using k by (intro exI [of _ "Suc k"]) (simp del: validateLoop.simps)
  qed
qed

lemma validateLoop_faved:
  assumes "\<forall>x \<in> set rest. \<not> iconMatches ids setId x"
  shows "(FavedSetId ids \<in> set rest \<longrightarrow>
            (\<exists>k < length rest. fst (validateLoop ids setId e rest i (fv, sl, sb)) = i + int k
                \<and> rest ! k = FavedSetId ids))
         \<and> (FavedSetId ids \<notin> set rest \<longrightarrow>
              fst (validateLoop ids setId e rest i (fv, sl, sb)) = fv)"
  using assms
proof (induction rest arbitrary: i fv sl sb)
  case Nil
  then show ?case by simp
next
  case (Cons icon rest)
  have nm: "\<not> iconMatches ids setId icon" and rest: "\<forall>x \<in> set rest. \<not> iconMatches ids setId x"
    using Cons.prems by simp_all
  obtain fv' sl' sb' where step: "validateLoop ids setId e (icon # rest) i (fv, sl, sb)
          = validateLoop ids setId e rest (i + 1) (fv', sl', sb')"
    and fv': "fv' = (if icon = FavedSetId ids then i else fv)"
    using validateLoop_step [OF nm] by blast
  note IH = Cons.IH [OF rest, of "i + 1" fv' sl' sb']
  show ?case
  proof (cases "FavedSetId ids \<in> set rest")
    case True
    then obtain k where "k < length rest"
      "fst (validateLoop ids setId e rest (i + 1) (fv', sl', sb')) = i + 1 + int k"
      "rest ! k = FavedSetId ids"
      using IH by blast
    then show ?thesis
      unfolding step using True by (auto intro!: exI [of _ "Suc k"] simp del: validateLoop.simps)
  next
    case False
    then have r: "fst (validateLoop ids setId e rest (i + 1) (fv', sl', sb')) = fv'"
      using IH by blast
    show ?thesis
    proof (cases "icon = FavedSetId ids")
      case True
      then show ?thesis
        unfolding step using r fv' by (auto intro!: exI [of _ 0] simp del: validateLoop.simps)
    next
      case False
      then show ?thesis
        unfolding step using r fv' \<open>FavedSetId ids \<notin> set rest\<close>
        by (simp del: validateLoop.simps)
    qed
  qed
qed

lemma validateLoop_allEmoji:
  assumes "\<forall>x \<in> set rest. \<not> iconMatches ids setId x"
    and "FavedSetId ids \<noteq> AllEmojiSectionSetId"
  shows "(e \<and> AllEmojiSectionSetId \<in> set rest \<longrightarrow>
            (\<exists>k < length rest.
                fst (snd (validateLoop ids setId e rest i (fv, sl, sb))) = i + int k
                \<and> rest ! k = AllEmojiSectionSetId)
            \<and> snd (snd (validateLoop ids setId e rest i (fv, sl, sb)))
                = narrow_to_int (setId - EmojiSectionSetId Section_People))
         \<and> (\<not> (e \<and> AllEmojiSectionSetId \<in> set rest) \<longrightarrow>
              snd (validateLoop ids setId e rest i (fv, sl, sb)) = (sl, sb))"
  using assms(1)
proof (induction rest arbitrary: i fv sl sb)
  case Nil
  then show ?case by simp
next
  case (Cons icon rest)
  have nm: "\<not> iconMatches ids setId icon" and rest: "\<forall>x \<in> set rest. \<not> iconMatches ids setId x"
    using Cons.prems by simp_all
  let ?sub = "narrow_to_int (setId - EmojiSectionSetId Section_People)"
  let ?hit = "e \<and> icon = AllEmojiSectionSetId"
  have hit: "icon \<noteq> FavedSetId ids \<and> e \<and> icon = AllEmojiSectionSetId \<longleftrightarrow> ?hit"
    using assms(2) by auto
  obtain fv' sl' sb' where step: "validateLoop ids setId e (icon # rest) i (fv, sl, sb)
          = validateLoop ids setId e rest (i + 1) (fv', sl', sb')"
    and sl': "sl' = (if ?hit then i else sl)" and sb': "sb' = (if ?hit then ?sub else sb)"
    using validateLoop_step [OF nm, of e rest i fv sl sb] unfolding hit by blast
  note IH = Cons.IH [OF rest, of "i + 1" fv' sl' sb']
  show ?case
  proof (cases "e \<and> AllEmojiSectionSetId \<in> set rest")
    case True
    then obtain k where "k < length rest"
      "fst (snd (validateLoop ids setId e rest (i + 1) (fv', sl', sb'))) = i + 1 + int k"
      "rest ! k = AllEmojiSectionSetId"
      and "snd (snd (validateLoop ids setId e rest (i + 1) (fv', sl', sb'))) = ?sub"
      using IH by blast
    then show ?thesis
      unfolding step using True by (auto intro!: exI [of _ "Suc k"] simp del: validateLoop.simps)
  next
    case False
    then have r: "snd (validateLoop ids setId e rest (i + 1) (fv', sl', sb')) = (sl', sb')"
      using IH by blast
    show ?thesis
    proof (cases ?hit)
      case True
      then show ?thesis
        unfolding step using r sl' sb' by (auto intro!: exI [of _ 0] simp del: validateLoop.simps)
    next
      case False
      then show ?thesis
        unfolding step using r sl' sb' \<open>\<not> (e \<and> AllEmojiSectionSetId \<in> set rest)\<close>
        by (auto simp del: validateLoop.simps)
    qed
  qed
qed

lemma small_word_cases:
  fixes w :: uint64
  assumes "w \<le> 7" and "unat w \<noteq> 0"
  shows "w \<in> {1, 2, 3, 4, 5, 6, 7}"
proof -
  have "unat w \<le> 7" using assms(1) by (simp add: word_le_nat_alt)
  then have "unat w \<in> {1, 2, 3, 4, 5, 6, 7}" using assms(2) by auto
  then have "word_of_nat (unat w) \<in> {word_of_nat 1, word_of_nat 2, word_of_nat 3,
      word_of_nat 4, word_of_nat 5, word_of_nat 6, word_of_nat 7 :: uint64}"
    by (elim insertE emptyE) (simp_all only: insertI1 insertI2)
  then show ?thesis by simp
qed

lemma emoji_sub_index:
  assumes "isEmojiSectionId setId"
  shows "narrow_to_int (setId - EmojiSectionSetId Section_People)
           = uint (setId - EmojiSectionSetId Section_People)"
    and "0 \<le> narrow_to_int (setId - EmojiSectionSetId Section_People)"
    and "narrow_to_int (setId - EmojiSectionSetId Section_People)
           \<le> int Section_Symbols - int Section_People"
proof -
  define w where "w = setId - RecentEmojiSectionSetId"
  have w: "w \<le> 7" "unat w \<noteq> 0"
    using assms
    by (auto simp: isEmojiSectionId_def SetIdEmojiSection_def Let_def w_def Section_Symbols_def
        Section_Recent_def split: if_splits)
  have d: "setId - EmojiSectionSetId Section_People = w - 1"
    by (simp add: w_def RecentEmojiSectionSetId_def EmojiSectionSetId_def Section_People_def
        Section_Recent_def)
  from small_word_cases [OF w]
  have "narrow_to_int (w - 1) = uint (w - 1) \<and> 0 \<le> narrow_to_int (w - 1)
          \<and> narrow_to_int (w - 1) \<le> 6"
    by (auto simp: narrow_to_int_def)
  then show "narrow_to_int (setId - EmojiSectionSetId Section_People)
           = uint (setId - EmojiSectionSetId Section_People)"
    and "0 \<le> narrow_to_int (setId - EmojiSectionSetId Section_People)"
    and "narrow_to_int (setId - EmojiSectionSetId Section_People)
           \<le> int Section_Symbols - int Section_People"
    unfolding d by (simp_all add: Section_Symbols_def Section_People_def)
qed

lemma selected_setSelectedIcon [simp]:
  "selected (iconState (setSelectedIcon now newSelected animations f)) = newSelected"
  by (simp add: setSelectedIcon_def Let_def startScroll_def)

lemma selected_setSelectedSubicon [simp]:
  "selected (subiconState (setSelectedSubicon now newSelected animations f)) = newSelected"
  by (simp add: setSelectedSubicon_def Let_def startScroll_def)

lemma iconState_setSelectedSubicon [simp]:
  "iconState (setSelectedSubicon now newSelected animations f) = iconState f"
  by (simp add: setSelectedSubicon_def Let_def)

lemma activeByScrollId_setSelectedSubicon [simp]:
  "activeByScrollId (setSelectedSubicon now newSelected animations f) = activeByScrollId f"
  by (simp add: setSelectedSubicon_def Let_def)

lemma activeByScrollId_setSelectedIcon [simp]:
  "activeByScrollId (setSelectedIcon now newSelected animations f) = activeByScrollId f"
  by (simp add: setSelectedIcon_def Let_def updateEmojiSectionWidth_def)

lemma validateSelectedIcon_selected:
  "selected (iconState (validateSelectedIcon ids now setId animations f))
     = fst (validateChoice ids (icons f) setId)"
  "selected (subiconState (validateSelectedIcon ids now setId animations f))
     = snd (validateChoice ids (icons f) setId)"
  "activeByScrollId (validateSelectedIcon ids now setId animations f) = setId"
  by (simp_all add: validateSelectedIcon_def Let_def)

lemma validateChoice_alt:
  "validateChoice ids icons' setId =
     (let r = validateLoop ids setId (isEmojiSectionId setId) icons' 0 (- 1, - 1, - 1)
      in ((if fst (snd r) \<ge> 0 then fst (snd r) else if fst r \<ge> 0 then fst r else 0),
          (if snd (snd r) \<ge> 0 then snd (snd r) else 0)))"
  by (simp add: validateChoice_def split: prod.splits)

lemma validateChoice_match:
  assumes "\<exists>x \<in> set icons'. iconMatches ids setId x"
  shows "\<exists>k < length icons'. fst (validateChoice ids icons' setId) = int k
           \<and> iconMatches ids setId (icons' ! k)
           \<and> (\<forall>j < k. \<not> iconMatches ids setId (icons' ! j))"
proof -
  from validateLoop_match [OF assms, of "isEmojiSectionId setId" 0 "(- 1, - 1, - 1)"]
  obtain k where k: "k < length icons'" "iconMatches ids setId (icons' ! k)"
    "\<forall>j < k. \<not> iconMatches ids setId (icons' ! j)"
    "fst (snd (validateLoop ids setId (isEmojiSectionId setId) icons' 0 (- 1, - 1, - 1)))
       = int k"
    by auto
  have "fst (validateChoice ids icons' setId) = int k"
    using k(4) by (simp add: validateChoice_alt Let_def)
  with k show ?thesis by blast
qed

lemma validateChoice_allEmoji:
  assumes "\<forall>x \<in> set icons'. \<not> iconMatches ids setId x"
    and "FavedSetId ids \<noteq> AllEmojiSectionSetId"
    and "isEmojiSectionId setId" and "AllEmojiSectionSetId \<in> set icons'"
  shows "\<exists>k < length icons'. fst (validateChoice ids icons' setId) = int k
            \<and> icons' ! k = AllEmojiSectionSetId"
    and "snd (validateChoice ids icons' setId)
           = uint (setId - EmojiSectionSetId Section_People)"
    and "snd (validateChoice ids icons' setId) \<le> int Section_Symbols - int Section_People"
proof -
  from validateLoop_allEmoji [OF assms(1,2), of "isEmojiSectionId setId" 0 "- 1" "- 1" "- 1"]
    assms(3,4)
  obtain k where k: "k < length icons'" "icons' ! k = AllEmojiSectionSetId"
    "fst (snd (validateLoop ids setId (isEmojiSectionId setId) icons' 0 (- 1, - 1, - 1)))
       = int k"
    and sub: "snd (snd (validateLoop ids setId (isEmojiSectionId setId) icons' 0
                          (- 1, - 1, - 1)))
       = narrow_to_int (setId - EmojiSectionSetId Section_People)"
    by auto
  have "fst (validateChoice ids icons' setId) = int k"
    using k(3) by (simp add: validateChoice_alt Let_def)
  with k show "\<exists>k < length icons'. fst (validateChoice ids icons' setId) = int k
            \<and> icons' ! k = AllEmojiSectionSetId" by blast
  have s: "snd (validateChoice ids icons' setId)
             = narrow_to_int (setId - EmojiSectionSetId Section_People)"
    using sub emoji_sub_index(2) [OF assms(3)]
    by (simp add: validateChoice_alt Let_def)
  show "snd (validateChoice ids icons' setId)
          = uint (setId - EmojiSectionSetId Section_People)"
    using s emoji_sub_index(1) [OF assms(3)] by simp
  show "snd (validateChoice ids icons' setId) \<le> int Section_Symbols - int Section_People"
    using s emoji_sub_index(3) [OF assms(3)] by simp
qed

lemma validateChoice_fallback:
  assumes "\<forall>x \<in> set icons'. \<not> iconMatches ids setId x"
    and "FavedSetId ids \<noteq> AllEmojiSectionSetId"
    and "\<not> (isEmojiSectionId setId \<and> AllEmojiSectionSetId \<in> set icons')"
  shows "FavedSetId ids \<in> set icons' \<Longrightarrow>
           \<exists>k < length icons'. fst (validateChoice ids icons' setId) = int k
              \<and> icons' ! k = FavedSetId ids"
    and "FavedSetId ids \<notin> set icons' \<Longrightarrow> fst (validateChoice ids icons' setId) = 0"
    and "snd (validateChoice ids icons' setId) = 0"
proof -
  let ?r = "validateLoop ids setId (isEmojiSectionId setId) icons' 0 (- 1, - 1, - 1)"
  have sel: "snd ?r = (- 1, - 1)"
    using validateLoop_allEmoji [OF assms(1,2), of "isEmojiSectionId setId" 0 "- 1" "- 1" "- 1"]
      assms(3) by blast
  note fv = validateLoop_faved [OF assms(1), of "isEmojiSectionId setId" 0 "- 1" "- 1" "- 1"]
  show "\<exists>k < length icons'. fst (validateChoice ids icons' setId) = int k
          \<and> icons' ! k = FavedSetId ids" if "FavedSetId ids \<in> set icons'"
  proof -
    from fv that obtain k where k: "k < length icons'" "fst ?r = int k"
      "icons' ! k = FavedSetId ids" by auto
    have "fst (validateChoice ids icons' setId) = int k"
      using k(2) sel by (simp add: validateChoice_alt Let_def)
    with k show ?thesis by blast
  qed
  show "fst (validateChoice ids icons' setId) = 0" if "FavedSetId ids \<notin> set icons'"
  proof -
    from fv that have "fst ?r = - 1" by blast
    then show ?thesis using sel by (simp add: validateChoice_alt Let_def)
  qed
  show "snd (validateChoice ids icons' setId) = 0"
    using sel by (simp add: validateChoice_alt Let_def)
qed

text \<open>
  C4, as stated, fails when the target is the Recent sticker set and a Faved icon precedes
  the Recent icon: the loop stops at the Faved icon. With the icons Faved, Recent and a
  third set, the icon at index 1 matches the target exactly, yet index 0 is selected.
\<close>

theorem C4_validateSelectedIcon_counterexample:
  "iconsFavedRecent ! 1 = RecentSetId realIds
   \<and> iconsFavedRecent ! 0 \<noteq> RecentSetId realIds
   \<and> selected (iconState (validateSelectedIcon realIds 1000 (RecentSetId realIds)
        Animations_None (footerExample\<lparr>icons := iconsFavedRecent\<rparr>))) = 0"
  by (simp add: validateSelectedIcon_selected validateChoice_def iconsFavedRecent_def
      realIds_def isEmojiSectionId_def)

text \<open>
  C4, amended: after \<open>validateSelectedIcon(setId)\<close> the selected icon and sub-icon are
  these. If some icon matches (its id is \<open>setId\<close>, or it is the Faved icon and \<open>setId\<close> is
  the Recent sticker set), the first such icon is selected. Otherwise, if \<open>setId\<close> denotes
  an emoji section other than Recent and an All Emoji icon is present, an All Emoji icon
  is selected and the sub-selection index is \<open>setId\<close> minus the set id of the People
  section, at most \<open>Symbols - People\<close>. Otherwise a Faved icon is selected when one is
  present, else index 0, and the sub-selection index is 0. (The Faved set id is not the
  All Emoji set id.)
\<close>

theorem C4_validateSelectedIcon_amended:
  assumes "FavedSetId ids \<noteq> AllEmojiSectionSetId"
  shows
    "selected (iconState (validateSelectedIcon ids now setId animations f))
       = fst (validateChoice ids (icons f) setId)
     \<and> selected (subiconState (validateSelectedIcon ids now setId animations f))
       = snd (validateChoice ids (icons f) setId)
     \<and> activeByScrollId (validateSelectedIcon ids now setId animations f) = setId
     \<and> ((\<exists>x \<in> set (icons f). iconMatches ids setId x) \<longrightarrow>
          (\<exists>k < length (icons f).
              fst (validateChoice ids (icons f) setId) = int k
              \<and> iconMatches ids setId (icons f ! k)
              \<and> (\<forall>j < k. \<not> iconMatches ids setId (icons f ! j))))
     \<and> ((\<forall>x \<in> set (icons f). \<not> iconMatches ids setId x)
          \<and> isEmojiSectionId setId \<and> AllEmojiSectionSetId \<in> set (icons f) \<longrightarrow>
          (\<exists>k < length (icons f).
              fst (validateChoice ids (icons f) setId) = int k
              \<and> icons f ! k = AllEmojiSectionSetId)
          \<and> snd (validateChoice ids (icons f) setId)
              = uint (setId - EmojiSectionSetId Section_People)
          \<and> snd (validateChoice ids (icons f) setId)
              \<le> int Section_Symbols - int Section_People)
     \<and> ((\<forall>x \<in> set (icons f). \<not> iconMatches ids setId x)
          \<and> \<not> (isEmojiSectionId setId \<and> AllEmojiSectionSetId \<in> set (icons f))
          \<and> FavedSetId ids \<in> set (icons f) \<longrightarrow>
          (\<exists>k < length (icons f).
              fst (validateChoice ids (icons f) setId) = int k
              \<and> icons f ! k = FavedSetId ids)
          \<and> snd (validateChoice ids (icons f) setId) = 0)
     \<and> ((\<forall>x \<in> set (icons f). \<not> iconMatches ids setId x)
          \<and> \<not> (isEmojiSectionId setId \<and> AllEmojiSectionSetId \<in> set (icons f))
          \<and> FavedSetId ids \<notin> set (icons f) \<longrightarrow>
          validateChoice ids (icons f) setId = (0, 0))"
proof -
  have a: "\<exists>k < length (icons f).
              fst (validateChoice ids (icons f) setId) = int k
              \<and> iconMatches ids setId (icons f ! k)
              \<and> (\<forall>j < k. \<not> iconMatches ids setId (icons f ! j))"
    if "\<exists>x \<in> set (icons f). iconMatches ids setId x"
    using that by (rule validateChoice_match)
  have b: "(\<exists>k < length (icons f).
              fst (validateChoice ids (icons f) setId) = int k
              \<and> icons f ! k = AllEmojiSectionSetId)
          \<and> snd (validateChoice ids (icons f) setId)
              = uint (setId - EmojiSectionSetId Section_People)
          \<and> snd (validateChoice ids (icons f) setId)
              \<le> int Section_Symbols - int Section_People"
    if "(\<forall>x \<in> set (icons f). \<not> iconMatches ids setId x)
          \<and> isEmojiSectionId setId \<and> AllEmojiSectionSetId \<in> set (icons f)"
    using validateChoice_allEmoji [OF _ assms, of "icons f" setId] that by blast
  have c: "(\<exists>k < length (icons f).
              fst (validateChoice ids (icons f) setId) = int k
              \<and> icons f ! k = FavedSetId ids)
          \<and> snd (validateChoice ids (icons f) setId) = 0"
    if "(\<forall>x \<in> set (icons f). \<not> iconMatches ids setId x)
          \<and> \<not> (isEmojiSectionId setId \<and> AllEmojiSectionSetId \<in> set (icons f))
          \<and> FavedSetId ids \<in> set (icons f)"
    using validateChoice_fallback(1,3) [OF _ assms, of "icons f" setId] that by blast
  have d: "validateChoice ids (icons f) setId = (0, 0)"
    if "(\<forall>x \<in> set (icons f). \<not> iconMatches ids setId x)
          \<and> \<not> (isEmojiSectionId setId \<and> AllEmojiSectionSetId \<in> set (icons f))
          \<and> FavedSetId ids \<notin> set (icons f)"
    using validateChoice_fallback(2,3) [OF _ assms, of "icons f" setId] that
    by (simp add: prod_eq_iff)
  show ?thesis
    using a b c d validateSelectedIcon_selected [of ids now setId animations f]
    by (intro conjI impI) blast+
qed

text \<open>The theorem at the icons Faved, All Emoji and a third set, for the fourth emoji
  section.\<close>

theorem C4_validateSelectedIcon_witness:
  "FavedSetId realIds \<noteq> AllEmojiSectionSetId
   \<and> list_all (\<lambda>x. \<not> iconMatches realIds (EmojiSectionSetId 4) x) iconsWithEmoji
   \<and> isEmojiSectionId (EmojiSectionSetId 4)
   \<and> AllEmojiSectionSetId \<in> set iconsWithEmoji
   \<and> iconsWithEmoji ! 1 = AllEmojiSectionSetId
   \<and> selected (iconState (validateSelectedIcon realIds 1000 (EmojiSectionSetId 4)
        Animations_None (footerExample\<lparr>icons := iconsWithEmoji\<rparr>))) = 1
   \<and> selected (subiconState (validateSelectedIcon realIds 1000 (EmojiSectionSetId 4)
        Animations_None (footerExample\<lparr>icons := iconsWithEmoji\<rparr>))) = 3"
proof -
  let ?f = "footerExample\<lparr>icons := iconsWithEmoji\<rparr>"
  have ic: "icons ?f = iconsWithEmoji" by simp
  have h1: "FavedSetId realIds \<noteq> AllEmojiSectionSetId"
    by (simp add: realIds_def AllEmojiSectionSetId_def kEmojiSectionSetIdBase_def)
  have h2: "list_all (\<lambda>x. \<not> iconMatches realIds (EmojiSectionSetId 4) x) iconsWithEmoji"
    by (simp add: iconsWithEmoji_def iconMatches_def realIds_def EmojiSectionSetId_def
        AllEmojiSectionSetId_def kEmojiSectionSetIdBase_def)
  have h3: "isEmojiSectionId (EmojiSectionSetId 4)"
    by (simp add: isEmojiSectionId_def SetIdEmojiSection_def EmojiSectionSetId_def
        RecentEmojiSectionSetId_def kEmojiSectionSetIdBase_def Section_Recent_def
        Section_Symbols_def Let_def)
  have h4: "AllEmojiSectionSetId \<in> set iconsWithEmoji" by (simp add: iconsWithEmoji_def)
  have h5: "iconsWithEmoji ! 1 = AllEmojiSectionSetId" by (simp add: iconsWithEmoji_def)
  have sub: "uint (EmojiSectionSetId 4 - EmojiSectionSetId Section_People) = 3"
    by (simp add: EmojiSectionSetId_def Section_People_def)
  have only: "k = 1" if "k < length iconsWithEmoji" "iconsWithEmoji ! k = AllEmojiSectionSetId"
    for k
    using that h1
    by (auto simp: iconsWithEmoji_def less_Suc_eq nth_Cons' AllEmojiSectionSetId_def
        kEmojiSectionSetIdBase_def realIds_def split: if_splits)
  note t = C4_validateSelectedIcon_amended [OF h1, of 1000 "EmojiSectionSetId 4"
      Animations_None ?f, unfolded ic]
  have nm: "\<forall>x \<in> set iconsWithEmoji. \<not> iconMatches realIds (EmojiSectionSetId 4) x"
    using h2 by (simp add: list_all_iff)
  from t nm h3 h4 obtain k where k: "k < length iconsWithEmoji"
    "fst (validateChoice realIds iconsWithEmoji (EmojiSectionSetId 4)) = int k"
    "iconsWithEmoji ! k = AllEmojiSectionSetId"
    by blast
  have k1: "k = 1" using only [OF k(1,3)] .
  have s1: "selected (iconState (validateSelectedIcon realIds 1000 (EmojiSectionSetId 4)
        Animations_None ?f)) = 1"
    using t k(2) k1 by simp
  have s2: "selected (subiconState (validateSelectedIcon realIds 1000 (EmojiSectionSetId 4)
        Animations_None ?f)) = 3"
    using t nm h3 h4 sub by simp
  show ?thesis using h1 h2 h3 h4 h5 s1 s2 by blast
qed

section \<open>Photo element: the bitmap chosen for display\<close>








section \<open>Photo element: the image cache\<close>

lemma validateImageCache_reuse:
  "recordedKey c = wantedKey ratio m outer radius corners \<Longrightarrow>
   validateImageCache prepare ratio m outer radius corners c = c"
  by (simp add: validateImageCache_def recordedKey_def wantedKey_def Let_def)

lemma validateImageCache_recompute:
  assumes "recordedKey c \<noteq> wantedKey ratio m outer radius corners"
  shows "validateImageCache prepare ratio m outer radius corners c
           = c\<lparr>imageCache := prepare outer radius corners m,
                imageCacheRoundRadius := radius,
                imageCacheRoundCorners := corners,
                imageCacheBlurred := (if image_at m Large \<noteq> None then 0 else 1),
                prepareCalls := Suc (prepareCalls c)\<rparr>"
  using assms
  by (auto simp: validateImageCache_def recordedKey_def wantedKey_def Let_def)

lemma validateImageCache_records:
  assumes "q_size (prepare outer radius corners m) = scaled outer ratio"
  shows "recordedKey (validateImageCache prepare ratio m outer radius corners c)
           = wantedKey ratio m outer radius corners"
proof (cases "recordedKey c = wantedKey ratio m outer radius corners")
  case True
  then show ?thesis by (simp add: validateImageCache_reuse)
next
  case False
  show ?thesis
    unfolding validateImageCache_recompute [OF False]
    using assms by (simp add: recordedKey_def wantedKey_def)
qed

text \<open>
  C5: \<open>validateImageCache\<close> compares four values, the size of the cached image, the
  rounding radius, the rounding corners and the blurred flag, with the four values of the
  call. When they agree the state is unchanged and the cached image is reused; when one
  differs \<open>prepareImageCache\<close> is called once and its result and the three other values
  are recorded. When \<open>prepareImageCache\<close> returns an image of the size asked for, the
  recorded values are those of the call, so that the next call reuses the cache when its
  four values are the same and recomputes when one differs.
\<close>

theorem C5_validateImageCache:
  "(recordedKey c = wantedKey ratio m outer radius corners \<longrightarrow>
      validateImageCache prepare ratio m outer radius corners c = c)
   \<and> (recordedKey c \<noteq> wantedKey ratio m outer radius corners \<longrightarrow>
        prepareCalls (validateImageCache prepare ratio m outer radius corners c)
          = Suc (prepareCalls c)
        \<and> imageCache (validateImageCache prepare ratio m outer radius corners c)
            = prepare outer radius corners m
        \<and> imageCacheRoundRadius (validateImageCache prepare ratio m outer radius corners c)
            = radius
        \<and> imageCacheRoundCorners (validateImageCache prepare ratio m outer radius corners c)
            = corners
        \<and> imageCacheBlurred (validateImageCache prepare ratio m outer radius corners c)
            = (if image_at m Large \<noteq> None then 0 else 1))
   \<and> (q_size (prepare outer radius corners m) = scaled outer ratio \<longrightarrow>
        recordedKey (validateImageCache prepare ratio m outer radius corners c)
          = wantedKey ratio m outer radius corners
        \<and> (wantedKey ratio m' outer' radius' corners' = wantedKey ratio m outer radius corners
             \<longrightarrow> validateImageCache prepare ratio m' outer' radius' corners'
                   (validateImageCache prepare ratio m outer radius corners c)
                 = validateImageCache prepare ratio m outer radius corners c)
        \<and> (wantedKey ratio m' outer' radius' corners' \<noteq> wantedKey ratio m outer radius corners
             \<longrightarrow> prepareCalls (validateImageCache prepare ratio m' outer' radius' corners'
                     (validateImageCache prepare ratio m outer radius corners c))
                 = Suc (prepareCalls (validateImageCache prepare ratio m outer radius corners c))))"
proof (intro conjI impI)
  assume "recordedKey c = wantedKey ratio m outer radius corners"
  then show "validateImageCache prepare ratio m outer radius corners c = c"
    by (rule validateImageCache_reuse)
next
  assume ne: "recordedKey c \<noteq> wantedKey ratio m outer radius corners"
  show "prepareCalls (validateImageCache prepare ratio m outer radius corners c)
          = Suc (prepareCalls c)"
    "imageCache (validateImageCache prepare ratio m outer radius corners c)
       = prepare outer radius corners m"
    "imageCacheRoundRadius (validateImageCache prepare ratio m outer radius corners c) = radius"
    "imageCacheRoundCorners (validateImageCache prepare ratio m outer radius corners c)
       = corners"
    "imageCacheBlurred (validateImageCache prepare ratio m outer radius corners c)
       = (if image_at m Large \<noteq> None then 0 else 1)"
    by (simp_all add: validateImageCache_recompute [OF ne])
next
  assume sz: "q_size (prepare outer radius corners m) = scaled outer ratio"
  show rec: "recordedKey (validateImageCache prepare ratio m outer radius corners c)
          = wantedKey ratio m outer radius corners"
    using sz by (rule validateImageCache_records)
  show "validateImageCache prepare ratio m' outer' radius' corners'
          (validateImageCache prepare ratio m outer radius corners c)
        = validateImageCache prepare ratio m outer radius corners c"
    if "wantedKey ratio m' outer' radius' corners' = wantedKey ratio m outer radius corners"
    using that rec by (intro validateImageCache_reuse) simp
  show "prepareCalls (validateImageCache prepare ratio m' outer' radius' corners'
          (validateImageCache prepare ratio m outer radius corners c))
        = Suc (prepareCalls (validateImageCache prepare ratio m outer radius corners c))"
    if "wantedKey ratio m' outer' radius' corners' \<noteq> wantedKey ratio m outer radius corners"
    using that rec by (subst validateImageCache_recompute) simp_all
qed

text \<open>The theorem at an empty cache: a first call, the same call again, and a call with
  another radius.\<close>

theorem C5_validateImageCache_witness:
  "recordedKey emptyCache \<noteq> wantedKey 2 mediaInlineAndThumbnail (100, 80) 1 3
   \<and> q_size (examplePrepare (100, 80) 1 3 mediaInlineAndThumbnail) = scaled (100, 80) 2
   \<and> prepareCalls (validateImageCache examplePrepare 2 mediaInlineAndThumbnail (100, 80) 1 3
        emptyCache) = 1
   \<and> validateImageCache examplePrepare 2 mediaInlineAndThumbnail (100, 80) 1 3
        (validateImageCache examplePrepare 2 mediaInlineAndThumbnail (100, 80) 1 3 emptyCache)
       = validateImageCache examplePrepare 2 mediaInlineAndThumbnail (100, 80) 1 3 emptyCache
   \<and> wantedKey 2 mediaInlineAndThumbnail (100, 80) 2 3
       \<noteq> wantedKey 2 mediaInlineAndThumbnail (100, 80) 1 3
   \<and> prepareCalls (validateImageCache examplePrepare 2 mediaInlineAndThumbnail (100, 80) 2 3
        (validateImageCache examplePrepare 2 mediaInlineAndThumbnail (100, 80) 1 3 emptyCache))
       = 2"
proof -
  have h1: "recordedKey emptyCache \<noteq> wantedKey 2 mediaInlineAndThumbnail (100, 80) 1 3"
    by (simp add: recordedKey_def wantedKey_def emptyCache_def scaled_def)
  have h2: "q_size (examplePrepare (100, 80) 1 3 mediaInlineAndThumbnail) = scaled (100, 80) 2"
    by (simp add: examplePrepare_def)
  have h3: "wantedKey 2 mediaInlineAndThumbnail (100, 80) 2 3
       \<noteq> wantedKey 2 mediaInlineAndThumbnail (100, 80) 1 3"
    by (simp add: wantedKey_def)
  have h4: "prepareCalls emptyCache = 0" by (simp add: emptyCache_def)
  note t1 = C5_validateImageCache [of emptyCache 2 mediaInlineAndThumbnail "(100, 80)" 1 3
      examplePrepare mediaInlineAndThumbnail "(100, 80)" 1 3]
  note t2 = C5_validateImageCache [of emptyCache 2 mediaInlineAndThumbnail "(100, 80)" 1 3
      examplePrepare mediaInlineAndThumbnail "(100, 80)" 2 3]
  have a: "prepareCalls (validateImageCache examplePrepare 2 mediaInlineAndThumbnail (100, 80)
             1 3 emptyCache) = 1"
    using t1 h1 h4 by simp
  have b: "validateImageCache examplePrepare 2 mediaInlineAndThumbnail (100, 80) 1 3
        (validateImageCache examplePrepare 2 mediaInlineAndThumbnail (100, 80) 1 3 emptyCache)
       = validateImageCache examplePrepare 2 mediaInlineAndThumbnail (100, 80) 1 3 emptyCache"
    using t1 h2 by blast
  have c: "prepareCalls (validateImageCache examplePrepare 2 mediaInlineAndThumbnail (100, 80)
             2 3
        (validateImageCache examplePrepare 2 mediaInlineAndThumbnail (100, 80) 1 3 emptyCache))
       = 2"
    using t2 h2 h3 a by simp
  show ?thesis using h1 h2 h3 a b c by blast
qed

section \<open>Photo element: streaming\<close>

lemma streamed_stopAnimation [simp]: "streamed (stopAnimation p) = None"
  by (simp add: stopAnimation_def setStreamed_def Let_def)

lemma photo_data_setStreamed [simp]: "photo_data (setStreamed v p) = photo_data p"
  by (simp add: setStreamed_def Let_def)

lemma photo_data_stopAnimation [simp]: "photo_data (stopAnimation p) = photo_data p"
  by (simp add: stopAnimation_def)

lemma not_playable_after_failure [simp]: "\<not> videoCanBePlayed (setVideoPlaybackFailed d)"
  by (simp add: videoCanBePlayed_def setVideoPlaybackFailed_def)

lemma failed_after_failure [simp]: "videoPlaybackFailed (setVideoPlaybackFailed d)"
  by (simp add: setVideoPlaybackFailed_def)

lemma handleStreamingError_stops:
  "streamed (handleStreamingError p) = None"
  "videoPlaybackFailed (photo_data (handleStreamingError p))"
  "\<not> videoCanBePlayed (photo_data (handleStreamingError p))"
  by (simp_all add: handleStreamingError_def)

lemma createStreamingObjects_fails:
  "fst (createStreamingObjects shared p) \<longleftrightarrow> valid shared"
  "\<not> valid shared \<Longrightarrow> streamed (snd (createStreamingObjects shared p)) = None"
  "photo_data (snd (createStreamingObjects shared p)) = photo_data p"
  by (simp_all add: createStreamingObjects_def Let_def checkStreamedIsStarted_def
      split: option.splits)

lemma playAnimation_failure:
  assumes "streamed p = None" and "videoCanBePlayed (photo_data p)" and "\<not> valid shared"
  shows "streamed (playAnimation created shared enabled autoplay p) = None"
    and "videoPlaybackFailed (photo_data (playAnimation created shared enabled autoplay p))"
    and "\<not> videoCanBePlayed (photo_data (playAnimation created shared enabled autoplay p))"
proof -
  define p1 where "p1 = ensureDataMediaCreated created p"
  have p1: "streamed p1 = None" "photo_data p1 = photo_data p"
    using assms(1) by (simp_all add: p1_def ensureDataMediaCreated_def)
  obtain p2 where c: "createStreamingObjects shared p1 = (False, p2)"
    and p2: "streamed p2 = None" "photo_data p2 = photo_data p1"
    using createStreamingObjects_fails [of shared p1] assms(3)
    by (cases "createStreamingObjects shared p1") auto
  have eq: "playAnimation created shared enabled autoplay p
              = p2\<lparr>photo_data := setVideoPlaybackFailed (photo_data p2)\<rparr>"
    using assms(2) p1 c by (simp add: playAnimation_def p1_def [symmetric])
  show "streamed (playAnimation created shared enabled autoplay p) = None"
    and "videoPlaybackFailed (photo_data (playAnimation created shared enabled autoplay p))"
    and "\<not> videoCanBePlayed (photo_data (playAnimation created shared enabled autoplay p))"
    using p2 by (simp_all add: eq)
qed

lemma no_retry:
  assumes "streamed p = None" and "\<not> videoCanBePlayed (photo_data p)"
  shows "paintUserpicFrame_start created shared enabled p = p"
    and "streamed (playAnimation created shared enabled autoplay p) = None"
    and "photo_data (playAnimation created shared enabled autoplay p) = photo_data p"
  using assms
  by (simp_all add: paintUserpicFrame_start_def checkStreamedIsStarted_def playAnimation_def
      ensureDataMediaCreated_def Let_def)

text \<open>
  C6: after a streaming error the streamed player is gone and the asset is marked
  video-playback-failed; when \<open>playAnimation\<close> creates the streaming objects and that
  fails (the instance is not valid), the same holds. From either state the autoplay check
  of \<open>paintUserpicFrame\<close> changes nothing, and \<open>playAnimation\<close> opens no stream.
\<close>

theorem C6_streaming_failure_stops:
  "streamed (handleStreamingError p) = None
   \<and> videoPlaybackFailed (photo_data (handleStreamingError p))
   \<and> (streamed p = None \<and> videoCanBePlayed (photo_data p) \<and> \<not> valid shared \<longrightarrow>
        \<not> fst (createStreamingObjects shared (ensureDataMediaCreated created p))
        \<and> streamed (playAnimation created shared enabled autoplay p) = None
        \<and> videoPlaybackFailed (photo_data (playAnimation created shared enabled autoplay p)))
   \<and> (\<forall>q. q = handleStreamingError p
            \<or> (streamed p = None \<and> videoCanBePlayed (photo_data p) \<and> \<not> valid shared
                \<and> q = playAnimation created shared enabled autoplay p) \<longrightarrow>
          paintUserpicFrame_start created' shared' enabled' q = q
          \<and> streamed (playAnimation created' shared' enabled' True q) = None
          \<and> \<not> videoCanBePlayed (photo_data (playAnimation created' shared' enabled' True q)))"
proof -
  have a: "streamed (handleStreamingError p) = None
      \<and> videoPlaybackFailed (photo_data (handleStreamingError p))"
    by (simp add: handleStreamingError_stops)
  have b: "\<not> fst (createStreamingObjects shared (ensureDataMediaCreated created p))
        \<and> streamed (playAnimation created shared enabled autoplay p) = None
        \<and> videoPlaybackFailed (photo_data (playAnimation created shared enabled autoplay p))"
    if "streamed p = None \<and> videoCanBePlayed (photo_data p) \<and> \<not> valid shared"
    using that playAnimation_failure [of p shared created enabled autoplay]
      createStreamingObjects_fails(1) by simp
  have c: "paintUserpicFrame_start created' shared' enabled' q = q
          \<and> streamed (playAnimation created' shared' enabled' True q) = None
          \<and> \<not> videoCanBePlayed (photo_data (playAnimation created' shared' enabled' True q))"
    if "streamed q = None" "\<not> videoCanBePlayed (photo_data q)" for q
    using no_retry [OF that] that(2) by simp
  have d: "streamed q = None \<and> \<not> videoCanBePlayed (photo_data q)"
    if "q = handleStreamingError p
            \<or> (streamed p = None \<and> videoCanBePlayed (photo_data p) \<and> \<not> valid shared
                \<and> q = playAnimation created shared enabled autoplay p)" for q
    using that
  proof (elim disjE conjE)
    assume "q = handleStreamingError p"
    then show ?thesis by (simp add: handleStreamingError_stops)
  next
    assume f: "streamed p = None" "videoCanBePlayed (photo_data p)" "\<not> valid shared"
      and q: "q = playAnimation created shared enabled autoplay p"
    show ?thesis
      unfolding q using playAnimation_failure [OF f] by simp
  qed
  show ?thesis
  proof (intro conjI allI impI)
    fix q
    assume q: "q = handleStreamingError p
            \<or> (streamed p = None \<and> videoCanBePlayed (photo_data p) \<and> \<not> valid shared
                \<and> q = playAnimation created shared enabled autoplay p)"
    show "paintUserpicFrame_start created' shared' enabled' q = q"
      "streamed (playAnimation created' shared' enabled' True q) = None"
      "\<not> videoCanBePlayed (photo_data (playAnimation created' shared' enabled' True q))"
      using c d [OF q] by simp_all
  qed (use a b in simp_all)
qed

text \<open>The theorem at an asset with a video and a stream that does not open; with a stream
  that opens, the autoplay check starts the player.\<close>

theorem C6_streaming_failure_witness:
  "streamed videoPhoto = None \<and> videoCanBePlayed (photo_data videoPhoto)
   \<and> \<not> valid brokenStream
   \<and> streamed (playAnimation mediaInlineAndThumbnail brokenStream True True videoPhoto) = None
   \<and> videoPlaybackFailed
       (photo_data (playAnimation mediaInlineAndThumbnail brokenStream True True videoPhoto))
   \<and> paintUserpicFrame_start mediaInlineAndThumbnail goodStream True
        (playAnimation mediaInlineAndThumbnail brokenStream True True videoPhoto)
       = playAnimation mediaInlineAndThumbnail brokenStream True True videoPhoto
   \<and> streamed (paintUserpicFrame_start mediaInlineAndThumbnail goodStream True videoPhoto)
       \<noteq> None"
proof -
  have h: "streamed videoPhoto = None" "videoCanBePlayed (photo_data videoPhoto)"
    "\<not> valid brokenStream"
    by (simp_all add: videoPhoto_def videoCanBePlayed_def brokenStream_def)
  note t = C6_streaming_failure_stops [of videoPhoto brokenStream mediaInlineAndThumbnail True
      True mediaInlineAndThumbnail goodStream True]
  have a: "streamed (playAnimation mediaInlineAndThumbnail brokenStream True True videoPhoto)
             = None"
    and b: "videoPlaybackFailed
       (photo_data (playAnimation mediaInlineAndThumbnail brokenStream True True videoPhoto))"
    using t h by blast+
  have c: "paintUserpicFrame_start mediaInlineAndThumbnail goodStream True
        (playAnimation mediaInlineAndThumbnail brokenStream True True videoPhoto)
       = playAnimation mediaInlineAndThumbnail brokenStream True True videoPhoto"
    using t h by blast
  have d: "streamed (paintUserpicFrame_start mediaInlineAndThumbnail goodStream True videoPhoto)
       \<noteq> None"
    by (simp add: paintUserpicFrame_start_def playAnimation_def videoPhoto_def
        videoCanBePlayed_def ensureDataMediaCreated_def createStreamingObjects_def
        setStreamed_def goodStream_def checkStreamedIsStarted_def Let_def)
  show ?thesis using h a b c d by blast
qed


section \<open>Voice message: the seeking proportion\<close>

lemma unit_interval_clamp_unit: "x \<noteq> NaN \<Longrightarrow> unit_interval (clamp_unit x)"
  by (cases x) (simp_all add: unit_interval_def clamp_unit_def)

lemma divide_double_NaN: "divide_double a b = NaN \<longleftrightarrow> a = 0 \<and> b = 0"
  by (simp add: divide_double_def)

text \<open>A point inside a rectangle of non-negative width lies from its left edge on and
  before its width is over; such a rectangle is not empty.\<close>

lemma QRect_contains_span:
  assumes "QRect_contains (x, y, w, h) p" and "0 \<le> w"
  shows "x \<le> fst p" and "fst p < x + w"
  using assms by (auto simp: QRect_contains_def Let_def split: if_splits)

lemma seek_start_quotient:
  assumes "QRect_contains (x, y, w, h) p" and "0 \<le> w"
  shows "divide_double (fst p - x) w = Finite (real_of_int (fst p - x) / real_of_int w)"
    and "0 \<le> real_of_int (fst p - x) / real_of_int w"
    and "real_of_int (fst p - x) / real_of_int w < 1"
proof -
  note c = QRect_contains_span [OF assms]
  have w: "0 < w" using c by simp
  show "divide_double (fst p - x) w = Finite (real_of_int (fst p - x) / real_of_int w)"
    using w by (simp add: divide_double_def)
  show "0 \<le> real_of_int (fst p - x) / real_of_int w"
    using c w by simp
  show "real_of_int (fst p - x) / real_of_int w < 1"
    using c w by simp
qed

lemma textState_voice_SeekLink:
  assumes "fst (textState_voice wst skip l topMinus lw point playing v) = SeekLink"
  shows "QRect_contains
           (nameLeft l, nameTop l - topMinus, seekWidth skip l lw v,
            mtop (padding l) - topMinus + msgWaveformMax wst + msgWaveformMin wst
              - (nameTop l - topMinus)) point"
    and "\<not> seeking v \<Longrightarrow>
         snd (textState_voice wst skip l topMinus lw point playing v)
           = setSeekingStart (divide_double (fst point - nameLeft l) (seekWidth skip l lw v)) v"
  using assms by (auto simp: textState_voice_def Let_def split: if_splits)

lemma textState_voice_other:
  assumes "fst (textState_voice wst skip l topMinus lw point playing v) \<noteq> SeekLink"
  shows "snd (textState_voice wst skip l topMinus lw point playing v) = v"
  using assms by (auto simp: textState_voice_def Let_def split: if_splits)

lemma textState_voice_seeking:
  "seeking (snd (textState_voice wst skip l topMinus lw point playing v)) = seeking v"
  "seeking v \<Longrightarrow> snd (textState_voice wst skip l topMinus lw point playing v) = v"
  by (auto simp: textState_voice_def Let_def setSeekingStart_def)

lemma textState_voice_inv:
  assumes "voice_inv v" and "0 \<le> seekWidth skip l lw v"
  shows "voice_inv (snd (textState_voice wst skip l topMinus lw point playing v))"
proof (cases "fst (textState_voice wst skip l topMinus lw point playing v) = SeekLink
              \<and> \<not> seeking v")
  case True
  note q = seek_start_quotient [OF textState_voice_SeekLink(1) assms(2)]
  from True have "snd (textState_voice wst skip l topMinus lw point playing v)
      = setSeekingStart (divide_double (fst point - nameLeft l) (seekWidth skip l lw v)) v"
    by (simp add: textState_voice_SeekLink(2))
  moreover have "unit_interval (divide_double (fst point - nameLeft l) (seekWidth skip l lw v))"
    using q [of wst topMinus point playing] True by (simp add: unit_interval_def)
  ultimately show ?thesis
    using True by (simp add: voice_inv_def setSeekingStart_def)
next
  case False
  then have "snd (textState_voice wst skip l topMinus lw point playing v) = v"
    using textState_voice_other [of wst skip l topMinus lw point playing v]
      textState_voice_seeking(2) [of v wst skip l topMinus lw point playing] by blast
  then show ?thesis using assms(1) by simp
qed

lemma clickHandlerPressedChanged_inv:
  "voice_inv v \<Longrightarrow> voice_inv (clickHandlerPressedChanged isSeekLink pressed v)"
  by (simp add: clickHandlerPressedChanged_def voice_inv_def startSeeking_def stopSeeking_def)

lemma clickHandlerPressedChanged_press:
  assumes "\<not> seeking v"
  shows "seeking (clickHandlerPressedChanged True True v)"
    and "seekingCurrent (clickHandlerPressedChanged True True v) = seekingStart v"
  using assms by (simp_all add: clickHandlerPressedChanged_def startSeeking_def)

lemma updatePressed_seeking:
  assumes "seeking v"
    and "\<not> (fst point = nameLeft (updatePressedLayout st isThumbed)
            \<and> ew = nameLeft (updatePressedLayout st isThumbed)
                   + nameRight (updatePressedLayout st isThumbed))"
  shows "unit_interval (seekingCurrent (updatePressed st isThumbed ew point v))"
    and "seeking (updatePressed st isThumbed ew point v)"
    and "seekingStart (updatePressed st isThumbed ew point v) = seekingStart v"
proof -
  let ?l = "updatePressedLayout st isThumbed"
  have "divide_double (fst point - nameLeft ?l) (ew - nameLeft ?l - nameRight ?l) \<noteq> NaN"
    using assms(2) by (auto simp: divide_double_NaN)
  from unit_interval_clamp_unit [OF this] assms(1)
  show "unit_interval (seekingCurrent (updatePressed st isThumbed ew point v))"
    and "seeking (updatePressed st isThumbed ew point v)"
    and "seekingStart (updatePressed st isThumbed ew point v) = seekingStart v"
    by (simp_all add: updatePressed_def Let_def setSeekingCurrent_def)
qed

lemma updatePressed_idle: "\<not> seeking v \<Longrightarrow> updatePressed st isThumbed ew point v = v"
  by (simp add: updatePressed_def)

text \<open>
  C9, as stated, fails at two layouts that pass the guard of \<open>textState\<close>. With a layout
  width of \<open>27\<close> the name area has the width \<open>-56\<close>; the rectangle of negative width is
  read from its other end and holds the point \<open>(12, 20)\<close>, the start recorded is
  \<open>(12 - 69) / (-56) = 57/56\<close>, and the press starts the seek at that value. With an
  element width of \<open>83 = nameleft + nameright\<close> a move to \<open>x = nameleft\<close> divides zero by
  zero, and \<open>std::clamp\<close> returns the NaN.
\<close>

theorem C9_seeking_proportion_counterexample:
  "\<not> textState_tooNarrow exampleStyle 27
   \<and> seekWidth 4 exampleLayout 27 voiceExample = - 56
   \<and> fst (textState_voice st0 4 exampleLayout 0 27 (12, 20) True voiceExample) = SeekLink
   \<and> seeking (clickHandlerPressedChanged True True
                (snd (textState_voice st0 4 exampleLayout 0 27 (12, 20) True voiceExample)))
   \<and> seekingCurrent (clickHandlerPressedChanged True True
                (snd (textState_voice st0 4 exampleLayout 0 27 (12, 20) True voiceExample)))
       = Finite (57 / 56)
   \<and> \<not> unit_interval (Finite (57 / 56))
   \<and> seeking seekingExample
   \<and> seekingCurrent (updatePressed exampleStyle False 83 (69, 20) seekingExample) = NaN
   \<and> \<not> unit_interval NaN"
proof -
  have w: "seekWidth 4 exampleLayout 27 voiceExample = - 56"
    by (simp add: seekWidth_def voiceExample_def exampleLayout_def nameLeft_def nameRight_def)
  have n: "nameLeft exampleLayout = 69" "nameRight exampleLayout = 14"
    by (simp_all add: exampleLayout_def nameLeft_def nameRight_def)
  have g: "\<not> textState_tooNarrow exampleStyle 27"
    by (simp add: textState_tooNarrow_def exampleStyle_def)
  have t: "textState_voice st0 4 exampleLayout 0 27 (12, 20) True voiceExample
             = (SeekLink, setSeekingStart (Finite (57 / 56)) voiceExample)"
    by (simp add: textState_voice_def w n Let_def QRect_contains_def divide_double_def)
      (simp add: voiceExample_def exampleLayout_def st0_def)
  have p: "clickHandlerPressedChanged True True (setSeekingStart (Finite (57 / 56)) voiceExample)
             = voiceExample\<lparr>seeking := True, seekingStart := Finite (57 / 56),
                               seekingCurrent := Finite (57 / 56)\<rparr>"
    by (simp add: clickHandlerPressedChanged_def startSeeking_def setSeekingStart_def
        voiceExample_def)
  have l: "updatePressedLayout exampleStyle False = exampleLayout"
    by (simp add: updatePressedLayout_def exampleStyle_def)
  have u: "seekingCurrent (updatePressed exampleStyle False 83 (69, 20) seekingExample) = NaN"
    by (simp add: updatePressed_def l n Let_def setSeekingCurrent_def divide_double_def
        clamp_unit_def seekingExample_def)
  show ?thesis
    using g w u by (simp add: t p unit_interval_def seekingExample_def)
qed

text \<open>
  C9, amended. While a voice-message seek is in progress the seeking proportion is within
  \<open>[0, 1]\<close>, provided the name area is not of negative width when \<open>textState\<close> records the
  start and no move has both \<open>x - nameleft\<close> and \<open>width - nameleft - nameright\<close> zero. The
  component starts with the invariant \<open>voice_inv\<close> and each of the three handlers keeps
  it:
  \<^item> \<open>textState\<close>, when the name area has a non-negative width: the start it records, for a
    point inside the waveform rectangle, is \<open>(x - nameleft) / namewidth\<close>, at least \<open>0\<close>
    and below \<open>1\<close>;
  \<^item> \<open>clickHandlerPressedChanged\<close>: a press on the seek link starts the seek at the recorded
    start, a release stops it;
  \<^item> \<open>updatePressed\<close>, for every pointer position, inside or outside the waveform and the
    element, unless both \<open>x - nameleft\<close> and \<open>width - nameleft - nameright\<close> are zero: the
    current value is \<open>(x - nameleft) / (width - nameleft - nameright)\<close> clamped to
    \<open>[0, 1]\<close>, and the seek goes on.
\<close>

theorem C9_seeking_proportion_in_unit_interval:
  assumes "voice_inv v"
  shows "(0 \<le> seekWidth skip l lw v \<longrightarrow>
            voice_inv (snd (textState_voice wst skip l topMinus lw point playing v))
            \<and> (\<not> seeking v
                 \<and> fst (textState_voice wst skip l topMinus lw point playing v) = SeekLink
               \<longrightarrow> seekingStart (snd (textState_voice wst skip l topMinus lw point playing v))
                     = Finite (real_of_int (fst point - nameLeft l)
                               / real_of_int (seekWidth skip l lw v))
                   \<and> 0 \<le> real_of_int (fst point - nameLeft l)
                            / real_of_int (seekWidth skip l lw v)
                   \<and> real_of_int (fst point - nameLeft l)
                       / real_of_int (seekWidth skip l lw v) < 1))
         \<and> voice_inv (clickHandlerPressedChanged isSeekLink pressed v)
         \<and> (\<not> seeking v \<longrightarrow>
              seeking (clickHandlerPressedChanged True True v)
              \<and> seekingCurrent (clickHandlerPressedChanged True True v) = seekingStart v)
         \<and> (seeking v
              \<and> \<not> (fst moved = nameLeft (updatePressedLayout st isThumbed)
                     \<and> ew = nameLeft (updatePressedLayout st isThumbed)
                            + nameRight (updatePressedLayout st isThumbed))
            \<longrightarrow> voice_inv (updatePressed st isThumbed ew moved v)
                \<and> seeking (updatePressed st isThumbed ew moved v)
                \<and> seekingCurrent (updatePressed st isThumbed ew moved v)
                    = clamp_unit (divide_double
                        (fst moved - nameLeft (updatePressedLayout st isThumbed))
                        (ew - nameLeft (updatePressedLayout st isThumbed)
                            - nameRight (updatePressedLayout st isThumbed)))
                \<and> unit_interval (seekingCurrent (updatePressed st isThumbed ew moved v)))
         \<and> (\<not> seeking v \<longrightarrow> voice_inv (updatePressed st isThumbed ew moved v))"
proof (intro conjI impI)
  assume w: "0 \<le> seekWidth skip l lw v"
  show "voice_inv (snd (textState_voice wst skip l topMinus lw point playing v))"
    using textState_voice_inv [OF assms w] .
  assume s: "\<not> seeking v
    \<and> fst (textState_voice wst skip l topMinus lw point playing v) = SeekLink"
  note hit = textState_voice_SeekLink [of wst skip l topMinus lw point playing v]
  note q = seek_start_quotient [OF hit(1) w]
  show "seekingStart (snd (textState_voice wst skip l topMinus lw point playing v))
          = Finite (real_of_int (fst point - nameLeft l) / real_of_int (seekWidth skip l lw v))"
    using s hit(2) q(1) by (simp add: setSeekingStart_def)
  show "0 \<le> real_of_int (fst point - nameLeft l) / real_of_int (seekWidth skip l lw v)"
    using s q(2) by simp
  show "real_of_int (fst point - nameLeft l) / real_of_int (seekWidth skip l lw v) < 1"
    using s q(3) by simp
next
  show "voice_inv (clickHandlerPressedChanged isSeekLink pressed v)"
    using assms by (rule clickHandlerPressedChanged_inv)
next
  assume "\<not> seeking v"
  then show "seeking (clickHandlerPressedChanged True True v)"
    and "seekingCurrent (clickHandlerPressedChanged True True v) = seekingStart v"
    by (rule clickHandlerPressedChanged_press)+
next
  assume m: "seeking v
    \<and> \<not> (fst moved = nameLeft (updatePressedLayout st isThumbed)
          \<and> ew = nameLeft (updatePressedLayout st isThumbed)
                 + nameRight (updatePressedLayout st isThumbed))"
  then have s: "seeking v" and nz: "\<not> (fst moved = nameLeft (updatePressedLayout st isThumbed)
          \<and> ew = nameLeft (updatePressedLayout st isThumbed)
                 + nameRight (updatePressedLayout st isThumbed))"
    by blast+
  note u = updatePressed_seeking [OF s nz]
  show "voice_inv (updatePressed st isThumbed ew moved v)"
    using u assms by (simp add: voice_inv_def)
  show "seeking (updatePressed st isThumbed ew moved v)" using u(2) .
  show "unit_interval (seekingCurrent (updatePressed st isThumbed ew moved v))" using u(1) .
  show "seekingCurrent (updatePressed st isThumbed ew moved v)
          = clamp_unit (divide_double
              (fst moved - nameLeft (updatePressedLayout st isThumbed))
              (ew - nameLeft (updatePressedLayout st isThumbed)
                  - nameRight (updatePressedLayout st isThumbed)))"
    using s by (simp add: updatePressed_def Let_def setSeekingCurrent_def)
next
  assume "\<not> seeking v"
  then show "voice_inv (updatePressed st isThumbed ew moved v)"
    using assms by (simp add: updatePressed_idle)
qed

text \<open>The theorem at a press a quarter into a waveform of width 200, and at a move far
  to the right of the element while seeking.\<close>

theorem C9_seeking_proportion_witness:
  "voice_inv voiceExample
   \<and> 0 \<le> seekWidth 4 exampleLayout 283 voiceExample
   \<and> \<not> seeking voiceExample
   \<and> fst (textState_voice st0 4 exampleLayout 0 283 (119, 20) True voiceExample) = SeekLink
   \<and> seekingStart (snd (textState_voice st0 4 exampleLayout 0 283 (119, 20) True voiceExample))
       = Finite (1 / 4)
   \<and> voice_inv (snd (textState_voice st0 4 exampleLayout 0 283 (119, 20) True voiceExample))
   \<and> seeking (clickHandlerPressedChanged True True voiceExample)
   \<and> voice_inv seekingExample
   \<and> seeking seekingExample
   \<and> seekingCurrent (updatePressed exampleStyle False 283 (1000, - 50) seekingExample)
       = Finite 1
   \<and> unit_interval
        (seekingCurrent (updatePressed exampleStyle False 283 (1000, - 50) seekingExample))"
proof -
  have i: "voice_inv voiceExample"
    by (simp add: voice_inv_def voiceExample_def unit_interval_def)
  have w: "seekWidth 4 exampleLayout 283 voiceExample = 200"
    by (simp add: seekWidth_def voiceExample_def exampleLayout_def nameLeft_def nameRight_def)
  have n: "nameLeft exampleLayout = 69" "nameRight exampleLayout = 14"
    by (simp_all add: exampleLayout_def nameLeft_def nameRight_def)
  have s: "\<not> seeking voiceExample" by (simp add: voiceExample_def)
  have h: "fst (textState_voice st0 4 exampleLayout 0 283 (119, 20) True voiceExample) = SeekLink"
    by (simp add: textState_voice_def w n Let_def QRect_contains_def)
      (simp add: voiceExample_def exampleLayout_def st0_def)
  note t = C9_seeking_proportion_in_unit_interval [OF i, where skip = 4 and l = exampleLayout
      and lw = 283 and wst = st0 and topMinus = 0 and point = "(119, 20)" and playing = True]
  have 1: "seekingStart
      (snd (textState_voice st0 4 exampleLayout 0 283 (119, 20) True voiceExample))
       = Finite (1 / 4)"
    using t s h by (simp add: w n)
  have 2: "voice_inv
      (snd (textState_voice st0 4 exampleLayout 0 283 (119, 20) True voiceExample))"
    using t by (simp add: w)
  have 3: "seeking (clickHandlerPressedChanged True True voiceExample)"
    using t s by blast
  have j: "voice_inv seekingExample"
    by (simp add: voice_inv_def seekingExample_def unit_interval_def)
  have k: "seeking seekingExample" by (simp add: seekingExample_def)
  have l: "updatePressedLayout exampleStyle False = exampleLayout"
    by (simp add: updatePressedLayout_def exampleStyle_def)
  have far: "\<not> (fst (1000 :: int, - 50 :: int) = nameLeft (updatePressedLayout exampleStyle False)
           \<and> (283 :: int) = nameLeft (updatePressedLayout exampleStyle False)
                    + nameRight (updatePressedLayout exampleStyle False))"
    by (simp add: l n)
  have c: "clamp_unit (divide_double (fst (1000 :: int, - 50 :: int) - 69) (283 - 69 - 14))
             = Finite 1"
    by (simp add: clamp_unit_def divide_double_def)
  note u = C9_seeking_proportion_in_unit_interval [OF j, where st = exampleStyle
      and isThumbed = False and ew = 283 and moved = "(1000, - 50)"]
  have 4: "seekingCurrent (updatePressed exampleStyle False 283 (1000, - 50) seekingExample)
             = Finite 1"
    using u k far c by (simp add: l n)
  have 5: "unit_interval
      (seekingCurrent (updatePressed exampleStyle False 283 (1000, - 50) seekingExample))"
    using u k far by blast
  show ?thesis using i w s h 1 2 3 j k 4 5 by simp
qed
end
